(* ===== verification/Prelude.thy ===== *)
theory Prelude
  imports Main
begin

text \<open>
  Shared vocabulary of the development: the fact collections the component theories
  fill, the time units of the model, Python's decimal rendering of integers (used by
  \<open>json.dumps\<close>, by PostgreSQL's cast of integers to \<open>varchar\<close> and by
  \<open>datetime.isoformat\<close>) with its inverse, and small lemmas on lists and
  association lists that several components use.
\<close>

named_theorems store_simps "characteristic equations of the entity store operations"
named_theorems cache_simps "characteristic equations of the Redis operations"
named_theorems eval_defs "unfoldings that evaluate the model on concrete inputs"

type_synonym usec = int \<comment> \<open>\<open>datetime\<close> values: microseconds since 1970-01-01, UTC\<close>
type_synonym msec = int \<comment> \<open>Redis expiry times: milliseconds since the epoch\<close>

subsection \<open>Decimal digits\<close>

definition is_digit :: "char \<Rightarrow> bool" where
  "is_digit c \<longleftrightarrow> (48::nat) \<le> of_char c \<and> of_char c \<le> (57::nat)"

definition digit_char :: "nat \<Rightarrow> char" where
  "digit_char n = char_of (48 + n)"

fun show_nat :: "nat \<Rightarrow> string" where
  "show_nat n = (if n < 10 then [digit_char n] else show_nat (n div 10) @ [digit_char (n mod 10)])"

definition show_int :: "int \<Rightarrow> string" where
  "show_int i = (if i < 0 then CHR ''-'' # show_nat (nat (- i)) else show_nat (nat i))"

definition nat_of_digits :: "string \<Rightarrow> nat" where
  "nat_of_digits ds = foldl (\<lambda>a c. 10 * a + (of_char c - 48)) 0 ds"

declare show_nat.simps [simp del]

lemma is_digit_digit_char [simp]: "n < 10 \<Longrightarrow> is_digit (digit_char n)"
  by (simp add: is_digit_def digit_char_def)

lemma of_char_digit_char [simp]: "n < 10 \<Longrightarrow> of_char (digit_char n) = 48 + n"
  by (simp add: digit_char_def)

lemma digit_char_eq_iff [simp]:
  "n < 10 \<Longrightarrow> m < 10 \<Longrightarrow> digit_char n = digit_char m \<longleftrightarrow> n = m"
  by (metis add_left_cancel of_char_digit_char)

lemma digit_char_0: "digit_char 0 = CHR ''0''"
  by (simp add: digit_char_def char_of_eq_iff)

lemma show_nat_nonempty [simp]: "show_nat n \<noteq> []"
  by (subst show_nat.simps) simp

lemma show_nat_digits: "\<forall>c \<in> set (show_nat n). is_digit c"
proof (induction n rule: show_nat.induct)
  case (1 n)
  then show ?case by (subst show_nat.simps) auto
qed

lemma show_nat_hd: "hd (show_nat n) = digit_char 0 \<Longrightarrow> n = 0"
proof (induction n rule: show_nat.induct)
  case (1 n)
  show ?case
  proof (cases "n < 10")
    case True
    with "1.prems" show ?thesis by (simp add: show_nat.simps [of n])
  next
    case False
    with "1.prems" have "hd (show_nat (n div 10)) = digit_char 0"
      by (simp add: show_nat.simps [of n])
    with "1.IH" False have "n div 10 = 0" by simp
    with False show ?thesis by simp
  qed
qed

lemma nat_of_digits_snoc:
  "nat_of_digits (ds @ [c]) = 10 * nat_of_digits ds + (of_char c - 48)"
  by (simp add: nat_of_digits_def)

lemma nat_of_digits_show_nat [simp]: "nat_of_digits (show_nat n) = n"
proof (induction n rule: show_nat.induct)
  case (1 n)
  then show ?case
    by (subst show_nat.simps) (auto simp: nat_of_digits_snoc nat_of_digits_def)
qed

lemma show_nat_inj: "show_nat m = show_nat n \<Longrightarrow> m = n"
  by (metis nat_of_digits_show_nat)

lemma show_int_inj: "show_int i = show_int j \<Longrightarrow> i = j"
proof -
  assume eq: "show_int i = show_int j"
  have nd: "\<not> is_digit CHR ''-''" by (simp add: is_digit_def)
  have hd_nat: "hd (show_nat n) \<noteq> CHR ''-''" for n
    using show_nat_digits [of n] nd by (metis hd_in_set show_nat_nonempty)
  show "i = j"
  proof (cases "i < 0"; cases "j < 0")
    assume "i < 0" "j < 0"
    with eq show ?thesis by (auto simp: show_int_def dest: show_nat_inj)
  next
    assume "\<not> i < 0" "\<not> j < 0"
    with eq show ?thesis by (auto simp: show_int_def dest: show_nat_inj)
  next
    assume "i < 0" "\<not> j < 0"
    with eq have "hd (show_nat (nat j)) = CHR ''-''" by (metis list.sel(1) show_int_def)
    with hd_nat show ?thesis by blast
  next
    assume "\<not> i < 0" "j < 0"
    with eq have "hd (show_nat (nat i)) = CHR ''-''" by (metis list.sel(1) show_int_def)
    with hd_nat show ?thesis by blast
  qed
qed

subsection \<open>Lists and association lists\<close>

text \<open>Python's substring test \<open>p in s\<close> on strings.\<close>

fun contains :: "string \<Rightarrow> string \<Rightarrow> bool" where
  "contains p [] \<longleftrightarrow> p = []"
| "contains p (c # cs) \<longleftrightarrow> take (length p) (c # cs) = p \<or> contains p cs"

lemma distinct_map_snoc [simp]:
  "distinct (map f (xs @ [x])) \<longleftrightarrow> distinct (map f xs) \<and> f x \<notin> f ` set xs"
  by auto

lemma distinct_map_filter [intro]: "distinct (map f xs) \<Longrightarrow> distinct (map f (filter P xs))"
  by (simp add: distinct_map_filter)

lemma find_append_eq:
  "find P (xs @ ys) = (case find P xs of None \<Rightarrow> find P ys | Some x \<Rightarrow> Some x)"
  by (induction xs) auto

lemma map_of_rev_distinct:
  "distinct (map fst kvs) \<Longrightarrow> map_of (rev kvs) = map_of kvs"
proof (induction kvs)
  case Nil
  then show ?case by simp
next
  case (Cons kv kvs)
  then show ?case
    by (cases kv) (force simp: map_add_def fun_eq_iff split: option.splits dest: map_of_SomeD)
qed

end
