(* ===== verification/Json.thy ===== *)
theory Json
  imports Prelude
begin

text \<open>
  JSON values as app.py handles them: the request bodies Flask decodes, the dicts
  \<open>User.to_dict\<close> builds, and the strings the handlers store in Redis with
  \<open>json.dumps\<close> and read back with \<open>json.loads\<close> (app.py lines 83, 92, 187, 203).
  The library functions are modelled from Python's documented behaviour:
  \<open>json_dumps\<close> is \<open>json.dumps\<close> with its defaults (\<open>ensure_ascii=True\<close>,
  separators \<open>', '\<close> and \<open>': '\<close>), \<open>json_loads\<close> is the C scanner of
  \<open>json.loads\<close>. Floats, and \<open>\u\<close> escapes above code point 255, are outside the
  model (\<open>json_loads\<close> returns \<open>None\<close> on them); nothing app.py writes contains them.
  The main result is the round trip \<open>json_loads (json_dumps j) = Some j\<close> for every
  value whose objects have distinct keys.
\<close>

datatype json =
    JNull
  | JBool bool
  | JInt int
  | JStr string
  | JArr "json list"
  | JObj "(string \<times> json) list"

subsection \<open>Python semantics of decoded values\<close>

text \<open>Truth value of a Python object (\<open>if x:\<close>, \<open>not x\<close>, \<open>x or y\<close>).\<close>

fun py_truthy :: "json \<Rightarrow> bool" where
  "py_truthy JNull = False"
| "py_truthy (JBool b) = b"
| "py_truthy (JInt i) = (i \<noteq> 0)"
| "py_truthy (JStr s) = (s \<noteq> [])"
| "py_truthy (JArr xs) = (xs \<noteq> [])"
| "py_truthy (JObj kvs) = (kvs \<noteq> [])"

text \<open>\<open>d.get(k)\<close> on a dict given as its list of pairs: the last binding wins.\<close>

definition dict_get :: "(string \<times> json) list \<Rightarrow> string \<Rightarrow> json option" where
  "dict_get kvs k = map_of (rev kvs) k"

text \<open>A Python dict built by assigning the pairs in order: a repeated key keeps its
  first position and takes its last value (what \<open>json.loads\<close> does with objects).\<close>

fun dict_set :: "(string \<times> json) list \<Rightarrow> string \<Rightarrow> json \<Rightarrow> (string \<times> json) list" where
  "dict_set [] k v = [(k, v)]"
| "dict_set ((k', v') # kvs) k v =
     (if k' = k then (k, v) # kvs else (k', v') # dict_set kvs k v)"

definition dict_of_pairs :: "(string \<times> json) list \<Rightarrow> (string \<times> json) list" where
  "dict_of_pairs kvs = foldl (\<lambda>d (k, v). dict_set d k v) [] kvs"

fun wf_json :: "json \<Rightarrow> bool" where
  "wf_json (JArr xs) = list_all wf_json xs"
| "wf_json (JObj kvs) = (distinct (map fst kvs) \<and> list_all (\<lambda>kv. wf_json (snd kv)) kvs)"
| "wf_json _ = True"

subsection \<open>json.dumps\<close>

definition hex_digit :: "nat \<Rightarrow> char" where
  "hex_digit n = (if n < 10 then char_of (48 + n) else char_of (87 + n))"

definition hex4 :: "nat \<Rightarrow> string" where
  "hex4 n = [hex_digit (n div 4096 mod 16), hex_digit (n div 256 mod 16),
             hex_digit (n div 16 mod 16), hex_digit (n mod 16)]"

text \<open>\<open>py_encode_basestring_ascii\<close>: every character outside \<open>' '..'~'\<close> is escaped.\<close>

definition esc_char :: "char \<Rightarrow> string" where
  "esc_char c =
     (let n = of_char c :: nat in
      if n = 92 then [CHR 0x5C, CHR 0x5C]
      else if n = 34 then [CHR 0x5C, CHR 0x22]
      else if n = 8 then [CHR 0x5C, CHR ''b'']
      else if n = 12 then [CHR 0x5C, CHR ''f'']
      else if n = 10 then [CHR 0x5C, CHR ''n'']
      else if n = 13 then [CHR 0x5C, CHR ''r'']
      else if n = 9 then [CHR 0x5C, CHR ''t'']
      else if 32 \<le> n \<and> n \<le> 126 then [c]
      else CHR 0x5C # CHR ''u'' # hex4 n)"

definition dumps_str :: "string \<Rightarrow> string" where
  "dumps_str s = CHR 0x22 # concat (map esc_char s) @ [CHR 0x22]"

fun join_with :: "string \<Rightarrow> string list \<Rightarrow> string" where
  "join_with sep [] = []"
| "join_with sep [x] = x"
| "join_with sep (x # xs) = x @ sep @ join_with sep xs"

fun json_dumps :: "json \<Rightarrow> string" where
  "json_dumps JNull = ''null''"
| "json_dumps (JBool b) = (if b then ''true'' else ''false'')"
| "json_dumps (JInt i) = show_int i"
| "json_dumps (JStr s) = dumps_str s"
| "json_dumps (JArr xs) = CHR ''['' # join_with '', '' (map json_dumps xs) @ '']''"
| "json_dumps (JObj kvs) =
     CHR ''{'' # join_with '', '' (map (\<lambda>kv. dumps_str (fst kv) @ '': '' @ json_dumps (snd kv)) kvs)
       @ ''}''"

subsection \<open>json.loads\<close>

definition is_ws :: "char \<Rightarrow> bool" where
  "is_ws c \<longleftrightarrow> c \<in> {CHR '' '', CHR 0x09, CHR 0x0A, CHR 0x0D}"

definition skip_ws :: "string \<Rightarrow> string" where
  "skip_ws s = dropWhile is_ws s"

definition hex_val :: "char \<Rightarrow> nat option" where
  "hex_val c =
     (let n = of_char c :: nat in
      if 48 \<le> n \<and> n \<le> 57 then Some (n - 48)
      else if 97 \<le> n \<and> n \<le> 102 then Some (n - 87)
      else if 65 \<le> n \<and> n \<le> 70 then Some (n - 55)
      else None)"

fun hex4_val :: "string \<Rightarrow> nat option" where
  "hex4_val [a, b, c, d] =
     (case (hex_val a, hex_val b, hex_val c, hex_val d) of
        (Some w, Some x, Some y, Some z) \<Rightarrow> Some (((w * 16 + x) * 16 + y) * 16 + z)
      | _ \<Rightarrow> None)"
| "hex4_val _ = None"

definition simple_unescape :: "char \<Rightarrow> char option" where
  "simple_unescape e =
     (if e = CHR 0x22 then Some (CHR 0x22)
      else if e = CHR 0x5C then Some (CHR 0x5C)
      else if e = CHR ''/'' then Some (CHR ''/'')
      else if e = CHR ''b'' then Some (CHR 0x08)
      else if e = CHR ''f'' then Some (CHR 0x0C)
      else if e = CHR ''n'' then Some (CHR 0x0A)
      else if e = CHR ''r'' then Some (CHR 0x0D)
      else if e = CHR ''t'' then Some (CHR 0x09)
      else None)"

text \<open>\<open>scanstring\<close> (strict): the body of a string literal after its opening quote;
  returns the decoded string and the input after the closing quote.\<close>

function scan_str :: "string \<Rightarrow> (string \<times> string) option" where
  "scan_str [] = None"
| "scan_str (c # cs) =
     (if c = CHR 0x22 then Some ([], cs)
      else if c = CHR 0x5C then
        (case cs of
           [] \<Rightarrow> None
         | e # r \<Rightarrow>
             if e = CHR ''u'' then
               (case hex4_val (take 4 r) of
                  None \<Rightarrow> None
                | Some n \<Rightarrow> if n < 256 then map_option (apfst (Cons (char_of n))) (scan_str (drop 4 r))
                            else None)
             else
               (case simple_unescape e of
                  None \<Rightarrow> None
                | Some d \<Rightarrow> map_option (apfst (Cons d)) (scan_str r)))
      else if of_char c < (32::nat) then None
      else map_option (apfst (Cons c)) (scan_str cs))"
  by pat_completeness auto
termination
  by (relation "measure length") auto

text \<open>\<open>_match_number\<close>: an integer literal; a fraction or an exponent makes it a
  float, which the model does not represent.\<close>

definition float_tail :: "string \<Rightarrow> bool" where
  "float_tail r =
     (case r of
        c # d # _ \<Rightarrow> (c = CHR ''.'' \<and> is_digit d)
          \<or> ((c = CHR ''e'' \<or> c = CHR ''E'')
             \<and> (is_digit d \<or> ((d = CHR ''+'' \<or> d = CHR ''-'') \<and> (case drop 2 r of e # _ \<Rightarrow> is_digit e | [] \<Rightarrow> False))))
      | _ \<Rightarrow> False)"

definition scan_digits :: "string \<Rightarrow> (nat \<times> string) option" where
  "scan_digits s =
     (case s of
        [] \<Rightarrow> None
      | d # _ \<Rightarrow>
          if \<not> is_digit d then None
          else
            let ds = (if d = CHR ''0'' then [d] else takeWhile is_digit s);
                r = drop (length ds) s
            in if float_tail r then None else Some (nat_of_digits ds, r))"

definition parse_int :: "string \<Rightarrow> (json \<times> string) option" where
  "parse_int s =
     (case s of
        [] \<Rightarrow> None
      | c # r \<Rightarrow>
          if c = CHR ''-'' then map_option (\<lambda>(n, r'). (JInt (- int n), r')) (scan_digits r)
          else map_option (\<lambda>(n, r'). (JInt (int n), r')) (scan_digits s))"

text \<open>\<open>scan_once\<close> with its object and array parsers. The fuel bounds the nesting and
  the number of elements; \<open>json_loads\<close> gives one unit more than the length of the
  input, and every unit a parse spends consumes at least one character.\<close>

fun parse_value :: "nat \<Rightarrow> string \<Rightarrow> (json \<times> string) option"
and parse_array :: "nat \<Rightarrow> string \<Rightarrow> (json list \<times> string) option"
and parse_object :: "nat \<Rightarrow> string \<Rightarrow> ((string \<times> json) list \<times> string) option" where
  "parse_value 0 s = None"
| "parse_value (Suc f) s =
     (case s of
        [] \<Rightarrow> None
      | c # cs \<Rightarrow>
          if c = CHR 0x22 then map_option (apfst JStr) (scan_str cs)
          else if c = CHR ''{'' then
            (case skip_ws cs of
               [] \<Rightarrow> None
             | d # r \<Rightarrow> if d = CHR ''}'' then Some (JObj [], r)
                        else map_option (apfst (\<lambda>kvs. JObj (dict_of_pairs kvs))) (parse_object f (d # r)))
          else if c = CHR ''['' then
            (case skip_ws cs of
               [] \<Rightarrow> None
             | d # r \<Rightarrow> if d = CHR '']'' then Some (JArr [], r)
                        else map_option (apfst JArr) (parse_array f (d # r)))
          else if take 4 s = ''null'' then Some (JNull, drop 4 s)
          else if take 4 s = ''true'' then Some (JBool True, drop 4 s)
          else if take 5 s = ''false'' then Some (JBool False, drop 5 s)
          else parse_int s)"
| "parse_array 0 s = None"
| "parse_array (Suc f) s =
     (case parse_value f s of
        None \<Rightarrow> None
      | Some (v, r) \<Rightarrow>
          (case skip_ws r of
             [] \<Rightarrow> None
           | d # r' \<Rightarrow>
               if d = CHR '']'' then Some ([v], r')
               else if d = CHR '','' then map_option (apfst (Cons v)) (parse_array f (skip_ws r'))
               else None))"
| "parse_object 0 s = None"
| "parse_object (Suc f) s =
     (case s of
        [] \<Rightarrow> None
      | q # cs \<Rightarrow>
          if q \<noteq> CHR 0x22 then None
          else
            (case scan_str cs of
               None \<Rightarrow> None
             | Some (k, r) \<Rightarrow>
                 (case skip_ws r of
                    [] \<Rightarrow> None
                  | c # r1 \<Rightarrow>
                      if c \<noteq> CHR '':'' then None
                      else
                        (case parse_value f (skip_ws r1) of
                           None \<Rightarrow> None
                         | Some (v, r2) \<Rightarrow>
                             (case skip_ws r2 of
                                [] \<Rightarrow> None
                              | d # r3 \<Rightarrow>
                                  if d = CHR ''}'' then Some ([(k, v)], r3)
                                  else if d = CHR '','' then
                                    map_option (apfst (Cons (k, v))) (parse_object f (skip_ws r3))
                                  else None)))))"

definition json_loads :: "string \<Rightarrow> json option" where
  "json_loads s =
     (case parse_value (Suc (length s)) (skip_ws s) of
        None \<Rightarrow> None
      | Some (v, r) \<Rightarrow> if skip_ws r = [] then Some v else None)"

text \<open>What may follow a value inside the output of \<open>json_dumps\<close>: the end, a comma,
  or a closing bracket or brace (an integer literal must not run on into digits).\<close>

definition stop_ok :: "string \<Rightarrow> bool" where
  "stop_ok r = (case r of [] \<Rightarrow> True | c # _ \<Rightarrow> c = CHR '','' \<or> c = CHR '']'' \<or> c = CHR ''}'')"

declare dict_get_def [eval_defs] py_truthy.simps [eval_defs]

subsection \<open>Round trip\<close>

lemma hex_val_hex_digit [simp]: "k < 16 \<Longrightarrow> hex_val (hex_digit k) = Some k"
  by (auto simp: hex_val_def hex_digit_def Let_def)

lemma hex4_small: "n < 256 \<Longrightarrow> hex4 n = [hex_digit 0, hex_digit 0, hex_digit (n div 16), hex_digit (n mod 16)]"
  by (simp add: hex4_def)

lemma hex4_val_hex4: "n < 256 \<Longrightarrow> hex4_val (hex4 n) = Some n"
proof -
  assume n: "n < 256"
  then have "n div 16 < 16" by simp
  with n show ?thesis by (simp add: hex4_small)
qed

lemma length_hex4 [simp]: "length (hex4 n) = 4"
  by (simp add: hex4_def)

lemma char_of_escapes:
  "char_of (92::nat) = CHR 0x5C" "char_of (34::nat) = CHR 0x22" "char_of (8::nat) = CHR 0x08"
  "char_of (12::nat) = CHR 0x0C" "char_of (10::nat) = CHR 0x0A" "char_of (13::nat) = CHR 0x0D"
  "char_of (9::nat) = CHR 0x09"
  by (simp_all add: char_of_eq_iff)

lemma scan_str_esc_nat:
  assumes n: "n < (256::nat)"
  shows "scan_str (esc_char (char_of n) @ r) = map_option (apfst (Cons (char_of n))) (scan_str r)"
proof -
  have oc: "of_char (char_of n) = n" using n by simp
  consider (special) "n = 92 \<or> n = 34 \<or> n = 8 \<or> n = 12 \<or> n = 10 \<or> n = 13 \<or> n = 9"
    | (plain) "\<not> (n = 92 \<or> n = 34 \<or> n = 8 \<or> n = 12 \<or> n = 10 \<or> n = 13 \<or> n = 9)"
        "32 \<le> n \<and> n \<le> 126"
    | (uesc) "\<not> (n = 92 \<or> n = 34 \<or> n = 8 \<or> n = 12 \<or> n = 10 \<or> n = 13 \<or> n = 9)"
        "\<not> (32 \<le> n \<and> n \<le> 126)"
    by blast
  then show ?thesis
  proof cases
    case special
    then show ?thesis by (elim disjE) (simp_all add: esc_char_def simple_unescape_def char_of_escapes)
  next
    case plain
    then have "esc_char (char_of n) = [char_of n]" by (auto simp: esc_char_def oc)
    moreover from plain n have "char_of n \<noteq> CHR 0x22" "char_of n \<noteq> CHR 0x5C"
      by (auto simp: char_of_eq_iff take_bit_eq_mod)
    ultimately show ?thesis using plain oc by simp
  next
    case uesc
    then have "esc_char (char_of n) = CHR 0x5C # CHR ''u'' # hex4 n" using n by (auto simp: esc_char_def Let_def)
    then show ?thesis using n by (simp add: hex4_val_hex4)
  qed
qed

lemma scan_str_esc_char:
  "scan_str (esc_char c @ r) = map_option (apfst (Cons c)) (scan_str r)"
  using scan_str_esc_nat [of "of_char c" r] by (simp del: of_char_of)

lemma scan_str_dumps:
  "scan_str (concat (map esc_char s) @ CHR 0x22 # rest) = Some (s, rest)"
  by (induction s) (simp_all add: scan_str_esc_char)

lemma skip_ws_Cons [simp]: "\<not> is_ws c \<Longrightarrow> skip_ws (c # r) = c # r"
  by (simp add: skip_ws_def)

lemma skip_ws_space [simp]: "skip_ws (CHR '' '' # r) = skip_ws r"
  by (simp add: skip_ws_def is_ws_def)

lemma skip_ws_punct [simp]:
  "skip_ws (CHR '']'' # r) = CHR '']'' # r" "skip_ws (CHR ''}'' # r) = CHR ''}'' # r"
  "skip_ws (CHR '','' # r) = CHR '','' # r" "skip_ws (CHR '':'' # r) = CHR '':'' # r"
  by (simp_all add: skip_ws_def is_ws_def)

lemma skip_ws_Nil [simp]: "skip_ws [] = []"
  by (simp add: skip_ws_def)

lemma dict_set_fresh: "k \<notin> fst ` set d \<Longrightarrow> dict_set d k v = d @ [(k, v)]"
  by (induction d) auto

lemma foldl_dict_set_distinct:
  "distinct (map fst (d @ kvs)) \<Longrightarrow> foldl (\<lambda>d (k, v). dict_set d k v) d kvs = d @ kvs"
proof (induction kvs arbitrary: d)
  case Nil
  then show ?case by simp
next
  case (Cons kv kvs)
  then show ?case by (cases kv) (simp add: dict_set_fresh)
qed

lemma dict_of_pairs_distinct: "distinct (map fst kvs) \<Longrightarrow> dict_of_pairs kvs = kvs"
  using foldl_dict_set_distinct [of "[]" kvs] by (simp add: dict_of_pairs_def)

lemma show_nat_Cons: "\<exists>c cs. show_nat n = c # cs \<and> is_digit c"
  using show_nat_digits [of n] show_nat_nonempty [of n]
  by (metis hd_Cons_tl hd_in_set)

lemma dumps_head:
  "\<exists>c cs. json_dumps j = c # cs \<and> \<not> is_ws c \<and> c \<noteq> CHR '']'' \<and> c \<noteq> CHR ''}''"
proof (cases j)
  case (JInt i)
  obtain c cs where "show_nat (nat \<bar>i\<bar>) = c # cs" "is_digit c"
    using show_nat_Cons by blast
  then show ?thesis using JInt
    by (auto simp: show_int_def is_ws_def is_digit_def)
qed (auto simp: dumps_str_def is_ws_def)

lemma skip_ws_dumps [simp]: "skip_ws (json_dumps j @ r) = json_dumps j @ r"
  using dumps_head [of j] by auto

lemma takeWhile_digits_stop:
  "\<forall>c \<in> set ds. is_digit c \<Longrightarrow> stop_ok r \<Longrightarrow> takeWhile is_digit (ds @ r) = ds"
  by (auto simp: stop_ok_def is_digit_def split: list.splits)

lemma float_tail_stop: "stop_ok r \<Longrightarrow> \<not> float_tail r"
  by (auto simp: stop_ok_def float_tail_def split: list.splits)

lemma scan_digits_show_nat:
  assumes r: "stop_ok r"
  shows "scan_digits (show_nat m @ r) = Some (m, r)"
proof -
  obtain d cs where sn: "show_nat m = d # cs" and dd: "is_digit d"
    using show_nat_Cons by blast
  have nd: "nat_of_digits (d # cs) = m" using nat_of_digits_show_nat [of m] sn by simp
  have ds: "(if d = CHR ''0'' then [d] else takeWhile is_digit (d # cs @ r)) = d # cs"
  proof (cases "d = CHR ''0''")
    case True
    then have "hd (show_nat m) = digit_char 0" by (simp add: sn digit_char_0)
    then have "m = 0" by (rule show_nat_hd)
    then have "show_nat m = [digit_char 0]" by (simp add: show_nat.simps)
    with True sn show ?thesis by simp
  next
    case False
    then show ?thesis using takeWhile_digits_stop [OF show_nat_digits [of m] r] by (simp add: sn)
  qed
  have "scan_digits (d # cs @ r) = Some (m, r)"
    using dd ds nd float_tail_stop [OF r] by (simp add: scan_digits_def Let_def)
  then show ?thesis by (simp add: sn)
qed

lemma parse_int_show_int:
  assumes r: "stop_ok r"
  shows "parse_int (show_int i @ r) = Some (JInt i, r)"
proof (cases "i < 0")
  case True
  then show ?thesis using scan_digits_show_nat [OF r, of "nat (- i)"]
    by (simp add: parse_int_def show_int_def)
next
  case False
  obtain d cs where sn: "show_nat (nat i) = d # cs" and dd: "is_digit d"
    using show_nat_Cons by blast
  have "d \<noteq> CHR ''-''" using dd by (auto simp: is_digit_def)
  moreover have "scan_digits (d # cs @ r) = Some (nat i, r)"
    using scan_digits_show_nat [OF r, of "nat i"] sn by simp
  ultimately show ?thesis using False sn by (simp add: parse_int_def show_int_def)
qed

lemma join_with_Cons: "join_with sep (x # xs) = x @ (if xs = [] then [] else sep @ join_with sep xs)"
  by (cases xs) simp_all

lemma skip_ws_join_dumps:
  "xs \<noteq> [] \<Longrightarrow> skip_ws (join_with sep (map json_dumps xs) @ r) = join_with sep (map json_dumps xs) @ r"
  by (cases xs) (simp_all add: join_with_Cons)

lemma stop_ok_simps [simp]:
  "stop_ok []" "stop_ok (CHR '','' # r)" "stop_ok (CHR '']'' # r)" "stop_ok (CHR ''}'' # r)"
  by (simp_all add: stop_ok_def)

lemma parse_array_dumps:
  assumes "\<And>x f r. x \<in> set xs \<Longrightarrow> stop_ok r \<Longrightarrow> length (json_dumps x) < f
             \<Longrightarrow> parse_value f (json_dumps x @ r) = Some (x, r)"
    and "xs \<noteq> []" and "length (join_with '', '' (map json_dumps xs)) + 1 < g"
  shows "parse_array g (join_with '', '' (map json_dumps xs) @ CHR '']'' # rest) = Some (xs, rest)"
  using assms
proof (induction xs arbitrary: g)
  case Nil
  then show ?case by simp
next
  case (Cons x xs)
  from Cons.prems(3) obtain g' where g: "g = Suc g'" by (cases g) auto
  show ?case
  proof (cases "xs = []")
    case True
    with Cons.prems g have "parse_value g' (json_dumps x @ CHR '']'' # rest) = Some (x, CHR '']'' # rest)"
      by (intro Cons.prems(1)) auto
    with g True show ?thesis by simp
  next
    case False
    let ?J = "join_with '', '' (map json_dumps xs)"
    have j: "join_with '', '' (map json_dumps (x # xs)) = json_dumps x @ '', '' @ ?J"
      using False by (simp add: join_with_Cons)
    have px: "parse_value g' (json_dumps x @ '', '' @ ?J @ CHR '']'' # rest)
                = Some (x, '', '' @ ?J @ CHR '']'' # rest)"
      using Cons.prems g j by (intro Cons.prems(1)) auto
    have pr: "parse_array g' (?J @ CHR '']'' # rest) = Some (xs, rest)"
      using Cons.prems g j False by (intro Cons.IH) auto
    show ?thesis using g j px pr False by (simp add: skip_ws_join_dumps)
  qed
qed

lemma skip_ws_dumps_str [simp]: "skip_ws (dumps_str k @ r) = dumps_str k @ r"
  by (simp add: dumps_str_def is_ws_def)

lemma parse_object_dumps:
  assumes "\<And>k v f r. (k, v) \<in> set kvs \<Longrightarrow> stop_ok r \<Longrightarrow> length (json_dumps v) < f
             \<Longrightarrow> parse_value f (json_dumps v @ r) = Some (v, r)"
    and "kvs \<noteq> []"
    and "length (join_with '', '' (map (\<lambda>kv. dumps_str (fst kv) @ '': '' @ json_dumps (snd kv)) kvs)) + 1 < g"
  shows "parse_object g (join_with '', '' (map (\<lambda>kv. dumps_str (fst kv) @ '': '' @ json_dumps (snd kv)) kvs)
           @ CHR ''}'' # rest) = Some (kvs, rest)"
  using assms
proof (induction kvs arbitrary: g)
  case Nil
  then show ?case by simp
next
  case (Cons kv kvs)
  obtain k v where kv: "kv = (k, v)" by (cases kv)
  from Cons.prems(3) obtain g' where g: "g = Suc g'" by (cases g) auto
  let ?m = "\<lambda>kv. dumps_str (fst kv) @ '': '' @ json_dumps (snd kv)"
  have member: "parse_object (Suc g') (dumps_str k @ '': '' @ json_dumps v @ R) =
      (case parse_value g' (json_dumps v @ R) of
         None \<Rightarrow> None
       | Some (v', r2) \<Rightarrow>
           (case skip_ws r2 of
              [] \<Rightarrow> None
            | d # r3 \<Rightarrow>
                if d = CHR ''}'' then Some ([(k, v')], r3)
                else if d = CHR '','' then map_option (apfst (Cons (k, v'))) (parse_object g' (skip_ws r3))
                else None))" for R
    by (simp add: dumps_str_def scan_str_dumps is_ws_def)
  show ?case
  proof (cases "kvs = []")
    case True
    with Cons.prems g kv have "parse_value g' (json_dumps v @ CHR ''}'' # rest) = Some (v, CHR ''}'' # rest)"
      by (intro Cons.prems(1)) (auto simp: dumps_str_def)
    then have "parse_object (Suc g') (dumps_str k @ '': '' @ json_dumps v @ CHR ''}'' # rest) = Some ([(k, v)], rest)"
      by (simp only: member) simp
    with g True kv show ?thesis by simp
  next
    case False
    let ?J = "join_with '', '' (map ?m kvs)"
    have j: "join_with '', '' (map ?m (kv # kvs)) = dumps_str k @ '': '' @ json_dumps v @ '', '' @ ?J"
      using False kv by (simp add: join_with_Cons)
    have px: "parse_value g' (json_dumps v @ '', '' @ ?J @ CHR ''}'' # rest)
                = Some (v, '', '' @ ?J @ CHR ''}'' # rest)"
      using Cons.prems g j kv by (intro Cons.prems(1)) (auto simp: dumps_str_def)
    have pr: "parse_object g' (?J @ CHR ''}'' # rest) = Some (kvs, rest)"
      using Cons.prems g j False by (intro Cons.IH) auto
    have sk: "skip_ws (?J @ CHR ''}'' # rest) = ?J @ CHR ''}'' # rest"
      using False by (cases kvs) (simp_all add: join_with_Cons)
    have "parse_object (Suc g') (dumps_str k @ '': '' @ json_dumps v @ '', '' @ ?J @ CHR ''}'' # rest)
            = Some ((k, v) # kvs, rest)"
      using px pr sk by (simp only: member) simp
    with g j kv show ?thesis by simp
  qed
qed

lemma show_int_head: "\<exists>d cs. show_int i = d # cs \<and> (d = CHR ''-'' \<or> is_digit d)"
proof -
  obtain c cs where "show_nat (nat i) = c # cs" "is_digit c" using show_nat_Cons by blast
  then show ?thesis by (cases "i < 0") (auto simp: show_int_def)
qed

lemma parse_value_dumps:
  "wf_json j \<Longrightarrow> stop_ok rest \<Longrightarrow> length (json_dumps j) < f
     \<Longrightarrow> parse_value f (json_dumps j @ rest) = Some (j, rest)"
proof (induction j arbitrary: f rest)
  case JNull
  then obtain f' where "f = Suc f'" by (cases f) auto
  then show ?case by simp
next
  case (JBool b)
  then obtain f' where "f = Suc f'" by (cases f) auto
  then show ?case by simp
next
  case (JInt i)
  then obtain f' where f: "f = Suc f'" by (cases f) auto
  obtain d cs where sh: "show_int i = d # cs" and dd: "d = CHR ''-'' \<or> is_digit d"
    using show_int_head by blast
  have nsp: "d \<noteq> CHR 0x22" "d \<noteq> CHR ''{''" "d \<noteq> CHR ''[''" "d \<noteq> CHR ''n''"
    "d \<noteq> CHR ''t''" "d \<noteq> CHR ''f''"
    using dd by (auto simp: is_digit_def)
  have "parse_value f (d # cs @ rest) = parse_int (d # cs @ rest)"
    using f nsp by simp
  also have "\<dots> = Some (JInt i, rest)"
    using parse_int_show_int [OF JInt.prems(2), of i] sh by simp
  finally show ?case using sh by simp
next
  case (JStr s)
  then obtain f' where "f = Suc f'" by (cases f) auto
  then show ?case by (simp add: dumps_str_def scan_str_dumps)
next
  case (JArr xs)
  then obtain f' where f: "f = Suc f'" by (cases f) auto
  show ?case
  proof (cases "xs = []")
    case True
    with f show ?thesis by simp
  next
    case False
    obtain d r where dr: "join_with '', '' (map json_dumps xs) @ CHR '']'' # rest = d # r" and "d \<noteq> CHR '']''"
      using False dumps_head [of "hd xs"] by (cases xs) (auto simp: join_with_Cons)
    moreover have "parse_array f' (join_with '', '' (map json_dumps xs) @ CHR '']'' # rest) = Some (xs, rest)"
      using JArr f False by (intro parse_array_dumps) (auto simp: list_all_iff)
    ultimately show ?thesis
      using f False skip_ws_join_dumps [OF False, of "'', ''" "CHR '']'' # rest"] by simp
  qed
next
  case (JObj kvs)
  then obtain f' where f: "f = Suc f'" by (cases f) auto
  let ?m = "\<lambda>kv. dumps_str (fst kv) @ '': '' @ json_dumps (snd kv)"
  have dk: "dict_of_pairs kvs = kvs" using JObj.prems(1) by (simp add: dict_of_pairs_distinct)
  show ?case
  proof (cases "kvs = []")
    case True
    with f show ?thesis by simp
  next
    case False
    then obtain kv kvs' where kvs: "kvs = kv # kvs'" by (cases kvs) auto
    have "\<exists>r. join_with '', '' (map ?m kvs) @ CHR ''}'' # rest = CHR 0x22 # r"
      using kvs by (simp add: join_with_Cons dumps_str_def)
    then obtain r where dr: "join_with '', '' (map ?m kvs) @ CHR ''}'' # rest = CHR 0x22 # r"
      by blast
    have "parse_object f' (join_with '', '' (map ?m kvs) @ CHR ''}'' # rest) = Some (kvs, rest)"
    proof (rule parse_object_dumps)
      fix k v g r
      assume "(k, v) \<in> set kvs" "stop_ok r" "length (json_dumps v) < g"
      moreover from this(1) JObj.prems(1) have "wf_json v" by (auto simp: list_all_iff)
      ultimately show "parse_value g (json_dumps v @ r) = Some (v, r)"
        by (intro JObj.IH [of "(k, v)" v]) auto
    qed (use JObj.prems f False in auto)
    then show ?thesis using f dk dr by (simp add: is_ws_def)
  qed
qed

text \<open>
  Parsing what \<open>json.dumps\<close> printed gives the value back: for every JSON value
  whose objects have distinct keys (every dict a Python program builds),
  \<open>json.loads(json.dumps(v)) == v\<close>. The handlers rely on it when they serve a Redis
  hit (app.py lines 83 and 187) in place of the value they stored (lines 92 and 203).
\<close>

theorem json_roundtrip:
  assumes "wf_json j"
  shows "json_loads (json_dumps j) = Some j"
proof -
  have p: "parse_value (Suc (length (json_dumps j))) (json_dumps j @ []) = Some (j, [])"
    by (rule parse_value_dumps [OF assms]) simp_all
  have sk: "skip_ws (json_dumps j) = json_dumps j" using skip_ws_dumps [of j "[]"] by simp
  show ?thesis using p sk unfolding json_loads_def by (simp del: parse_value.simps)
qed

lemma json_roundtrip_example:
  "wf_json (JObj [(''id'', JInt (-7)), (''username'', JStr [CHR 0x22, CHR 0x0A, CHR 0xE9]),
                  (''tags'', JArr [JNull, JBool False])])
   \<and> json_loads (json_dumps (JObj [(''id'', JInt (-7)), (''username'', JStr [CHR 0x22, CHR 0x0A, CHR 0xE9]),
                  (''tags'', JArr [JNull, JBool False])]))
     = Some (JObj [(''id'', JInt (-7)), (''username'', JStr [CHR 0x22, CHR 0x0A, CHR 0xE9]),
                  (''tags'', JArr [JNull, JBool False])])"
proof -
  have wf: "wf_json (JObj [(''id'', JInt (-7)), (''username'', JStr [CHR 0x22, CHR 0x0A, CHR 0xE9]),
                  (''tags'', JArr [JNull, JBool False])])" by simp
  show ?thesis using wf json_roundtrip [OF wf] by simp
qed

end
