(* ===== verification/Store.thy ===== *)
theory Store
  imports Json
begin

text \<open>
  The entity store: the \<open>users\<close> table of app.py (class \<open>User\<close>, lines 26-40) in
  PostgreSQL, reached through Flask-SQLAlchemy and psycopg2. The state is the table's
  rows in storage order, the next value of the \<open>id\<close> sequence, and whether the server
  answers. Each operation is the SQL one statement of a handler sends, with the
  checks PostgreSQL applies: the casts to \<open>varchar(80)\<close>/\<open>varchar(120)\<close> while the
  statement is planned, then \<open>NOT NULL\<close> on both columns and the two \<open>UNIQUE\<close>
  constraints while it runs. A failed statement rolls back; the \<open>id\<close> sequence does
  not (PostgreSQL sequences are not transactional), so an \<open>INSERT\<close> that fails while
  it runs still consumes an id, and the sequence of the \<open>serial\<close> column
  stops at \<open>2^31 - 1\<close> (\<open>seq_max\<close>). Values reach a column through psycopg2's
  adaptation and PostgreSQL's assignment cast to \<open>varchar\<close> (\<open>adapt_varchar\<close>).
\<close>

record user =
  uid :: nat
  username :: string
  email :: string
  created_at :: usec

record db =
  rows :: "user list"
  next_id :: nat
  db_up :: bool

datatype db_error = OperationalError | IntegrityError | DataError | ProgrammingError

text \<open>\<open>id = db.Column(db.Integer, primary_key=True)\<close> is a PostgreSQL \<open>serial\<close>: an
  \<open>integer\<close> column fed by a sequence whose largest value is \<open>2^31 - 1\<close>. Past it
  \<open>nextval\<close> fails (\<open>sequence_generator_limit_exceeded\<close>, class 22, which psycopg2
  raises as \<open>DataError\<close>) without advancing.\<close>

definition seq_max :: nat where
  "seq_max = 2147483647"

definition init_db :: db where
  "init_db = \<lparr>rows = [], next_id = 1, db_up = True\<rparr>"

text \<open>A Python value bound to a \<open>varchar\<close> column: \<open>None\<close> is SQL \<open>NULL\<close>; ints and
  bools are cast to their text; an empty list is adapted to the literal \<open>'{}'\<close>; a
  non-empty list is an array, and a dict cannot be adapted.\<close>

fun adapt_varchar :: "json \<Rightarrow> db_error + string option" where
  "adapt_varchar JNull = Inr None"
| "adapt_varchar (JBool b) = Inr (Some (if b then ''true'' else ''false''))"
| "adapt_varchar (JInt i) = Inr (Some (show_int i))"
| "adapt_varchar (JStr s) = Inr (Some s)"
| "adapt_varchar (JArr xs) = (if xs = [] then Inr (Some ''{}'') else Inl ProgrammingError)"
| "adapt_varchar (JObj _) = Inl ProgrammingError"

text \<open>PostgreSQL's assignment cast of a text value to \<open>varchar(n)\<close> (its function
  \<open>varchar\<close> with \<open>isExplicit\<close> false): a longer value is an error
  (\<open>string_data_right_truncation\<close>, class 22, which psycopg2 raises as \<open>DataError\<close>)
  unless every character past the \<open>n\<close>-th is a space, and then it is cut to \<open>n\<close>
  characters. \<open>NULL\<close> passes.\<close>

definition varchar_cast :: "nat \<Rightarrow> string option \<Rightarrow> db_error + string option" where
  "varchar_cast n v =
     (case v of
        None \<Rightarrow> Inr None
      | Some s \<Rightarrow>
          if length s \<le> n then Inr (Some s)
          else if list_all (\<lambda>c. c = CHR '' '') (drop n s) then Inr (Some (take n s))
          else Inl DataError)"

text \<open>The value a \<open>varchar(n)\<close> column receives for a bound Python value.\<close>

definition column_value :: "nat \<Rightarrow> json \<Rightarrow> db_error + string option" where
  "column_value n j = (case adapt_varchar j of Inl e \<Rightarrow> Inl e | Inr a \<Rightarrow> varchar_cast n a)"

text \<open>The checks of the executor on the row it forms: \<open>NOT NULL\<close> on both columns,
  then the unique indexes against the other rows \<open>others\<close>.\<close>

definition check_row ::
  "user list \<Rightarrow> string option \<Rightarrow> string option \<Rightarrow> db_error + string \<times> string" where
  "check_row others u m =
     (case (u, m) of
        (Some u', Some m') \<Rightarrow>
          if u' \<in> set (map username others) \<or> m' \<in> set (map email others) then Inl IntegrityError
          else Inr (u', m')
      | _ \<Rightarrow> Inl IntegrityError)"

text \<open>\<open>db.session.add(User(username=..., email=...)); db.session.commit()\<close>
  (lines 121-126): \<open>INSERT ... RETURNING id\<close> with \<open>id\<close> from the sequence and
  \<open>created_at\<close> from \<open>datetime.utcnow()\<close> at flush time. psycopg2 adapts every value
  on the client first. It sends them as literals, so the planner folds their casts to
  \<open>varchar\<close> and a value too long fails before the statement runs, without calling
  \<open>nextval\<close>; the executor then takes the id and checks the row.\<close>

definition insert_row :: "db \<Rightarrow> json \<Rightarrow> json \<Rightarrow> usec \<Rightarrow> db \<times> (db_error + user)" where
  "insert_row d un em now =
     (if \<not> db_up d then (d, Inl OperationalError)
      else case (adapt_varchar un, adapt_varchar em) of
        (Inl e, _) \<Rightarrow> (d, Inl e)
      | (_, Inl e) \<Rightarrow> (d, Inl e)
      | (Inr a, Inr b) \<Rightarrow>
          (case (varchar_cast 80 a, varchar_cast 120 b) of
             (Inl e, _) \<Rightarrow> (d, Inl e)
           | (_, Inl e) \<Rightarrow> (d, Inl e)
           | (Inr u, Inr m) \<Rightarrow>
               if seq_max < next_id d then (d, Inl DataError) else
               let d' = d\<lparr>next_id := Suc (next_id d)\<rparr> in
               (case check_row (rows d) u m of
                  Inl e \<Rightarrow> (d', Inl e)
                | Inr (u', m') \<Rightarrow>
                    let r = \<lparr>uid = next_id d, username = u', email = m', created_at = now\<rparr>
                    in (d'\<lparr>rows := rows d @ [r]\<rparr>, Inr r))))"

text \<open>\<open>User.query.get_or_404(id)\<close> (lines 105, 143, 168): the row, \<open>None\<close> if there
  is none.\<close>

definition get_row :: "db \<Rightarrow> nat \<Rightarrow> db_error + user option" where
  "get_row d i = (if db_up d then Inr (find (\<lambda>r. uid r = i) (rows d)) else Inl OperationalError)"

text \<open>\<open>user.username = ...; user.email = ...; db.session.commit()\<close>
  (lines 146-151) for a loaded row \<open>u\<close>: \<open>None\<close> for a column the request does not
  assign. With nothing assigned no statement is sent. SQLAlchemy also leaves out a
  column assigned its loaded value; sending it instead gives the same result, since
  the loaded row already passes every check.\<close>

definition assign_col :: "string \<Rightarrow> json option \<Rightarrow> db_error + string option" where
  "assign_col cur v = (case v of None \<Rightarrow> Inr (Some cur) | Some j \<Rightarrow> adapt_varchar j)"

text \<open>A column the request assigns is sent and cast; the others are not sent.\<close>

definition cast_col :: "nat \<Rightarrow> json option \<Rightarrow> string option \<Rightarrow> db_error + string option" where
  "cast_col n v a = (if v = None then Inr a else varchar_cast n a)"

definition update_row :: "db \<Rightarrow> user \<Rightarrow> json option \<Rightarrow> json option \<Rightarrow> db_error + user \<times> db" where
  "update_row d u un em =
     (if un = None \<and> em = None then Inr (u, d)
      else if \<not> db_up d then Inl OperationalError
      else
        case (assign_col (username u) un, assign_col (email u) em) of
          (Inl e, _) \<Rightarrow> Inl e
        | (_, Inl e) \<Rightarrow> Inl e
        | (Inr a, Inr b) \<Rightarrow>
            (case (cast_col 80 un a, cast_col 120 em b) of
               (Inl e, _) \<Rightarrow> Inl e
             | (_, Inl e) \<Rightarrow> Inl e
             | (Inr u1, Inr m1) \<Rightarrow>
                 (case check_row (filter (\<lambda>r. uid r \<noteq> uid u) (rows d)) u1 m1 of
                    Inl e \<Rightarrow> Inl e
                  | Inr (u', m') \<Rightarrow>
                      let r = u\<lparr>username := u', email := m'\<rparr>
                      in Inr (r, d\<lparr>rows := map (\<lambda>x. if uid x = uid u then r else x) (rows d)\<rparr>))))"

text \<open>\<open>db.session.delete(user); db.session.commit()\<close> (lines 169-170).\<close>

definition delete_row :: "db \<Rightarrow> user \<Rightarrow> db_error + db" where
  "delete_row d u =
     (if db_up d then Inr (d\<lparr>rows := filter (\<lambda>r. uid r \<noteq> uid u) (rows d)\<rparr>) else Inl OperationalError)"

text \<open>\<open>User.query.all()\<close> (line 88), \<open>User.query.count()\<close> (line 190), the count of
  rows created at or after a time (lines 191-193), and \<open>SELECT 1\<close> (line 52).\<close>

definition all_rows :: "db \<Rightarrow> db_error + user list" where
  "all_rows d = (if db_up d then Inr (rows d) else Inl OperationalError)"

definition count_rows :: "db \<Rightarrow> db_error + nat" where
  "count_rows d = (if db_up d then Inr (length (rows d)) else Inl OperationalError)"

definition count_since :: "db \<Rightarrow> usec \<Rightarrow> db_error + nat" where
  "count_since d t =
     (if db_up d then Inr (length (filter (\<lambda>r. t \<le> created_at r) (rows d))) else Inl OperationalError)"

definition select_one :: "db \<Rightarrow> db_error + unit" where
  "select_one d = (if db_up d then Inr () else Inl OperationalError)"

text \<open>The table's integrity: distinct positive ids below the sequence's next value,
  unique user names and e-mail addresses, and the column lengths.\<close>

definition db_inv :: "db \<Rightarrow> bool" where
  "db_inv d \<longleftrightarrow>
     0 < next_id d \<and> next_id d \<le> Suc seq_max \<and> distinct (map uid (rows d))
     \<and> distinct (map username (rows d)) \<and> distinct (map email (rows d))
     \<and> list_all (\<lambda>r. 0 < uid r \<and> uid r < next_id d
                     \<and> length (username r) \<le> 80 \<and> length (email r) \<le> 120) (rows d)"

declare init_db_def [eval_defs] insert_row_def [eval_defs] get_row_def [eval_defs]
  update_row_def [eval_defs] assign_col_def [eval_defs] delete_row_def [eval_defs]
  all_rows_def [eval_defs] count_rows_def [eval_defs] count_since_def [eval_defs]
  select_one_def [eval_defs] check_row_def [eval_defs] varchar_cast_def [eval_defs] cast_col_def [eval_defs]
  column_value_def [eval_defs] seq_max_def [eval_defs]
  db_inv_def [eval_defs]

subsection \<open>Characteristic lemmas\<close>

lemma distinct_map_replace:
  assumes "distinct (map g xs)" "distinct (map f xs)"
    and "\<And>x. x \<in> set xs \<Longrightarrow> g x \<noteq> k \<Longrightarrow> f x \<noteq> v"
  shows "distinct (map (\<lambda>x. if g x = k then v else f x) xs)"
  using assms
proof (induction xs)
  case Nil
  then show ?case by simp
next
  case (Cons x xs)
  then show ?case by (auto simp: image_iff split: if_splits)
qed

lemma varchar_cast_length: "varchar_cast n v = Inr (Some s) \<Longrightarrow> length s \<le> n"
  by (auto simp: varchar_cast_def split: option.splits if_splits)

lemma varchar_cast_fits [simp]: "length s \<le> n \<Longrightarrow> varchar_cast n (Some s) = Inr (Some s)"
  by (simp add: varchar_cast_def)

lemma column_value_length: "column_value n j = Inr (Some s) \<Longrightarrow> length s \<le> n"
  by (auto simp: column_value_def split: sum.splits dest: varchar_cast_length)

lemma cast_col_Some:
  "cast_col n v a = Inr (Some s) \<Longrightarrow> (v = None \<and> a = Some s) \<or> length s \<le> n"
  by (auto simp: cast_col_def split: if_splits dest: varchar_cast_length)

lemma check_row_Inr [store_simps]:
  "check_row others u m = Inr (u', m') \<longleftrightarrow>
     u = Some u' \<and> m = Some m' \<and> (\<forall>r \<in> set others. username r \<noteq> u' \<and> email r \<noteq> m')"
  by (auto simp: check_row_def split: option.splits)

lemma check_row_ok:
  "\<forall>r \<in> set others. username r \<noteq> a \<and> email r \<noteq> b \<Longrightarrow> check_row others (Some a) (Some b) = Inr (a, b)"
  by (simp add: check_row_Inr)

lemma insert_row_Inl [store_simps]:
  "insert_row d un em t = (d', Inl e) \<Longrightarrow>
     rows d' = rows d \<and> db_up d' = db_up d \<and> next_id d \<le> next_id d'"
  by (auto simp: insert_row_def Let_def split: if_splits sum.splits prod.splits)

lemma insert_row_seq: "next_id (fst (insert_row d un em t)) \<le> max (next_id d) (Suc seq_max)"
  by (auto simp: insert_row_def Let_def split: if_splits sum.splits prod.splits)

text \<open>A value the cast rejects fails the statement before it runs: nothing changes,
  the sequence included.\<close>

lemma insert_row_cast_error:
  "db_up d \<Longrightarrow> adapt_varchar un = Inr a \<Longrightarrow> adapt_varchar em = Inr b \<Longrightarrow>
     varchar_cast 80 a = Inl e \<Longrightarrow> insert_row d un em t = (d, Inl e)"
  by (simp add: insert_row_def)

lemma insert_row_Inr [store_simps]:
  "insert_row d un em t = (d', Inr u) \<longleftrightarrow>
     db_up d \<and> column_value 80 un = Inr (Some (username u)) \<and> column_value 120 em = Inr (Some (email u))
     \<and> (\<forall>r \<in> set (rows d). username r \<noteq> username u \<and> email r \<noteq> email u)
     \<and> uid u = next_id d \<and> next_id d \<le> seq_max \<and> created_at u = t
     \<and> d' = d\<lparr>next_id := Suc (next_id d), rows := rows d @ [u]\<rparr>"
  (is "?l \<longleftrightarrow> ?r")
proof
  assume ?l
  then show ?r
    by (auto simp: insert_row_def column_value_def Let_def check_row_Inr
        split: if_splits sum.splits prod.splits)
next
  assume r: ?r
  then obtain a b where "adapt_varchar un = Inr a" "varchar_cast 80 a = Inr (Some (username u))"
    "adapt_varchar em = Inr b" "varchar_cast 120 b = Inr (Some (email u))"
    by (auto simp: column_value_def split: sum.splits)
  with r show ?l by (cases u) (simp add: insert_row_def Let_def check_row_ok)
qed

lemma update_row_Inr [store_simps]:
  "update_row d u un em = Inr (u', d') \<Longrightarrow>
     (un = None \<and> em = None \<and> u' = u \<and> d' = d)
     \<or> (db_up d \<and> (\<exists>a. assign_col (username u) un = Inr a \<and> cast_col 80 un a = Inr (Some (username u')))
        \<and> (\<exists>b. assign_col (email u) em = Inr b \<and> cast_col 120 em b = Inr (Some (email u')))
        \<and> (\<forall>r \<in> set (rows d). uid r \<noteq> uid u \<longrightarrow> username r \<noteq> username u' \<and> email r \<noteq> email u')
        \<and> u' = u\<lparr>username := username u', email := email u'\<rparr>
        \<and> d' = d\<lparr>rows := map (\<lambda>x. if uid x = uid u then u' else x) (rows d)\<rparr>)"
  by (auto simp: update_row_def Let_def check_row_Inr split: if_splits sum.splits prod.splits)

text \<open>A column the update does not assign keeps its value; an assigned one fits its
  column.\<close>

lemma update_col_length:
  "assign_col cur v = Inr a \<Longrightarrow> cast_col n v a = Inr (Some s) \<Longrightarrow> length cur \<le> n \<Longrightarrow> length s \<le> n"
  by (auto simp: assign_col_def dest: cast_col_Some)

lemma assign_cast_col:
  "assign_col cur v = Inr a \<Longrightarrow> cast_col n v a = Inr (Some s) \<Longrightarrow>
     (case v of None \<Rightarrow> s = cur | Some j \<Rightarrow> column_value n j = Inr (Some s))"
  by (auto simp: assign_col_def cast_col_def column_value_def split: option.splits)

lemma update_row_keeps:
  assumes "update_row d u un em = Inr (u', d')"
  shows "uid u' = uid u \<and> created_at u' = created_at u \<and> next_id d' = next_id d
         \<and> map uid (rows d') = map uid (rows d)"
  using update_row_Inr [OF assms]
proof (elim disjE conjE)
  assume "u' = u" "d' = d"
  then show ?thesis by simp
next
  assume u': "u' = u\<lparr>username := username u', email := email u'\<rparr>"
    and d': "d' = d\<lparr>rows := map (\<lambda>x. if uid x = uid u then u' else x) (rows d)\<rparr>"
  have "uid u' = uid u \<and> created_at u' = created_at u" by (subst u', simp)+
  with d' show ?thesis by (simp add: map_idI)
qed

lemma update_row_created_at:
  assumes "update_row d u un em = Inr (u', d')" and "distinct (map uid (rows d))" and "u \<in> set (rows d)"
  shows "map created_at (rows d') = map created_at (rows d)"
proof -
  have same: "x \<in> set (rows d) \<Longrightarrow> uid x = uid u \<Longrightarrow> x = u" for x
    using assms(2,3) by (metis distinct_map inj_onD)
  have cu: "created_at u' = created_at u" using update_row_keeps [OF assms(1)] by simp
  have eq: "created_at (if uid x = uid u then u' else x) = created_at x" if "x \<in> set (rows d)" for x
    using same [OF that] cu by (cases "uid x = uid u") auto
  have "map (\<lambda>x. created_at (if uid x = uid u then u' else x)) (rows d) = map created_at (rows d)"
    by (rule map_cong) (simp_all add: eq)
  with update_row_Inr [OF assms(1)] show ?thesis by auto
qed

lemma delete_row_Inr [store_simps]:
  "delete_row d u = Inr d' \<longleftrightarrow> db_up d \<and> d' = d\<lparr>rows := filter (\<lambda>r. uid r \<noteq> uid u) (rows d)\<rparr>"
  by (auto simp: delete_row_def)

lemma get_row_Some [store_simps]:
  "get_row d i = Inr (Some u) \<Longrightarrow> db_up d \<and> u \<in> set (rows d) \<and> uid u = i"
  by (auto simp: get_row_def find_Some_iff split: if_splits)

lemma get_row_None [store_simps]:
  "get_row d i = Inr None \<longleftrightarrow> db_up d \<and> i \<notin> uid ` set (rows d)"
  by (auto simp: get_row_def find_None_iff)

lemma find_uid: "distinct (map uid xs) \<Longrightarrow> u \<in> set xs \<Longrightarrow> find (\<lambda>r. uid r = uid u) xs = Some u"
  by (induction xs) (auto simp: image_iff)

subsection \<open>The table's integrity is kept\<close>

lemma insert_row_inv:
  assumes inv: "db_inv d"
  shows "db_inv (fst (insert_row d un em t))"
proof (cases "insert_row d un em t")
  case (Pair d' res)
  show ?thesis
  proof (cases res)
    case (Inl e)
    with Pair have "rows d' = rows d" "next_id d \<le> next_id d'"
      using insert_row_Inl by blast+
    moreover have "next_id d' \<le> Suc seq_max"
      using insert_row_seq [of d un em t] inv Pair by (simp add: db_inv_def)
    ultimately show ?thesis using inv Pair by (auto simp: db_inv_def list_all_iff)
  next
    case (Inr u)
    with Pair have ins: "db_up d \<and> length (username u) \<le> 80 \<and> length (email u) \<le> 120
        \<and> (\<forall>r \<in> set (rows d). username r \<noteq> username u \<and> email r \<noteq> email u)
        \<and> uid u = next_id d \<and> next_id d \<le> seq_max
        \<and> d' = d\<lparr>next_id := Suc (next_id d), rows := rows d @ [u]\<rparr>"
      using Pair Inr by (auto simp: insert_row_Inr dest: column_value_length)
    then have "uid u \<notin> uid ` set (rows d)" using inv by (auto simp: db_inv_def list_all_iff)
    with ins inv Pair show ?thesis by (auto simp: db_inv_def list_all_iff)
  qed
qed

lemma update_row_inv:
  assumes inv: "db_inv d" and mem: "u \<in> set (rows d)" and upd: "update_row d u un em = Inr (u', d')"
  shows "db_inv d'"
  using update_row_Inr [OF upd]
proof (elim disjE conjE exE)
  assume "d' = d"
  with inv show ?thesis by simp
next
  fix a b
  assume ca: "assign_col (username u) un = Inr a" "cast_col 80 un a = Inr (Some (username u'))"
    and cb: "assign_col (email u) em = Inr b" "cast_col 120 em b = Inr (Some (email u'))"
    and fr: "\<forall>r \<in> set (rows d). uid r \<noteq> uid u \<longrightarrow> username r \<noteq> username u' \<and> email r \<noteq> email u'"
    and u': "u' = u\<lparr>username := username u', email := email u'\<rparr>"
    and d': "d' = d\<lparr>rows := map (\<lambda>x. if uid x = uid u then u' else x) (rows d)\<rparr>"
  have "length (username u) \<le> 80" "length (email u) \<le> 120"
    using inv mem by (auto simp: db_inv_def list_all_iff)
  then have l: "length (username u') \<le> 80" "length (email u') \<le> 120"
    using update_col_length [OF ca] update_col_length [OF cb] by auto
  have iu: "uid u' = uid u" by (subst u') simp
  have ids: "map uid (rows d') = map uid (rows d)" using d' iu by (simp add: map_idI)
  have nm: "map username (rows d') = map (\<lambda>x. if uid x = uid u then username u' else username x) (rows d)"
    using d' by simp
  have em: "map email (rows d') = map (\<lambda>x. if uid x = uid u then email u' else email x) (rows d)"
    using d' by simp
  have "distinct (map (\<lambda>x. if uid x = uid u then username u' else username x) (rows d))"
    using inv fr by (intro distinct_map_replace) (auto simp: db_inv_def)
  moreover have "distinct (map (\<lambda>x. if uid x = uid u then email u' else email x) (rows d))"
    using inv fr by (intro distinct_map_replace) (auto simp: db_inv_def)
  moreover have "list_all (\<lambda>r. 0 < uid r \<and> uid r < next_id d' \<and> length (username r) \<le> 80
                     \<and> length (email r) \<le> 120) (rows d')"
    using inv d' iu l by (auto simp: db_inv_def list_all_iff)
  moreover have "next_id d' = next_id d" using d' by simp
  ultimately show ?thesis using inv ids nm em unfolding db_inv_def by simp
qed

lemma delete_row_inv: "db_inv d \<Longrightarrow> delete_row d u = Inr d' \<Longrightarrow> db_inv d'"
  by (auto simp: delete_row_Inr db_inv_def list_all_iff)

lemma insert_row_next_id: "next_id d \<le> next_id (fst (insert_row d un em t))"
  by (cases "insert_row d un em t") (auto simp: insert_row_def Let_def split: if_splits sum.splits prod.splits)

lemma insert_row_fresh:
  "db_inv d \<Longrightarrow> insert_row d un em t = (d', Inr u) \<Longrightarrow> \<forall>r \<in> set (rows d). uid r < uid u"
  by (auto simp: insert_row_Inr db_inv_def list_all_iff)

end
