(* ===== verification/Cache.thy ===== *)
theory Cache
  imports Prelude
begin

text \<open>
  The cache layer: the Redis server behind \<open>cache = redis.from_url(...)\<close>
  (app.py line 23), with the four commands app.py sends: \<open>GET\<close> (lines 80, 185,
  199), \<open>SETEX\<close> (lines 92, 203), \<open>DEL\<close> (lines 129, 154, 173) and \<open>PING\<close> (line 59).
  The state is a map from keys to a string value and an optional absolute expiry
  time in milliseconds, and whether the server answers; a call to a server that
  does not answer raises \<open>redis.ConnectionError\<close>. Redis expires a key lazily: the
  key counts as absent once the clock has passed its expiry time, whether or not it
  was removed yet, so every read goes through \<open>lookup_alive\<close>.
\<close>

record entry =
  val :: string
  expire_at :: "msec option"

record redis =
  kv :: "string \<Rightarrow> entry option"
  redis_up :: bool

datatype redis_error = ConnectionError | ResponseError

definition init_redis :: redis where
  "init_redis = \<lparr>kv = Map.empty, redis_up = True\<rparr>"

text \<open>Redis keeps a key while the time is at most its expiry time
  (\<open>keyIsExpired\<close>: expired when \<open>now > when\<close>).\<close>

definition alive :: "msec \<Rightarrow> entry \<Rightarrow> bool" where
  "alive now e = (case expire_at e of None \<Rightarrow> True | Some t \<Rightarrow> now \<le> t)"

definition lookup_alive :: "redis \<Rightarrow> msec \<Rightarrow> string \<Rightarrow> string option" where
  "lookup_alive r now k =
     (case kv r k of None \<Rightarrow> None | Some e \<Rightarrow> if alive now e then Some (val e) else None)"

definition r_get :: "redis \<Rightarrow> msec \<Rightarrow> string \<Rightarrow> redis_error + string option" where
  "r_get r now k = (if redis_up r then Inr (lookup_alive r now k) else Inl ConnectionError)"

text \<open>\<open>SETEX key seconds value\<close>: a non-positive time is refused with an error reply.\<close>

definition r_setex :: "redis \<Rightarrow> msec \<Rightarrow> string \<Rightarrow> int \<Rightarrow> string \<Rightarrow> redis_error + redis" where
  "r_setex r now k ttl v =
     (if \<not> redis_up r then Inl ConnectionError
      else if ttl \<le> 0 then Inl ResponseError
      else Inr (r\<lparr>kv := (kv r)(k \<mapsto> \<lparr>val = v, expire_at = Some (now + ttl * 1000)\<rparr>)\<rparr>))"

text \<open>\<open>DEL key\<close>: removing an absent key is not an error.\<close>

definition r_delete :: "redis \<Rightarrow> string \<Rightarrow> redis_error + redis" where
  "r_delete r k = (if redis_up r then Inr (r\<lparr>kv := (kv r)(k := None)\<rparr>) else Inl ConnectionError)"

definition r_ping :: "redis \<Rightarrow> redis_error + unit" where
  "r_ping r = (if redis_up r then Inr () else Inl ConnectionError)"

declare init_redis_def [eval_defs] r_get_def [eval_defs] r_setex_def [eval_defs]
  r_delete_def [eval_defs] r_ping_def [eval_defs] lookup_alive_def [eval_defs]
  alive_def [eval_defs]

subsection \<open>Characteristic lemmas\<close>

lemma r_get_Inr [cache_simps]: "r_get r now k = Inr v \<longleftrightarrow> redis_up r \<and> v = lookup_alive r now k"
  by (auto simp: r_get_def)

lemma r_setex_Inr [cache_simps]:
  "r_setex r now k ttl v = Inr r' \<longleftrightarrow>
     redis_up r \<and> 0 < ttl \<and> r' = r\<lparr>kv := (kv r)(k \<mapsto> \<lparr>val = v, expire_at = Some (now + ttl * 1000)\<rparr>)\<rparr>"
  by (auto simp: r_setex_def)

lemma r_delete_Inr [cache_simps]:
  "r_delete r k = Inr r' \<longleftrightarrow> redis_up r \<and> r' = r\<lparr>kv := (kv r)(k := None)\<rparr>"
  by (auto simp: r_delete_def)

lemma lookup_alive_setex_other [cache_simps]:
  "k' \<noteq> k \<Longrightarrow>
     lookup_alive (r\<lparr>kv := (kv r)(k \<mapsto> e)\<rparr>) t k' = lookup_alive r t k'"
  by (simp add: lookup_alive_def)

lemma lookup_alive_delete [cache_simps]:
  "lookup_alive (r\<lparr>kv := (kv r)(k := None)\<rparr>) t k' = (if k' = k then None else lookup_alive r t k')"
  by (simp add: lookup_alive_def)

lemma lookup_alive_setex_same [cache_simps]:
  "lookup_alive (r\<lparr>kv := (kv r)(k \<mapsto> \<lparr>val = v, expire_at = Some x\<rparr>)\<rparr>) t k
     = (if t \<le> x then Some v else None)"
  by (simp add: lookup_alive_def alive_def)

lemma lookup_alive_up [cache_simps]:
  "lookup_alive (r\<lparr>redis_up := b\<rparr>) t k = lookup_alive r t k"
  by (simp add: lookup_alive_def)

text \<open>A key alive at some time was alive at every earlier time: the clock moving
  forward only removes keys.\<close>

lemma lookup_alive_earlier:
  "lookup_alive r t' k = Some v \<Longrightarrow> t \<le> t' \<Longrightarrow> lookup_alive r t k = Some v"
  by (auto simp: lookup_alive_def alive_def split: option.splits if_splits)

end
