(* ===== verification/Datetime.thy ===== *)
theory Datetime
  imports Prelude
begin

text \<open>
  The \<open>datetime\<close> values app.py reads (\<open>datetime.utcnow()\<close>, lines 32, 67, 192 and 198)
  and prints (\<open>isoformat()\<close>, lines 39, 67 and 198), as microseconds since the epoch.
  \<open>isoformat\<close> is Python's \<open>datetime.isoformat\<close> on a naive datetime: the proleptic
  Gregorian date by the days-to-civil conversion, the time of day, and the
  microseconds only when they are not zero. The seven-day window of \<open>get_stats\<close>
  (\<open>timedelta(days=7)\<close>) is \<open>week_usec\<close>.
\<close>

definition usec_per_day :: int where
  "usec_per_day = 86400000000"

definition week_usec :: int where
  "week_usec = 7 * usec_per_day"

text \<open>Proleptic Gregorian date of a day number (days since 1970-01-01), by the
  era/year-of-era decomposition (a 400-year era has 146097 days); one step per
  definition, so that each intermediate value is computed before the next step.\<close>

definition civil_of_mp :: "int \<Rightarrow> int \<Rightarrow> int \<Rightarrow> int \<times> int \<times> int" where
  "civil_of_mp y doy mp =
     (let m = (if mp < 10 then mp + 3 else mp - 9)
      in (if m \<le> 2 then y + 1 else y, m, doy - (153 * mp + 2) div 5 + 1))"

definition civil_of_doy :: "int \<Rightarrow> int \<Rightarrow> int \<times> int \<times> int" where
  "civil_of_doy y doy = civil_of_mp y doy ((5 * doy + 2) div 153)"

definition civil_of_yoe :: "int \<Rightarrow> int \<Rightarrow> int \<Rightarrow> int \<times> int \<times> int" where
  "civil_of_yoe era doe yoe = civil_of_doy (yoe + era * 400) (doe - (365 * yoe + yoe div 4 - yoe div 100))"

definition civil_of_doe :: "int \<Rightarrow> int \<Rightarrow> int \<times> int \<times> int" where
  "civil_of_doe era doe =
     civil_of_yoe era doe ((doe - doe div 1460 + doe div 36524 - doe div 146096) div 365)"

definition civil_from_days :: "int \<Rightarrow> int \<times> int \<times> int" where
  "civil_from_days days = civil_of_doe ((days + 719468) div 146097) ((days + 719468) mod 146097)"

definition pad :: "nat \<Rightarrow> int \<Rightarrow> string" where
  "pad n x = (let s = show_nat (nat x) in replicate (n - length s) CHR ''0'' @ s)"

definition iso_date :: "int \<times> int \<times> int \<Rightarrow> string" where
  "iso_date ymd = (case ymd of (y, m, d) \<Rightarrow> pad 4 y @ ''-'' @ pad 2 m @ ''-'' @ pad 2 d)"

definition iso_time :: "int \<Rightarrow> string" where
  "iso_time r =
     pad 2 (r div 3600000000) @ '':'' @ pad 2 (r div 60000000 mod 60) @ '':''
     @ pad 2 (r div 1000000 mod 60)
     @ (if r mod 1000000 = 0 then [] else CHR ''.'' # pad 6 (r mod 1000000))"

definition isoformat :: "usec \<Rightarrow> string" where
  "isoformat t = iso_date (civil_from_days (t div usec_per_day)) @ ''T'' @ iso_time (t mod usec_per_day)"

lemmas isoformat_eval = isoformat_def iso_date_def iso_time_def pad_def usec_per_day_def
  civil_from_days_def civil_of_doe_def civil_of_yoe_def civil_of_doy_def civil_of_mp_def
  show_nat.simps digit_char_def char_of_eq_iff

lemma isoformat_epoch: "isoformat 0 = ''1970-01-01T00:00:00''"
  by (simp add: isoformat_eval)

lemma isoformat_example: "isoformat 1700000000123456 = ''2023-11-14T22:13:20.123456''"
  by (simp add: isoformat_eval)

end
