(* ===== verification/Json_Decode.thy ===== *)
theory Json_Decode
  imports Json
begin

text \<open>
  Laws of \<open>json_loads\<close> beyond the round trip: every value it returns has distinct
  keys in its objects (the decoder builds dicts), and its fuel never cuts a parse
  short, so the fuelled definition is the terminating recursive-descent scanner of
  Python's \<open>json\<close> module.
\<close>

subsection \<open>Decoded values are well formed\<close>

text \<open>\<open>json.loads\<close> builds each object as a dict, so every value it returns has
  distinct keys in all its objects.\<close>

lemma dict_set_keys: "fst ` set (dict_set d k v) = insert k (fst ` set d)"
proof (induction d)
  case (Cons p d)
  then show ?case by (cases p) (auto simp: insert_commute)
qed simp

lemma dict_set_distinct: "distinct (map fst d) \<Longrightarrow> distinct (map fst (dict_set d k v))"
  by (induction d) (auto simp: dict_set_keys)

lemma dict_set_values: "set (dict_set d k v) \<subseteq> insert (k, v) (set d)"
  by (induction d) (auto split: if_splits)

lemma foldl_dict_set_wf:
  "distinct (map fst d) \<Longrightarrow> list_all (\<lambda>kv. wf_json (snd kv)) d \<Longrightarrow> list_all (\<lambda>kv. wf_json (snd kv)) kvs \<Longrightarrow>
     wf_json (JObj (foldl (\<lambda>d (k, v). dict_set d k v) d kvs))"
proof (induction kvs arbitrary: d)
  case Nil
  then show ?case by simp
next
  case (Cons kv kvs)
  obtain k v where kv: "kv = (k, v)" by (cases kv)
  have "distinct (map fst (dict_set d k v))" using Cons.prems(1) by (rule dict_set_distinct)
  moreover have "list_all (\<lambda>kv. wf_json (snd kv)) (dict_set d k v)"
    using Cons.prems(2,3) dict_set_values [of d k v] kv by (fastforce simp: list_all_iff)
  ultimately show ?case using Cons.IH Cons.prems(3) kv by simp
qed

lemma dict_of_pairs_wf: "list_all (\<lambda>kv. wf_json (snd kv)) kvs \<Longrightarrow> wf_json (JObj (dict_of_pairs kvs))"
  unfolding dict_of_pairs_def by (rule foldl_dict_set_wf) simp_all

lemma parse_wf:
  "parse_value n s = Some (v, r) \<Longrightarrow> wf_json v"
  "parse_array n s = Some (vs, r) \<Longrightarrow> list_all wf_json vs"
  "parse_object n s = Some (kvs, r) \<Longrightarrow> list_all (\<lambda>kv. wf_json (snd kv)) kvs"
proof (induction n s and n s and n s arbitrary: v r and vs r and kvs r rule: parse_value_parse_array_parse_object.induct)
  case (2 f s)
  then show ?case
    by (auto simp: parse_int_def split: list.splits if_splits option.splits intro: dict_of_pairs_wf)
next
  case (4 f s)
  then show ?case by (fastforce split: option.splits list.splits if_splits)
next
  case (6 f s)
  then show ?case by (fastforce split: option.splits list.splits if_splits prod.splits)
qed simp_all

lemma json_loads_wf: "json_loads s = Some v \<Longrightarrow> wf_json v"
  by (auto simp: json_loads_def simp del: parse_value.simps split: option.splits if_splits dest: parse_wf(1))

subsection \<open>The fuel of json.loads is enough\<close>

text \<open>Every scanner consumes input, and a parse that succeeds with some fuel succeeds
  with the same result whenever the fuel is at least the number of characters it
  consumes.\<close>

lemma skip_ws_length: "length (skip_ws s) \<le> length s"
  by (simp add: skip_ws_def length_dropWhile_le)

lemma scan_str_length: "scan_str s = Some (k, r) \<Longrightarrow> length r < length s"
proof (induction s arbitrary: k rule: scan_str.induct)
  case (2 c cs)
  show ?case
  proof (cases "c = CHR 0x22 \<or> c = CHR 0x5C")
    case True
    then show ?thesis using 2
      by (cases cs) (fastforce split: if_splits option.splits simp: map_option_eq_Some apfst_def map_prod_def
          split: prod.splits)+
  next
    case False
    then show ?thesis using 2
      by (auto split: if_splits simp: map_option_eq_Some apfst_def map_prod_def split: prod.splits)
  qed
qed simp

lemma parse_int_length: "parse_int s = Some (v, r) \<Longrightarrow> length r < length s"
  by (auto simp: parse_int_def scan_digits_def Let_def split: list.splits if_splits)

lemma parse_length:
  "parse_value n s = Some (v, r) \<Longrightarrow> length r < length s"
  "parse_array n s = Some (vs, r) \<Longrightarrow> length r < length s"
  "parse_object n s = Some (kvs, r) \<Longrightarrow> length r < length s"
proof (induction n s and n s and n s arbitrary: v r and vs r and kvs r rule: parse_value_parse_array_parse_object.induct)
  case (2 f s v r)
  from "2.prems" obtain c cs where s: "s = c # cs" by (cases s) auto
  have ws: "length (skip_ws cs) < length s" using skip_ws_length [of cs] s by simp
  consider (q) "c = CHR 0x22" | (o) "c \<noteq> CHR 0x22" "c = CHR ''{''"
    | (a) "c \<noteq> CHR 0x22" "c \<noteq> CHR ''{''" "c = CHR ''[''"
    | (other) "c \<noteq> CHR 0x22" "c \<noteq> CHR ''{''" "c \<noteq> CHR ''[''" by blast
  then show ?case
  proof cases
    case q
    then show ?thesis using "2.prems" s scan_str_length by (fastforce simp: map_option_eq_Some)
  next
    case o
    then show ?thesis using "2.prems" "2.IH" s ws
      by (fastforce split: list.splits if_splits simp: map_option_eq_Some)
  next
    case a
    then show ?thesis using "2.prems" "2.IH" s ws
      by (fastforce split: list.splits if_splits simp: map_option_eq_Some)
  next
    case other
    then show ?thesis using "2.prems" s parse_int_length [of s v r] by (auto split: if_splits)
  qed
next
  case (4 f s vs r)
  obtain v0 r0 where pv: "parse_value f s = Some (v0, r0)"
    using "4.prems" by (auto split: option.splits)
  have l0: "length r0 < length s" using "4.IH"(1) [OF pv] .
  from "4.prems" pv obtain d r' where sk: "skip_ws r0 = d # r'"
    by (auto split: list.splits)
  have l1: "length r' < length s" using skip_ws_length [of r0] sk l0 by simp
  show ?case
  proof (cases "d = CHR '']''")
    case True
    with "4.prems" pv sk l1 show ?thesis by simp
  next
    case False
    with "4.prems" pv sk obtain vs' where pa: "parse_array f (skip_ws r') = Some (vs', r)"
      by (auto split: if_splits simp: map_option_eq_Some)
    have "length r < length (skip_ws r')" using "4.IH"(2) [OF pv refl sk False] pa "4.prems" pv sk False
      by (auto split: if_splits)
    with skip_ws_length [of r'] l1 show ?thesis by simp
  qed
next
  case (6 f s kvs r)
  from "6.prems" obtain cs where s: "s = CHR 0x22 # cs" by (auto split: list.splits if_splits)
  from "6.prems" s obtain k r1 where sc: "scan_str cs = Some (k, r1)" by (auto split: option.splits)
  from "6.prems" s sc obtain r2 where sk1: "skip_ws r1 = CHR '':'' # r2"
    by (auto split: list.splits if_splits)
  from "6.prems" s sc sk1 obtain v r3 where pv: "parse_value f (skip_ws r2) = Some (v, r3)"
    by (auto split: option.splits)
  from "6.prems" s sc sk1 pv obtain d r4 where sk2: "skip_ws r3 = d # r4"
    by (auto split: list.splits)
  have l1: "length r1 < length cs" using scan_str_length [OF sc] .
  have l3: "length r3 < length (skip_ws r2)" using "6.IH"(1) s sc sk1 pv by fastforce
  have l4: "length r4 < length s"
    using l1 l3 skip_ws_length [of r1] skip_ws_length [of r2] skip_ws_length [of r3] sk1 sk2 s by simp
  show ?case
  proof (cases "d = CHR ''}''")
    case True
    with "6.prems" s sc sk1 pv sk2 l4 show ?thesis by simp
  next
    case False
    with "6.prems" s sc sk1 pv sk2 obtain kvs' where po: "parse_object f (skip_ws r4) = Some (kvs', r)"
      by (auto split: if_splits simp: map_option_eq_Some)
    have "length r < length (skip_ws r4)"
      using "6.IH"(2) s sc sk1 pv sk2 False po "6.prems" by (fastforce split: if_splits)
    with skip_ws_length [of r4] l4 show ?thesis by simp
  qed
qed simp_all

lemma parse_fuel:
  "parse_value n s = Some (v, r) \<Longrightarrow> length s - length r \<le> m \<Longrightarrow> parse_value m s = Some (v, r)"
  "parse_array n s = Some (vs, r) \<Longrightarrow> length s - length r \<le> m \<Longrightarrow> parse_array m s = Some (vs, r)"
  "parse_object n s = Some (kvs, r) \<Longrightarrow> length s - length r \<le> m \<Longrightarrow> parse_object m s = Some (kvs, r)"
proof (induction n s and n s and n s arbitrary: v r m and vs r m and kvs r m
    rule: parse_value_parse_array_parse_object.induct)
  case (2 f s v r m)
  from "2.prems"(1) obtain c cs where s: "s = c # cs" by (cases s) auto
  from parse_length(1) [OF "2.prems"(1)] "2.prems"(2) obtain m' where m: "m = Suc m'" by (cases m) auto
  have ws: "length (skip_ws cs) < length s" using skip_ws_length [of cs] s by simp
  consider (q) "c = CHR 0x22" | (o) "c \<noteq> CHR 0x22" "c = CHR ''{''"
    | (a) "c \<noteq> CHR 0x22" "c \<noteq> CHR ''{''" "c = CHR ''[''"
    | (other) "c \<noteq> CHR 0x22" "c \<noteq> CHR ''{''" "c \<noteq> CHR ''[''" by blast
  then show ?case
  proof cases
    case q
    then show ?thesis using "2.prems"(1) s m by simp
  next
    case o
    show ?thesis
    proof (cases "skip_ws cs")
      case Nil
      then show ?thesis using "2.prems"(1) s o by simp
    next
      case (Cons d r0)
      show ?thesis
      proof (cases "d = CHR ''}''")
        case True
        then show ?thesis using "2.prems"(1) s o m Cons by simp
      next
        case False
        with "2.prems"(1) s o Cons obtain kvs where po: "parse_object f (d # r0) = Some (kvs, r)"
          and v: "v = JObj (dict_of_pairs kvs)" by (auto simp: map_option_eq_Some)
        have "parse_object m' (d # r0) = Some (kvs, r)"
          using "2.IH"(1) [OF s o(1) o(2) Cons False po] "2.prems"(2) ws Cons m by simp
        then show ?thesis using s o m Cons False v by simp
      qed
    qed
  next
    case a
    show ?thesis
    proof (cases "skip_ws cs")
      case Nil
      then show ?thesis using "2.prems"(1) s a by simp
    next
      case (Cons d r0)
      show ?thesis
      proof (cases "d = CHR '']''")
        case True
        then show ?thesis using "2.prems"(1) s a m Cons by simp
      next
        case False
        with "2.prems"(1) s a Cons obtain vs where pa: "parse_array f (d # r0) = Some (vs, r)"
          and v: "v = JArr vs" by (auto simp: map_option_eq_Some)
        have "parse_array m' (d # r0) = Some (vs, r)"
          using "2.IH"(2) [OF s a(1) a(2) a(3) Cons False pa] "2.prems"(2) ws Cons m by simp
        then show ?thesis using s a m Cons False v by simp
      qed
    qed
  next
    case other
    then show ?thesis using "2.prems"(1) s m by simp
  qed
next
  case (4 f s vs r m)
  obtain v0 r0 where pv: "parse_value f s = Some (v0, r0)"
    using "4.prems"(1) by (auto split: option.splits)
  from "4.prems"(1) pv obtain d r' where sk: "skip_ws r0 = d # r'"
    by (auto split: list.splits)
  have l0: "length r0 < length s" using parse_length(1) [OF pv] .
  have lr': "length r' < length r0" using skip_ws_length [of r0] sk by simp
  show ?case
  proof (cases "d = CHR '']''")
    case True
    with "4.prems"(1) pv sk have r: "r = r'" and vs: "vs = [v0]" by auto
    from "4.prems"(2) r lr' l0 obtain m' where m: "m = Suc m'" and "length s - length r0 \<le> m'"
      by (cases m) auto
    with "4.IH"(1) [OF pv] have "parse_value m' s = Some (v0, r0)" by blast
    then show ?thesis using m sk True r vs by simp
  next
    case False
    with "4.prems"(1) pv sk have d: "d = CHR '',''" by (auto split: if_splits)
    with "4.prems"(1) pv sk False obtain vs' where pa: "parse_array f (skip_ws r') = Some (vs', r)"
      and vs: "vs = v0 # vs'" by (auto simp: map_option_eq_Some)
    have lr: "length r < length (skip_ws r')" using parse_length(2) [OF pa] .
    from "4.prems"(2) lr skip_ws_length [of r'] lr' l0 obtain m' where m: "m = Suc m'"
      and f1: "length s - length r0 \<le> m'" and f2: "length (skip_ws r') - length r \<le> m'"
      by (cases m) auto
    have "parse_value m' s = Some (v0, r0)" using "4.IH"(1) [OF pv f1] .
    moreover have "parse_array m' (skip_ws r') = Some (vs', r)"
      using "4.IH"(2) [OF pv refl sk False d pa f2] .
    ultimately show ?thesis using m sk False d vs by simp
  qed
next
  case (6 f s kvs r m)
  from "6.prems"(1) obtain cs where s: "s = CHR 0x22 # cs" by (auto split: list.splits if_splits)
  from "6.prems"(1) s obtain k r1 where sc: "scan_str cs = Some (k, r1)" by (auto split: option.splits)
  from "6.prems"(1) s sc obtain r2 where sk1: "skip_ws r1 = CHR '':'' # r2"
    by (auto split: list.splits if_splits)
  from "6.prems"(1) s sc sk1 obtain v r3 where pv: "parse_value f (skip_ws r2) = Some (v, r3)"
    by (auto split: option.splits)
  from "6.prems"(1) s sc sk1 pv obtain d r4 where sk2: "skip_ws r3 = d # r4"
    by (auto split: list.splits)
  have l1: "length r1 < length cs" using scan_str_length [OF sc] .
  have l3: "length r3 < length (skip_ws r2)" using parse_length(1) [OF pv] .
  have w1: "length (skip_ws r2) < length s"
    using l1 skip_ws_length [of r1] skip_ws_length [of r2] sk1 s by simp
  have w3: "length r4 < length r3" using skip_ws_length [of r3] sk2 by simp
  show ?case
  proof (cases "d = CHR ''}''")
    case True
    with "6.prems"(1) s sc sk1 pv sk2 have r: "r = r4" and kvs: "kvs = [(k, v)]" by auto
    from "6.prems"(2) r w1 l3 w3 obtain m' where m: "m = Suc m'"
      and f1: "length (skip_ws r2) - length r3 \<le> m'" by (cases m) auto
    have "parse_value m' (skip_ws r2) = Some (v, r3)" using "6.IH"(1) [OF s _ sc refl sk1 _ pv f1] by simp
    then show ?thesis using m s sc sk1 sk2 True r kvs by simp
  next
    case False
    with "6.prems"(1) s sc sk1 pv sk2 have d: "d = CHR '',''" by (auto split: if_splits)
    with "6.prems"(1) s sc sk1 pv sk2 False obtain kvs' where po: "parse_object f (skip_ws r4) = Some (kvs', r)"
      and kvs: "kvs = (k, v) # kvs'" by (auto simp: map_option_eq_Some)
    have lr: "length r < length (skip_ws r4)" using parse_length(3) [OF po] .
    from "6.prems"(2) lr skip_ws_length [of r4] w1 l3 w3 obtain m' where m: "m = Suc m'"
      and f1: "length (skip_ws r2) - length r3 \<le> m'" and f2: "length (skip_ws r4) - length r \<le> m'"
      by (cases m) auto
    have "parse_value m' (skip_ws r2) = Some (v, r3)" using "6.IH"(1) [OF s _ sc refl sk1 _ pv f1] by simp
    moreover have "parse_object m' (skip_ws r4) = Some (kvs', r)"
      using "6.IH"(2) [OF s _ sc refl sk1 _ pv refl sk2 False d po f2] by simp
    ultimately show ?thesis using m s sc sk1 sk2 False d kvs by simp
  qed
qed simp_all

lemma parse_value_fuel_Some:
  assumes p: "parse_value n s = Some (v, r)" and m: "length s < m"
  shows "parse_value m s = Some (v, r)"
proof -
  have "length s - length r \<le> m" using m by simp
  then show ?thesis by (rule parse_fuel(1) [OF p])
qed

lemma parse_value_fuel_eq:
  assumes n: "length s < n" and n': "length s < n'"
  shows "parse_value n s = parse_value n' s"
proof (cases "parse_value n s")
  case None
  show ?thesis
  proof (cases "parse_value n' s")
    case (Some x)
    then obtain v r where "parse_value n' s = Some (v, r)" by (cases x) auto
    from parse_value_fuel_Some [OF this n] None show ?thesis by simp
  qed (simp add: None)
next
  case (Some x)
  then obtain v r where p: "parse_value n s = Some (v, r)" by (cases x) auto
  from parse_value_fuel_Some [OF p n'] p show ?thesis by simp
qed

text \<open>\<open>json.loads\<close> terminates on every input and its fuel never cuts a parse
  short: the fuel \<open>length s + 1\<close> of \<open>json_loads\<close> gives the same answer as any
  larger fuel, so \<open>json_loads\<close> is the result of the unbounded recursive-descent
  scanner (each nested array or object costs one unit per character it consumes).\<close>

lemma json_loads_fuel_enough:
  assumes "Suc (length s) \<le> n"
  shows "json_loads s =
           (case parse_value n (skip_ws s) of
              None \<Rightarrow> None
            | Some (v, r) \<Rightarrow> if skip_ws r = [] then Some v else None)"
proof -
  have "length (skip_ws s) < Suc (length s)" using skip_ws_length [of s] by simp
  moreover have "length (skip_ws s) < n" using skip_ws_length [of s] assms by simp
  ultimately have "parse_value (Suc (length s)) (skip_ws s) = parse_value n (skip_ws s)"
    by (rule parse_value_fuel_eq)
  then show ?thesis by (simp add: json_loads_def)
qed

end
