(* ===== verification/Handlers.thy ===== *)
theory Handlers
  imports Store Cache Datetime Json_Decode
begin

text \<open>
  The request handlers of app.py (lines 47-217) over the state of the whole service:
  the entity store, the Redis cache and the clock that \<open>datetime.utcnow()\<close> reads.
  Each handler is a function from the state and the request's arguments to the new
  state and the response (status code and JSON body); every \<open>try\<close>/\<open>except\<close> of the
  source is a case split on an error value, and an exception caught by
  \<open>except Exception as e\<close> becomes \<open>{'error': str(e)}\<close> with the handler's status
  code. \<open>db.session.rollback()\<close> in those branches undoes the uncommitted work, which
  the model never applied. A request runs at one instant of the clock.
\<close>

record world =
  database :: db
  cache :: redis
  clock :: usec

record response =
  status :: nat
  body :: json

text \<open>The exceptions the handlers catch, and their \<open>str(e)\<close>. The texts of the
  driver's exceptions depend on the server's reply and are fixed strings here.\<close>

datatype exc =
    DbError db_error
  | RedisError redis_error
  | HttpNotFound
  | HttpBadRequest
  | HttpUnsupportedMediaType
  | AttributeError
  | TypeError
  | JSONDecodeError

fun exc_msg :: "exc \<Rightarrow> string" where
  "exc_msg (DbError OperationalError) = ''(psycopg2.OperationalError) could not connect to server''"
| "exc_msg (DbError IntegrityError) = ''(psycopg2.errors.IntegrityError) constraint violation''"
| "exc_msg (DbError DataError) = ''(psycopg2.errors.StringDataRightTruncation) value too long''"
| "exc_msg (DbError ProgrammingError) = ''(psycopg2.ProgrammingError) can't adapt type''"
| "exc_msg (RedisError ConnectionError) = ''Error connecting to redis:6379. Connection refused.''"
| "exc_msg (RedisError ResponseError) = ''invalid expire time in setex command''"
| "exc_msg HttpNotFound = ''404 Not Found: The requested URL was not found on the server. ''
     @ ''If you entered the URL manually please check your spelling and try again.''"
| "exc_msg HttpBadRequest = ''400 Bad Request: The browser (or proxy) sent a request that ''
     @ ''this server could not understand.''"
| "exc_msg HttpUnsupportedMediaType = ''415 Unsupported Media Type: Did not attempt to load JSON ''
     @ ''data because the request Content-Type was not 'application/json'.''"
| "exc_msg AttributeError = ''object has no attribute get''"
| "exc_msg TypeError = ''argument of type is not iterable''"
| "exc_msg JSONDecodeError = ''Expecting value: line 1 column 1 (char 0)''"

definition err :: "nat \<Rightarrow> exc \<Rightarrow> response" where
  "err c e = \<lparr>status = c, body = JObj [(''error'', JStr (exc_msg e))]\<rparr>"

definition ok :: "nat \<Rightarrow> json \<Rightarrow> response" where
  "ok c j = \<lparr>status = c, body = j\<rparr>"

text \<open>\<open>User.to_dict\<close> (lines 34-40).\<close>

definition to_dict :: "user \<Rightarrow> json" where
  "to_dict u = JObj [(''id'', JInt (int (uid u))), (''username'', JStr (username u)),
                     (''email'', JStr (email u)), (''created_at'', JStr (isoformat (created_at u)))]"

definition users_json :: "user list \<Rightarrow> json" where
  "users_json us = JArr (map to_dict us)"

definition now_ms :: "world \<Rightarrow> msec" where
  "now_ms w = clock w div 1000"

text \<open>\<open>if cached:\<close> on the reply of \<open>GET\<close>: \<open>None\<close> and the empty string are false.\<close>

definition cache_hit :: "string option \<Rightarrow> bool" where
  "cache_hit v = (case v of None \<Rightarrow> False | Some s \<Rightarrow> s \<noteq> [])"

text \<open>\<open>data.get(k)\<close> on a dict: \<open>None\<close> when the key is missing.\<close>

definition py_get :: "(string \<times> json) list \<Rightarrow> string \<Rightarrow> json" where
  "py_get kvs k = (case dict_get kvs k of None \<Rightarrow> JNull | Some v \<Rightarrow> v)"

subsection \<open>Health check (lines 47-72)\<close>

definition probe :: "('e \<Rightarrow> exc) \<Rightarrow> 'e + unit \<Rightarrow> string" where
  "probe f r = (case r of Inr _ \<Rightarrow> ''healthy'' | Inl e \<Rightarrow> ''unhealthy: '' @ exc_msg (f e))"

definition health_check :: "world \<Rightarrow> world \<times> response" where
  "health_check w =
     (let db_status = probe DbError (select_one (database w));
          redis_status = probe RedisError (r_ping (cache w))
      in (w, ok 200 (JObj
            [(''status'', JStr (if db_status = ''healthy'' \<and> redis_status = ''healthy''
                                then ''healthy'' else ''degraded'')),
             (''service'', JStr ''backend''),
             (''timestamp'', JStr (isoformat (clock w))),
             (''checks'', JObj [(''database'', JStr db_status), (''redis'', JStr redis_status)])])))"

subsection \<open>Listing users through the cache (lines 75-99)\<close>

definition get_users :: "world \<Rightarrow> world \<times> response" where
  "get_users w =
     (case r_get (cache w) (now_ms w) ''users:all'' of
        Inl e \<Rightarrow> (w, err 500 (RedisError e))
      | Inr cached \<Rightarrow>
          if cache_hit cached then
            (case json_loads (the cached) of
               None \<Rightarrow> (w, err 500 JSONDecodeError)
             | Some v \<Rightarrow> (w, ok 200 (JObj [(''users'', v), (''from_cache'', JBool True)])))
          else
            (case all_rows (database w) of
               Inl e \<Rightarrow> (w, err 500 (DbError e))
             | Inr us \<Rightarrow>
                 (case r_setex (cache w) (now_ms w) ''users:all'' 300 (json_dumps (users_json us)) of
                    Inl e \<Rightarrow> (w, err 500 (RedisError e))
                  | Inr c' \<Rightarrow>
                      (w\<lparr>cache := c'\<rparr>,
                       ok 200 (JObj [(''users'', users_json us), (''from_cache'', JBool False)])))))"

subsection \<open>One user (lines 101-108)\<close>

definition get_user :: "world \<Rightarrow> nat \<Rightarrow> world \<times> response" where
  "get_user w i =
     (case get_row (database w) i of
        Inl e \<Rightarrow> (w, err 404 (DbError e))
      | Inr None \<Rightarrow> (w, err 404 HttpNotFound)
      | Inr (Some u) \<Rightarrow> (w, ok 200 (to_dict u)))"

subsection \<open>Writes (lines 110-178)\<close>

text \<open>The end of every write: \<open>cache.delete('users:all')\<close> after the commit, then the
  success response; a failing \<open>DEL\<close> is caught after the commit, so the new rows stay
  and the response is 500.\<close>

definition invalidate_then :: "world \<Rightarrow> db \<Rightarrow> response \<Rightarrow> world \<times> response" where
  "invalidate_then w d' resp =
     (case r_delete (cache w) ''users:all'' of
        Inl e \<Rightarrow> (w\<lparr>database := d'\<rparr>, err 500 (RedisError e))
      | Inr c' \<Rightarrow> (w\<lparr>database := d', cache := c'\<rparr>, resp))"

definition create_user :: "world \<Rightarrow> exc + json \<Rightarrow> world \<times> response" where
  "create_user w data =
     (case data of
        Inl e \<Rightarrow> (w, err 500 e)
      | Inr (JObj kvs) \<Rightarrow>
          if \<not> py_truthy (py_get kvs ''username'') \<or> \<not> py_truthy (py_get kvs ''email'') then
            (w, ok 400 (JObj [(''error'', JStr ''Username and email are required'')]))
          else
            (case insert_row (database w) (py_get kvs ''username'') (py_get kvs ''email'') (clock w) of
               (d', Inl e) \<Rightarrow> (w\<lparr>database := d'\<rparr>, err 500 (DbError e))
             | (d', Inr u) \<Rightarrow>
                 invalidate_then w d'
                   (ok 201 (JObj [(''message'', JStr ''User created successfully''), (''user'', to_dict u)])))
      | Inr _ \<Rightarrow> (w, err 500 AttributeError))"

text \<open>\<open>if 'username' in data: user.username = data['username']\<close> and the same for
  \<open>email\<close> (lines 146-149), on whatever JSON value the body holds: a dict assigns the
  keys it has; \<open>in\<close> on a list tests its elements and on a string its substrings, and
  subscripting either with a string raises \<open>TypeError\<close>; \<open>in\<close> on \<open>None\<close>, a bool or a
  number raises \<open>TypeError\<close>.\<close>

fun update_fields :: "json \<Rightarrow> exc + json option \<times> json option" where
  "update_fields (JObj kvs) = Inr (dict_get kvs ''username'', dict_get kvs ''email'')"
| "update_fields (JArr xs) =
     (if JStr ''username'' \<in> set xs \<or> JStr ''email'' \<in> set xs then Inl TypeError else Inr (None, None))"
| "update_fields (JStr s) =
     (if contains ''username'' s \<or> contains ''email'' s then Inl TypeError else Inr (None, None))"
| "update_fields _ = Inl TypeError"

definition update_user :: "world \<Rightarrow> nat \<Rightarrow> exc + json \<Rightarrow> world \<times> response" where
  "update_user w i data =
     (case get_row (database w) i of
        Inl e \<Rightarrow> (w, err 500 (DbError e))
      | Inr None \<Rightarrow> (w, err 500 HttpNotFound)
      | Inr (Some u) \<Rightarrow>
          (case data of
             Inl e \<Rightarrow> (w, err 500 e)
           | Inr j \<Rightarrow>
               (case update_fields j of
                  Inl e \<Rightarrow> (w, err 500 e)
                | Inr (un, em) \<Rightarrow>
                    (case update_row (database w) u un em of
                       Inl e \<Rightarrow> (w, err 500 (DbError e))
                     | Inr (u', d') \<Rightarrow>
                         invalidate_then w d'
                           (ok 200 (JObj [(''message'', JStr ''User updated successfully''),
                                          (''user'', to_dict u')]))))))"

definition delete_user :: "world \<Rightarrow> nat \<Rightarrow> world \<times> response" where
  "delete_user w i =
     (case get_row (database w) i of
        Inl e \<Rightarrow> (w, err 500 (DbError e))
      | Inr None \<Rightarrow> (w, err 500 HttpNotFound)
      | Inr (Some u) \<Rightarrow>
          (case delete_row (database w) u of
             Inl e \<Rightarrow> (w, err 500 (DbError e))
           | Inr d' \<Rightarrow> invalidate_then w d' (ok 200 (JObj [(''message'', JStr ''User deleted successfully'')]))))"

subsection \<open>Statistics through the cache (lines 180-207)\<close>

definition stats_of :: "world \<Rightarrow> nat \<Rightarrow> nat \<Rightarrow> string option \<Rightarrow> json" where
  "stats_of w tot rec hits =
     JObj [(''total_users'', JInt (int tot)), (''recent_users'', JInt (int rec)),
           (''timestamp'', JStr (isoformat (clock w))),
           (''cache_hits'', (if cache_hit hits then JStr (the hits) else JInt 0))]"

definition get_stats :: "world \<Rightarrow> world \<times> response" where
  "get_stats w =
     (case r_get (cache w) (now_ms w) ''stats'' of
        Inl e \<Rightarrow> (w, err 500 (RedisError e))
      | Inr cached \<Rightarrow>
          if cache_hit cached then
            (case json_loads (the cached) of
               None \<Rightarrow> (w, err 500 JSONDecodeError)
             | Some v \<Rightarrow> (w, ok 200 v))
          else
            (case count_rows (database w) of
               Inl e \<Rightarrow> (w, err 500 (DbError e))
             | Inr tot \<Rightarrow>
                 (case count_since (database w) (clock w - week_usec) of
                    Inl e \<Rightarrow> (w, err 500 (DbError e))
                  | Inr rec \<Rightarrow>
                      (case r_get (cache w) (now_ms w) ''cache:hits'' of
                         Inl e \<Rightarrow> (w, err 500 (RedisError e))
                       | Inr hits \<Rightarrow>
                           (case r_setex (cache w) (now_ms w) ''stats'' 60
                                   (json_dumps (stats_of w tot rec hits)) of
                              Inl e \<Rightarrow> (w, err 500 (RedisError e))
                            | Inr c' \<Rightarrow> (w\<lparr>cache := c'\<rparr>, ok 200 (stats_of w tot rec hits)))))))"

subsection \<open>Dispatch to the views (lines 47-217)\<close>

text \<open>The views Flask dispatches to, with their arguments: the \<open><int:user_id>\<close> of the
  URL, and for the two views that call \<open>request.get_json()\<close> its outcome, the decoded
  value or the exception it raises. \<open>Unrouted\<close> is a URL no rule matches, answered by
  the 404 handler (lines 210-212). Theory \<open>Http\<close> computes the request from the method,
  path, content type and body.\<close>

datatype request =
    Health
  | ListUsers
  | GetUser nat
  | CreateUser "exc + json"
  | UpdateUser nat "exc + json"
  | DeleteUser nat
  | Stats
  | Unrouted

definition not_found :: "world \<Rightarrow> world \<times> response" where
  "not_found w = (w, ok 404 (JObj [(''error'', JStr ''Not found'')]))"

text \<open>The 500 handler (lines 214-217): Flask calls it for an exception no view catches.
  \<open>db.session.rollback()\<close> undoes nothing the model applied.\<close>

definition internal_error :: "world \<Rightarrow> world \<times> response" where
  "internal_error w = (w, ok 500 (JObj [(''error'', JStr ''Internal server error'')]))"

fun handle :: "world \<Rightarrow> request \<Rightarrow> world \<times> response" where
  "handle w Health = health_check w"
| "handle w ListUsers = get_users w"
| "handle w (GetUser i) = get_user w i"
| "handle w (CreateUser b) = create_user w b"
| "handle w (UpdateUser i b) = update_user w i b"
| "handle w (DeleteUser i) = delete_user w i"
| "handle w Stats = get_stats w"
| "handle w Unrouted = not_found w"

definition init_world :: "usec \<Rightarrow> world" where
  "init_world t = \<lparr>database = init_db, cache = init_redis, clock = t\<rparr>"

fun is_write :: "request \<Rightarrow> bool" where
  "is_write (CreateUser _) = True"
| "is_write (UpdateUser _ _) = True"
| "is_write (DeleteUser _) = True"
| "is_write _ = False"

subsection \<open>Effects of a write on the cache\<close>

text \<open>What a write handler can do to the state: fail and change neither the rows nor
  the cache (the sequence may have advanced), succeed and delete \<open>users:all\<close>, or
  commit and then fail on the \<open>DEL\<close> because Redis does not answer.\<close>

definition write_effect :: "world \<Rightarrow> world \<Rightarrow> response \<Rightarrow> bool" where
  "write_effect w w' resp \<longleftrightarrow> clock w' = clock w \<and>
     ((cache w' = cache w \<and> rows (database w') = rows (database w) \<and> 300 \<le> status resp)
      \<or> (redis_up (cache w) \<and> cache w' = (cache w)\<lparr>kv := (kv (cache w))(''users:all'' := None)\<rparr>
         \<and> status resp < 300)
      \<or> (\<not> redis_up (cache w) \<and> cache w' = cache w \<and> resp = err 500 (RedisError ConnectionError)))"

text \<open>The integrity of the service's state: the table's, and no row created in the
  future of the clock.\<close>

definition wf_world :: "world \<Rightarrow> bool" where
  "wf_world w \<longleftrightarrow> db_inv (database w) \<and> list_all (\<lambda>r. created_at r \<le> clock w) (rows (database w))"

subsection \<open>Sample inputs\<close>

text \<open>A state with one user row and an empty cache, and a request body for a second
  user, at which the properties below are instantiated.\<close>

definition demo_user :: user where
  "demo_user = \<lparr>uid = 1, username = ''al'', email = ''al@example.org'', created_at = 0\<rparr>"

definition demo_world :: world where
  "demo_world = \<lparr>database = \<lparr>rows = [demo_user], next_id = 2, db_up = True\<rparr>, cache = init_redis, clock = 0\<rparr>"

definition demo_kvs :: "(string \<times> json) list" where
  "demo_kvs = [(''username'', JStr ''bo''), (''email'', JStr ''bo@example.org'')]"

definition demo_body :: "exc + json" where
  "demo_body = Inr (JObj demo_kvs)"


declare init_world_def [eval_defs] get_users_def [eval_defs] get_user_def [eval_defs]
  create_user_def [eval_defs] update_user_def [eval_defs] delete_user_def [eval_defs]
  get_stats_def [eval_defs] health_check_def [eval_defs] invalidate_then_def [eval_defs]
  not_found_def [eval_defs] to_dict_def [eval_defs] users_json_def [eval_defs]
  now_ms_def [eval_defs] cache_hit_def [eval_defs] py_get_def [eval_defs]
  probe_def [eval_defs] stats_of_def [eval_defs] err_def [eval_defs] ok_def [eval_defs]
  wf_world_def [eval_defs]

lemmas demo_defs = demo_user_def demo_world_def demo_body_def demo_kvs_def

subsection \<open>Lemmas on the handlers\<close>

lemma err_simps [simp]: "status (err c e) = c" "body (err c e) = JObj [(''error'', JStr (exc_msg e))]"
  by (simp_all add: err_def)

lemma ok_simps [simp]: "status (ok c j) = c" "body (ok c j) = j"
  by (simp_all add: ok_def)

lemma invalidate_then_cases:
  "invalidate_then w d' resp = (w2, resp2) \<Longrightarrow>
     (redis_up (cache w) \<and> w2 = w\<lparr>database := d', cache := (cache w)\<lparr>kv := (kv (cache w))(''users:all'' := None)\<rparr>\<rparr>
        \<and> resp2 = resp)
     \<or> (\<not> redis_up (cache w) \<and> w2 = w\<lparr>database := d'\<rparr> \<and> resp2 = err 500 (RedisError ConnectionError))"
  by (auto simp: invalidate_then_def r_delete_def split: if_splits)

lemma invalidate_then_effect:
  "invalidate_then w d' (ok c j) = (w2, resp2) \<Longrightarrow> c < 300 \<Longrightarrow> write_effect w w2 resp2"
  by (auto simp: write_effect_def dest!: invalidate_then_cases)

lemma create_user_effect: "create_user w b = (w', resp) \<Longrightarrow> write_effect w w' resp"
  by (auto simp: create_user_def write_effect_def
      split: option.splits json.splits if_splits prod.splits sum.splits
      dest: insert_row_Inl invalidate_then_effect)

lemma update_user_effect: "update_user w i b = (w', resp) \<Longrightarrow> write_effect w w' resp"
  by (auto simp: update_user_def write_effect_def
      split: option.splits sum.splits prod.splits
      dest: invalidate_then_effect)

lemma delete_user_effect: "delete_user w i = (w', resp) \<Longrightarrow> write_effect w w' resp"
  by (auto simp: delete_user_def write_effect_def
      split: option.splits sum.splits
      dest: invalidate_then_effect)

lemma handle_write_effect: "is_write r \<Longrightarrow> handle w r = (w', resp) \<Longrightarrow> write_effect w w' resp"
  by (cases r) (auto intro: create_user_effect update_user_effect delete_user_effect)

text \<open>The reading handlers change the cache only by storing a fresh value, and never
  the table or the clock.\<close>

lemma get_users_effect:
  "get_users w = (w', resp) \<Longrightarrow>
     database w' = database w \<and> clock w' = clock w
     \<and> (cache w' = cache w
        \<or> r_setex (cache w) (now_ms w) ''users:all'' 300 (json_dumps (users_json (rows (database w))))
             = Inr (cache w'))"
  by (auto simp: get_users_def all_rows_def split: sum.splits if_splits option.splits)

lemma get_stats_effect:
  "get_stats w = (w', resp) \<Longrightarrow>
     database w' = database w \<and> clock w' = clock w
     \<and> (cache w' = cache w \<or> (\<exists>v. r_setex (cache w) (now_ms w) ''stats'' 60 v = Inr (cache w')))"
  by (auto simp: get_stats_def split: sum.splits if_splits option.splits)

lemma read_unchanged:
  "health_check w = (w', resp) \<Longrightarrow> w' = w" "get_user w i = (w', resp) \<Longrightarrow> w' = w"
  "not_found w = (w', resp) \<Longrightarrow> w' = w"
  by (auto simp: health_check_def Let_def get_user_def not_found_def split: sum.splits option.splits)

subsection \<open>The state's integrity is kept\<close>

lemma create_user_db:
  "create_user w b = (w', resp) \<Longrightarrow>
     database w' = database w \<or> (\<exists>un em. database w' = fst (insert_row (database w) un em (clock w)))"
  by (auto simp: create_user_def split: option.splits json.splits if_splits prod.splits sum.splits
      dest!: invalidate_then_cases) (metis fst_conv)+

lemma update_user_db:
  "update_user w i b = (w', resp) \<Longrightarrow>
     database w' = database w
     \<or> (\<exists>u un em u'. get_row (database w) i = Inr (Some u) \<and> update_row (database w) u un em = Inr (u', database w'))"
  by (auto simp: update_user_def split: option.splits sum.splits prod.splits dest!: invalidate_then_cases)

lemma delete_user_db:
  "delete_user w i = (w', resp) \<Longrightarrow>
     database w' = database w \<or> (\<exists>u. delete_row (database w) u = Inr (database w'))"
  by (auto simp: delete_user_def split: option.splits sum.splits dest!: invalidate_then_cases)

lemma handle_clock: "clock (fst (handle w r)) = clock w"
proof (cases "handle w r")
  case (Pair w' resp)
  show ?thesis
  proof (cases "is_write r")
    case True
    with Pair show ?thesis using handle_write_effect by (auto simp: write_effect_def)
  next
    case False
    with Pair show ?thesis
      by (cases r) (auto dest: read_unchanged get_users_effect get_stats_effect)
  qed
qed

lemma insert_row_created:
  "list_all (\<lambda>r. created_at r \<le> t) (rows d) \<Longrightarrow>
     list_all (\<lambda>r. created_at r \<le> t) (rows (fst (insert_row d un em t)))"
  by (cases "insert_row d un em t") (auto simp: insert_row_def Let_def split: if_splits sum.splits prod.splits)

lemma update_row_created:
  "list_all (\<lambda>r. created_at r \<le> t) (rows d) \<Longrightarrow> u \<in> set (rows d) \<Longrightarrow>
     update_row d u un em = Inr (u', d') \<Longrightarrow> list_all (\<lambda>r. created_at r \<le> t) (rows d')"
proof -
  assume all: "list_all (\<lambda>r. created_at r \<le> t) (rows d)" and u: "u \<in> set (rows d)"
    and upd: "update_row d u un em = Inr (u', d')"
  have "created_at u' \<le> t" using update_row_keeps [OF upd] all u by (simp add: list_all_iff)
  with update_row_Inr [OF upd] all show ?thesis by (auto simp: list_all_iff)
qed

lemma handle_wf_db:
  assumes wf: "wf_world w" and h: "handle w r = (w', resp)"
  shows "db_inv (database w') \<and> list_all (\<lambda>r. created_at r \<le> clock w) (rows (database w'))"
proof (cases r)
  case (CreateUser b)
  with h have "create_user w b = (w', resp)" by simp
  then show ?thesis using wf
    by (auto simp: wf_world_def dest!: create_user_db intro: insert_row_inv insert_row_created)
next
  case (UpdateUser i b)
  with h have "update_user w i b = (w', resp)" by simp
  then show ?thesis using wf
    by (auto simp: wf_world_def dest!: update_user_db get_row_Some
        intro: update_row_inv update_row_created)
next
  case (DeleteUser i)
  with h have "delete_user w i = (w', resp)" by simp
  then show ?thesis using wf
    by (auto simp: wf_world_def delete_row_Inr list_all_iff dest!: delete_user_db intro: delete_row_inv)
next
  case ListUsers
  with h wf show ?thesis by (auto simp: wf_world_def dest: get_users_effect)
next
  case Stats
  with h wf show ?thesis by (auto simp: wf_world_def dest: get_stats_effect)
qed (use h wf in \<open>auto simp: wf_world_def dest: read_unchanged\<close>)

lemma handle_wf: "wf_world w \<Longrightarrow> wf_world (fst (handle w r))"
  using handle_wf_db [of w r "fst (handle w r)" "snd (handle w r)"] handle_clock [of w r]
  by (simp add: wf_world_def)

subsection \<open>The cached reads\<close>

lemma users_json_wf: "wf_json (users_json us)"
  by (simp add: users_json_def to_dict_def list_all_iff)

lemma users_json_roundtrip [simp]: "json_loads (json_dumps (users_json us)) = Some (users_json us)"
  by (rule json_roundtrip [OF users_json_wf])

lemma get_users_miss:
  "get_users w = (w1, r1) \<Longrightarrow> body r1 = JObj [(''users'', v), (''from_cache'', JBool False)] \<Longrightarrow>
     v = users_json (rows (database w)) \<and> database w1 = database w \<and> clock w1 = clock w \<and> status r1 = 200
     \<and> db_up (database w)
     \<and> r_setex (cache w) (now_ms w) ''users:all'' 300 (json_dumps v) = Inr (cache w1)"
  by (auto simp: get_users_def all_rows_def split: sum.splits if_splits option.splits)

lemma json_dumps_nonempty: "json_dumps j \<noteq> []"
  using dumps_head [of j] by auto

lemma stats_of_roundtrip [simp]: "json_loads (json_dumps (stats_of w tot rec h)) = Some (stats_of w tot rec h)"
  by (rule json_roundtrip) (simp add: stats_of_def)

lemma get_stats_miss:
  "get_stats w = (w1, r1) \<Longrightarrow> lookup_alive (cache w) (now_ms w) ''stats'' = None \<Longrightarrow> status r1 = 200 \<Longrightarrow>
     \<exists>v. r1 = ok 200 v \<and> json_loads (json_dumps v) = Some v \<and> database w1 = database w \<and> clock w1 = clock w
       \<and> r_setex (cache w) (now_ms w) ''stats'' 60 (json_dumps v) = Inr (cache w1)"
  by (auto simp: get_stats_def r_get_def cache_hit_def split: sum.splits if_splits option.splits)

end
