(* ===== verification/Policy.thy ===== *)
theory Policy
  imports Handlers
begin

text \<open>
  The consistency policy of the service as a transition system. A state is a
  \<open>world\<close>; a step is one request served atomically by \<open>handle\<close>, the clock moving
  forward, or PostgreSQL or Redis going down or coming back. The flag \<open>f\<close> says
  whether Redis may go down (\<open>f = True\<close>) or stays reachable (\<open>f = False\<close>); the
  database may go down in both. \<open>reach f\<close> is the set of states of a run that starts
  from an empty table and an empty cache.
\<close>

inductive sys_step :: "bool \<Rightarrow> world \<Rightarrow> world \<Rightarrow> bool" for f :: bool where
  request: "sys_step f w (fst (handle w r))"
| tick: "0 \<le> d \<Longrightarrow> sys_step f w (w\<lparr>clock := clock w + d\<rparr>)"
| db_avail: "sys_step f w (w\<lparr>database := (database w)\<lparr>db_up := b\<rparr>\<rparr>)"
| redis_avail: "f \<or> b \<Longrightarrow> sys_step f w (w\<lparr>cache := (cache w)\<lparr>redis_up := b\<rparr>\<rparr>)"

inductive reach :: "bool \<Rightarrow> world \<Rightarrow> bool" for f :: bool where
  init: "reach f (init_world t)"
| step: "reach f w \<Longrightarrow> sys_step f w w' \<Longrightarrow> reach f w'"

text \<open>The abstract value of \<open>GET /api/users\<close>: the table's rows, as \<open>to_dict\<close> prints
  them. The list entry is coherent when, if alive, it holds exactly that value.\<close>

definition users_spec :: "world \<Rightarrow> json" where
  "users_spec w = users_json (rows (database w))"

definition users_coherent :: "world \<Rightarrow> bool" where
  "users_coherent w =
     (case lookup_alive (cache w) (now_ms w) ''users:all'' of
        None \<Rightarrow> True
      | Some s \<Rightarrow> s = json_dumps (users_spec w))"

text \<open>The statistics \<open>get_stats\<close> computes in a state \<open>w0\<close>, and the entry it stores
  for them: valid for 60 seconds from the time of \<open>w0\<close>.\<close>

definition stats_at :: "world \<Rightarrow> string option \<Rightarrow> json" where
  "stats_at w0 h =
     stats_of w0 (length (rows (database w0)))
       (length (filter (\<lambda>r. clock w0 - week_usec \<le> created_at r) (rows (database w0)))) h"

definition stats_entry :: "world \<Rightarrow> string option \<Rightarrow> entry" where
  "stats_entry w0 h = \<lparr>val = json_dumps (stats_at w0 h), expire_at = Some (now_ms w0 + 60000)\<rparr>"

text \<open>The \<open>stats\<close> entry of a state \<open>w\<close> of a run is absent or was stored at an
  earlier state \<open>w0\<close> of the same run.\<close>

definition stats_origin :: "bool \<Rightarrow> world \<Rightarrow> bool" where
  "stats_origin f w \<longleftrightarrow>
     kv (cache w) ''stats'' = None
     \<or> (\<exists>w0 h. reach f w0 \<and> (sys_step f)\<^sup>*\<^sup>* w0 w \<and> kv (cache w) ''stats'' = Some (stats_entry w0 h))"

text \<open>The database part of a run from \<open>w\<close> to \<open>w'\<close>: the sequence never goes back,
  and every row of \<open>w'\<close> was a row of \<open>w\<close> or got an id at or above the sequence
  of \<open>w\<close>.\<close>

definition ids_grow :: "db \<Rightarrow> db \<Rightarrow> bool" where
  "ids_grow d d' \<longleftrightarrow> next_id d \<le> next_id d'
     \<and> (\<forall>u \<in> set (rows d'). uid u \<in> uid ` set (rows d) \<or> next_id d \<le> uid u)"

text \<open>The entry \<open>get_users\<close> stores for rows \<open>us\<close> at a state \<open>w\<close>.\<close>

definition list_entry :: "world \<Rightarrow> user list \<Rightarrow> entry" where
  "list_entry w us = \<lparr>val = json_dumps (users_json us), expire_at = Some (now_ms w + 300000)\<rparr>"

text \<open>Every entry the service stores expires: \<open>users:all\<close> at most 300 seconds and
  \<open>stats\<close> at most 60 seconds after the current time.\<close>

definition ttl_bounded :: "world \<Rightarrow> bool" where
  "ttl_bounded w \<longleftrightarrow>
     (\<forall>e. kv (cache w) ''users:all'' = Some e \<longrightarrow> (\<exists>x. expire_at e = Some x \<and> x \<le> now_ms w + 300000))
     \<and> (\<forall>e. kv (cache w) ''stats'' = Some e \<longrightarrow> (\<exists>x. expire_at e = Some x \<and> x \<le> now_ms w + 60000))"

text \<open>Nothing writes \<open>cache:hits\<close>: the key is absent, and a cached \<open>stats\<close> reply
  was computed without a hit count.\<close>

definition hits_inert :: "world \<Rightarrow> bool" where
  "hits_inert w \<longleftrightarrow> kv (cache w) ''cache:hits'' = None
     \<and> (\<forall>e. kv (cache w) ''stats'' = Some e \<longrightarrow> (\<exists>w0. e = stats_entry w0 None))"

inductive_cases sys_step_cases: "sys_step f w w'"

subsection \<open>Single steps\<close>

lemma users_coherent_iff:
  "users_coherent w \<longleftrightarrow>
     lookup_alive (cache w) (now_ms w) ''users:all'' \<in> {None, Some (json_dumps (users_json (rows (database w))))}"
  by (simp add: users_coherent_def users_spec_def split: option.splits)

lemma now_ms_mono: "clock w \<le> clock w' \<Longrightarrow> now_ms w \<le> now_ms w'"
  by (simp add: now_ms_def zdiv_mono1)

lemma sys_step_clock: "sys_step f w w' \<Longrightarrow> clock w \<le> clock w'"
  by (induction rule: sys_step.induct) (simp_all add: handle_clock)

lemma star_clock: "(sys_step f)\<^sup>*\<^sup>* w w' \<Longrightarrow> clock w \<le> clock w'"
  by (induction rule: rtranclp_induct) (auto dest: sys_step_clock)

lemma sys_step_wf: "sys_step f w w' \<Longrightarrow> wf_world w \<Longrightarrow> wf_world w'"
proof (induction rule: sys_step.induct)
  case (request w r)
  then show ?case by (rule handle_wf)
next
  case (tick d w)
  then show ?case by (auto simp: wf_world_def list_all_iff)
qed (auto simp: wf_world_def db_inv_def)

lemma init_wf: "wf_world (init_world t)"
  by (simp add: wf_world_def init_world_def init_db_def db_inv_def)

lemma reach_wf: "reach f w \<Longrightarrow> wf_world w"
  by (induction rule: reach.induct) (auto intro: init_wf sys_step_wf)

text \<open>One request keeps the list entry coherent while Redis answers.\<close>

lemma handle_coherent:
  assumes up: "redis_up (cache w)" and coh: "users_coherent w" and h: "handle w r = (w', resp)"
  shows "redis_up (cache w') \<and> users_coherent w'"
proof (cases "is_write r")
  case True
  with h up have "write_effect w w' resp" by (blast intro: handle_write_effect)
  with up coh show ?thesis
    by (auto simp: write_effect_def users_coherent_iff now_ms_def lookup_alive_delete
        split: option.splits)
next
  case False
  then show ?thesis
  proof (cases r)
    case ListUsers
    with h have "get_users w = (w', resp)" by simp
    from get_users_effect [OF this] up coh show ?thesis
      by (auto simp: users_coherent_iff now_ms_def r_setex_Inr lookup_alive_setex_same)
  next
    case Stats
    with h have "get_stats w = (w', resp)" by simp
    from get_stats_effect [OF this] up coh show ?thesis
      by (auto simp: users_coherent_iff now_ms_def r_setex_Inr lookup_alive_setex_other)
  qed (use h up coh in \<open>auto dest: read_unchanged\<close>)
qed

lemma tick_coherent:
  assumes "users_coherent w" and "0 \<le> d"
  shows "users_coherent (w\<lparr>clock := clock w + d\<rparr>)"
proof -
  have "now_ms w \<le> now_ms (w\<lparr>clock := clock w + d\<rparr>)" using assms(2) by (intro now_ms_mono) simp
  then show ?thesis using assms(1)
    by (cases "lookup_alive (cache w) (now_ms (w\<lparr>clock := clock w + d\<rparr>)) ''users:all''")
       (auto simp: users_coherent_iff dest: lookup_alive_earlier)
qed

lemma sys_step_coherent:
  "sys_step False w w' \<Longrightarrow> redis_up (cache w) \<Longrightarrow> users_coherent w \<Longrightarrow>
     redis_up (cache w') \<and> users_coherent w'"
proof (induction rule: sys_step.induct)
  case (request w r)
  then show ?case using handle_coherent [of w r] by (metis prod.collapse)
next
  case (tick d w)
  then show ?case by (simp add: tick_coherent)
next
  case (db_avail w b)
  then show ?case by (simp add: users_coherent_iff now_ms_def)
next
  case (redis_avail b w)
  then show ?case by (simp add: users_coherent_iff now_ms_def lookup_alive_up)
qed

lemma init_coherent: "redis_up (cache (init_world t)) \<and> users_coherent (init_world t)"
  by (simp add: init_world_def init_redis_def users_coherent_def lookup_alive_def)

lemma handle_list_entry:
  assumes h: "handle w r = (w', resp)"
  shows "kv (cache w') ''users:all'' = kv (cache w) ''users:all'' \<or> kv (cache w') ''users:all'' = None
         \<or> kv (cache w') ''users:all'' = Some (list_entry w (rows (database w)))"
proof (cases "is_write r")
  case True
  with h show ?thesis by (auto simp: write_effect_def dest!: handle_write_effect)
next
  case False
  then show ?thesis
  proof (cases r)
    case ListUsers
    with h show ?thesis by (auto simp: r_setex_Inr list_entry_def dest!: get_users_effect)
  next
    case Stats
    with h show ?thesis by (auto simp: r_setex_Inr dest!: get_stats_effect)
  qed (use h in \<open>auto dest: read_unchanged\<close>)
qed

subsection \<open>Statistics entries\<close>

lemma stats_at_roundtrip [simp]: "json_loads (json_dumps (stats_at w h)) = Some (stats_at w h)"
  by (rule json_roundtrip) (simp add: stats_at_def stats_of_def)

lemma get_stats_store:
  "get_stats w = (w', resp) \<Longrightarrow>
     cache w' = cache w \<or> (\<exists>h. cache w' = (cache w)\<lparr>kv := (kv (cache w))(''stats'' \<mapsto> stats_entry w h)\<rparr>)"
  by (auto simp: get_stats_def stats_entry_def stats_at_def r_setex_def count_rows_def count_since_def
      split: sum.splits if_splits option.splits)

lemma handle_stats:
  assumes h: "handle w r = (w', resp)"
  shows "kv (cache w') ''stats'' = kv (cache w) ''stats'' \<or> (\<exists>h. kv (cache w') ''stats'' = Some (stats_entry w h))"
proof (cases "is_write r")
  case True
  with h show ?thesis by (auto simp: write_effect_def dest!: handle_write_effect)
next
  case False
  then show ?thesis
  proof (cases r)
    case ListUsers
    with h show ?thesis by (auto simp: r_setex_Inr dest!: get_users_effect)
  next
    case Stats
    with h show ?thesis by (auto dest!: get_stats_store)
  qed (use h in \<open>auto dest: read_unchanged\<close>)
qed

lemma sys_step_stats:
  "sys_step f w w' \<Longrightarrow>
     kv (cache w') ''stats'' = kv (cache w) ''stats'' \<or> (\<exists>h. kv (cache w') ''stats'' = Some (stats_entry w h))"
  by (induction rule: sys_step.induct) (simp_all add: handle_stats [OF prod.collapse [symmetric]])

lemma reach_stats_origin: "reach f w \<Longrightarrow> stats_origin f w"
proof (induction rule: reach.induct)
  case (init t)
  then show ?case by (simp add: stats_origin_def init_world_def init_redis_def)
next
  case (step w w')
  from sys_step_stats [OF step.hyps(2)] show ?case
  proof
    assume "kv (cache w') ''stats'' = kv (cache w) ''stats''"
    with step.IH step.hyps(2) show ?thesis
      by (auto simp: stats_origin_def intro: rtranclp.rtrancl_into_rtrancl)
  next
    assume "\<exists>h. kv (cache w') ''stats'' = Some (stats_entry w h)"
    with step.hyps show ?thesis by (auto simp: stats_origin_def)
  qed
qed

subsection \<open>The hit counter\<close>

lemma get_stats_store_hits:
  "get_stats w = (w', resp) \<Longrightarrow>
     cache w' = cache w
     \<or> cache w' = (cache w)\<lparr>kv := (kv (cache w))(''stats'' \<mapsto>
                    stats_entry w (lookup_alive (cache w) (now_ms w) ''cache:hits''))\<rparr>"
  by (auto simp: get_stats_def stats_entry_def stats_at_def r_setex_def r_get_def count_rows_def
      count_since_def split: sum.splits if_splits option.splits)

lemma handle_hits:
  assumes h: "handle w r = (w', resp)"
  shows "kv (cache w') ''cache:hits'' = kv (cache w) ''cache:hits''
         \<and> (kv (cache w') ''stats'' = kv (cache w) ''stats''
            \<or> kv (cache w') ''stats'' = Some (stats_entry w (lookup_alive (cache w) (now_ms w) ''cache:hits'')))"
proof (cases "is_write r")
  case True
  with h show ?thesis by (auto simp: write_effect_def dest!: handle_write_effect)
next
  case False
  then show ?thesis
  proof (cases r)
    case ListUsers
    with h show ?thesis by (auto simp: r_setex_Inr dest!: get_users_effect)
  next
    case Stats
    with h show ?thesis by (auto dest!: get_stats_store_hits)
  qed (use h in \<open>auto dest: read_unchanged\<close>)
qed

lemma sys_step_hits_inert: "sys_step f w w' \<Longrightarrow> hits_inert w \<Longrightarrow> hits_inert w'"
proof (induction rule: sys_step.induct)
  case (request w r)
  with handle_hits [of w r "fst (handle w r)" "snd (handle w r)"] show ?case
    by (auto simp: hits_inert_def lookup_alive_def)
qed (auto simp: hits_inert_def)

lemma reach_hits_inert: "reach f w \<Longrightarrow> hits_inert w"
proof (induction rule: reach.induct)
  case (init t)
  show ?case by (simp add: hits_inert_def init_world_def init_redis_def)
next
  case (step w w')
  from step.hyps(2) step.IH show ?case by (rule sys_step_hits_inert)
qed

subsection \<open>Ids\<close>

lemma insert_row_ids: "ids_grow d (fst (insert_row d un em t))"
proof -
  obtain d' res where p: "insert_row d un em t = (d', res)" by (metis prod.collapse)
  have f: "fst (insert_row d un em t) = d'" using p by simp
  show ?thesis unfolding f using p
    by (cases res) (auto simp: ids_grow_def insert_row_Inr dest: insert_row_Inl)
qed

lemma update_row_ids:
  assumes "update_row d u un em = Inr (u', d')"
  shows "ids_grow d d'"
proof -
  have m: "map uid (rows d') = map uid (rows d)" and n: "next_id d' = next_id d"
    using update_row_keeps [OF assms] by simp_all
  from m have "uid ` set (rows d') = uid ` set (rows d)" by (metis list.set_map)
  with n show ?thesis by (auto simp: ids_grow_def)
qed

lemma delete_row_ids: "delete_row d u = Inr d' \<Longrightarrow> ids_grow d d'"
  by (auto simp: ids_grow_def delete_row_Inr)

lemma ids_grow_refl: "ids_grow d d"
  by (simp add: ids_grow_def)

lemma handle_ids: "ids_grow (database w) (database (fst (handle w r)))"
proof -
  obtain w' resp where h: "handle w r = (w', resp)" by (metis prod.collapse)
  have "ids_grow (database w) (database w')"
  proof (cases r)
    case (CreateUser b)
    with h show ?thesis by (auto simp: ids_grow_refl insert_row_ids dest!: create_user_db)
  next
    case (UpdateUser i b)
    with h show ?thesis by (auto simp: ids_grow_refl dest!: update_user_db intro: update_row_ids)
  next
    case (DeleteUser i)
    with h show ?thesis by (auto simp: ids_grow_refl dest!: delete_user_db intro: delete_row_ids)
  next
    case ListUsers
    with h show ?thesis by (auto simp: ids_grow_refl dest!: get_users_effect)
  next
    case Stats
    with h show ?thesis by (auto simp: ids_grow_refl dest!: get_stats_effect)
  qed (use h in \<open>auto simp: ids_grow_refl dest: read_unchanged\<close>)
  then show ?thesis using h by simp
qed

lemma sys_step_ids: "sys_step f w w' \<Longrightarrow> ids_grow (database w) (database w')"
  by (induction rule: sys_step.induct) (simp add: handle_ids, simp_all add: ids_grow_def)

lemma ids_grow_trans:
  assumes a: "ids_grow d d'" and b: "ids_grow d' d''"
  shows "ids_grow d d''"
  unfolding ids_grow_def
proof (intro conjI ballI)
  show "next_id d \<le> next_id d''" using a b by (simp add: ids_grow_def)
next
  fix u assume u: "u \<in> set (rows d'')"
  from b u have "uid u \<in> uid ` set (rows d') \<or> next_id d' \<le> uid u" by (simp add: ids_grow_def)
  then show "uid u \<in> uid ` set (rows d) \<or> next_id d \<le> uid u"
  proof
    assume "uid u \<in> uid ` set (rows d')"
    then obtain x where x: "x \<in> set (rows d')" and ux: "uid x = uid u" by auto
    from a x have "uid x \<in> uid ` set (rows d) \<or> next_id d \<le> uid x" by (simp add: ids_grow_def)
    with ux show ?thesis by simp
  next
    assume "next_id d' \<le> uid u"
    with a show ?thesis by (auto simp: ids_grow_def)
  qed
qed

lemma star_ids: "(sys_step f)\<^sup>*\<^sup>* w w' \<Longrightarrow> ids_grow (database w) (database w')"
  by (induction rule: rtranclp_induct) (simp add: ids_grow_refl, blast intro: ids_grow_trans sys_step_ids)

subsection \<open>Expiry of the cached entries\<close>

lemma handle_ttl:
  assumes t: "ttl_bounded w"
  shows "ttl_bounded (fst (handle w r))"
proof -
  obtain w' resp where h: "handle w r = (w', resp)" by (metis prod.collapse)
  have c: "now_ms w' = now_ms w" using handle_clock [of w r] h by (simp add: now_ms_def)
  from handle_list_entry [OF h] handle_stats [OF h] t c have "ttl_bounded w'"
    by (auto simp: ttl_bounded_def list_entry_def stats_entry_def)
  then show ?thesis using h by simp
qed

lemma sys_step_ttl: "sys_step f w w' \<Longrightarrow> ttl_bounded w \<Longrightarrow> ttl_bounded w'"
proof (induction rule: sys_step.induct)
  case (request w r)
  then show ?case by (rule handle_ttl)
next
  case (tick d w)
  have "now_ms w \<le> now_ms (w\<lparr>clock := clock w + d\<rparr>)" using tick.hyps by (intro now_ms_mono) simp
  with tick.prems show ?case by (force simp: ttl_bounded_def)
qed (simp_all add: ttl_bounded_def now_ms_def)

lemma reach_ttl: "reach f w \<Longrightarrow> ttl_bounded w"
  by (induction rule: reach.induct)
     (simp add: ttl_bounded_def init_world_def init_redis_def, blast intro: sys_step_ttl)

text \<open>An entry of a state with bounded expiry is gone 300.001 seconds later: the
  millisecond clock has then moved past \<open>now + 300000\<close>.\<close>

lemma expired_after_ttl:
  assumes t: "ttl_bounded w" and d: "300001000 \<le> d" and k: "k \<in> {''users:all'', ''stats''}"
  shows "lookup_alive (cache w) ((clock w + d) div 1000) k = None"
proof -
  have "(clock w + 300001000) div 1000 \<le> (clock w + d) div 1000" using d by (intro zdiv_mono1) simp_all
  moreover have "(clock w + 300001000) div 1000 = clock w div 1000 + 300001" by simp
  ultimately have "now_ms w + 300001 \<le> (clock w + d) div 1000" by (simp add: now_ms_def)
  with t k show ?thesis
    by (auto simp: ttl_bounded_def lookup_alive_def alive_def split: option.splits)
qed

subsection \<open>Properties of runs\<close>

text \<open>C1. The key invariant of the consistency policy: in every run where Redis stays
  reachable, the alive \<open>users:all\<close> entry, if any, is exactly the serialisation of
  the table's current rows. Every successful write deletes the entry before it
  returns (lines 129, 154, 173), a failed write changes no row, and a read stores the
  rows it has just read (line 92); the clock only makes entries expire.\<close>

theorem users_cache_coherent: "reach False w \<Longrightarrow> redis_up (cache w) \<and> users_coherent w"
  by (induction rule: reach.induct) (auto simp: init_coherent dest: sys_step_coherent)

theorem users_cache_coherent_witness:
  "reach False (fst (handle (init_world 0) ListUsers))
   \<and> redis_up (cache (fst (handle (init_world 0) ListUsers))) \<and> users_coherent (fst (handle (init_world 0) ListUsers))"
proof -
  have r: "reach False (fst (handle (init_world 0) ListUsers))" by (blast intro: reach.init reach.step sys_step.request)
  show ?thesis using r users_cache_coherent [OF r] by blast
qed

text \<open>C2. Refinement of \<open>GET /api/users\<close>: in every run where Redis stays reachable,
  a 200 reply carries exactly the abstract value \<open>users_spec\<close> of the state, the
  current rows, whether it came from the cache or from the table, and the request
  changes no row.\<close>

theorem get_users_refines:
  assumes r: "reach False w" and g: "get_users w = (w', resp)" and s: "status resp = 200"
  shows "\<exists>b. body resp = JObj [(''users'', users_spec w), (''from_cache'', JBool b)]
           \<and> database w' = database w"
proof -
  have inv: "redis_up (cache w) \<and> users_coherent w"
    using r by (induction rule: reach.induct) (auto simp: init_coherent dest: sys_step_coherent)
  then have up: "redis_up (cache w)"
    and c: "lookup_alive (cache w) (now_ms w) ''users:all'' \<in> {None, Some (json_dumps (users_spec w))}"
    by (simp_all add: users_coherent_iff users_spec_def)
  have d: "database w' = database w" using get_users_effect [OF g] by simp
  show ?thesis
  proof (cases "cache_hit (lookup_alive (cache w) (now_ms w) ''users:all'')")
    case True
    with c have L: "lookup_alive (cache w) (now_ms w) ''users:all'' = Some (json_dumps (users_spec w))"
      by (auto simp: cache_hit_def)
    have "get_users w = (w, ok 200 (JObj [(''users'', users_spec w), (''from_cache'', JBool True)]))"
      using up L by (simp add: get_users_def r_get_def cache_hit_def users_spec_def json_dumps_nonempty)
    with g d show ?thesis by auto
  next
    case miss: False
    show ?thesis
    proof (cases "db_up (database w)")
      case True
      have "snd (get_users w) = ok 200 (JObj [(''users'', users_spec w), (''from_cache'', JBool False)])"
        using up miss True by (simp add: get_users_def r_get_def all_rows_def r_setex_def users_spec_def)
      with g d show ?thesis by auto
    next
      case False
      have "get_users w = (w, err 500 (DbError OperationalError))"
        using up miss False by (simp add: get_users_def r_get_def all_rows_def)
      with g s show ?thesis by auto
    qed
  qed
qed

theorem get_users_refines_witness:
  "reach False (fst (handle (init_world 0) ListUsers))
   \<and> status (snd (get_users (fst (handle (init_world 0) ListUsers)))) = 200
   \<and> (\<exists>b. body (snd (get_users (fst (handle (init_world 0) ListUsers))))
            = JObj [(''users'', users_spec (fst (handle (init_world 0) ListUsers))), (''from_cache'', JBool b)]
          \<and> database (fst (get_users (fst (handle (init_world 0) ListUsers))))
            = database (fst (handle (init_world 0) ListUsers)))"
proof -
  have r: "reach False (fst (handle (init_world 0) ListUsers))" by (blast intro: reach.init reach.step sys_step.request)
  have s: "status (snd (get_users (fst (handle (init_world 0) ListUsers)))) = 200"
    by (simp add: eval_defs json_loads_def skip_ws_def is_ws_def)
  show ?thesis using r s get_users_refines [OF r surjective_pairing s] by blast
qed

text \<open>C8. The staleness bound of the statistics: in every run, even with Redis and
  PostgreSQL going down, a 200 reply of \<open>GET /api/stats\<close> is the statistics computed
  at an earlier state \<open>w0\<close> of the same run, at most 60 seconds (in Redis's
  millisecond clock) before the current time: the row count, the count of rows
  created in the seven days before \<open>w0\<close>, and the time of \<open>w0\<close>. Writes in
  between do not shorten that window (they never delete \<open>stats\<close>).\<close>

theorem get_stats_staleness:
  assumes r: "reach f w" and g: "get_stats w = (w', resp)" and s: "status resp = 200"
  shows "\<exists>w0 h. reach f w0 \<and> (sys_step f)\<^sup>*\<^sup>* w0 w \<and> clock w0 \<le> clock w
           \<and> now_ms w \<le> now_ms w0 + 60000 \<and> body resp = stats_at w0 h"
proof (cases "redis_up (cache w) \<and> cache_hit (lookup_alive (cache w) (now_ms w) ''stats'')")
  case True
  then obtain e where e: "kv (cache w) ''stats'' = Some e" and al: "alive (now_ms w) e"
    and up: "redis_up (cache w)" and hit: "cache_hit (Some (val e))"
    by (auto simp: lookup_alive_def cache_hit_def split: option.splits if_splits)
  from reach_stats_origin [OF r] e obtain w0 h where o: "reach f w0" "(sys_step f)\<^sup>*\<^sup>* w0 w"
    and ee: "e = stats_entry w0 h" by (auto simp: stats_origin_def)
  have "resp = ok 200 (stats_at w0 h)"
    using g up hit e al ee by (simp add: get_stats_def r_get_def lookup_alive_def stats_entry_def)
  then have "body resp = stats_at w0 h" by simp
  moreover have "now_ms w \<le> now_ms w0 + 60000" using al ee by (simp add: alive_def stats_entry_def)
  ultimately show ?thesis using o star_clock [OF o(2)] by blast
next
  case False
  then have "resp = ok 200 (stats_at w (lookup_alive (cache w) (now_ms w) ''cache:hits''))"
    using g s by (auto simp: get_stats_def r_get_def stats_at_def count_rows_def count_since_def
        split: if_splits sum.splits)
  then have "body resp = stats_at w (lookup_alive (cache w) (now_ms w) ''cache:hits'')" by simp
  moreover have "now_ms w \<le> now_ms w + 60000" by simp
  ultimately show ?thesis using r by (blast intro: rtranclp.rtrancl_refl)
qed

theorem get_stats_staleness_witness:
  "reach True (fst (handle (init_world 0) (CreateUser demo_body)))
   \<and> status (snd (get_stats (fst (handle (init_world 0) (CreateUser demo_body))))) = 200
   \<and> (\<exists>w0 h. reach True w0 \<and> (sys_step True)\<^sup>*\<^sup>* w0 (fst (handle (init_world 0) (CreateUser demo_body)))
        \<and> clock w0 \<le> clock (fst (handle (init_world 0) (CreateUser demo_body)))
        \<and> now_ms (fst (handle (init_world 0) (CreateUser demo_body))) \<le> now_ms w0 + 60000
        \<and> body (snd (get_stats (fst (handle (init_world 0) (CreateUser demo_body))))) = stats_at w0 h)"
proof -
  have r: "reach True (fst (handle (init_world 0) (CreateUser demo_body)))"
    by (blast intro: reach.init reach.step sys_step.request)
  have s: "status (snd (get_stats (fst (handle (init_world 0) (CreateUser demo_body))))) = 200"
    by (simp add: eval_defs demo_defs Let_def del: stats_of_def)
  show ?thesis using r s get_stats_staleness [OF r surjective_pairing s] by blast
qed

text \<open>C9. Well-formedness (\<open>wf_world\<close>) is an invariant of every run, whether or not
  Redis and PostgreSQL go down on the way: from a well-formed state, every sequence of
  requests, clock moves and outages reaches a well-formed state. Well formed means a
  positive sequence above every id and within the \<open>integer\<close> range, distinct ids,
  usernames and e-mails, columns within 80 and 120 characters, and no row created
  after the current time.\<close>

theorem run_preserves_wf: "(sys_step f)\<^sup>*\<^sup>* w w' \<Longrightarrow> wf_world w \<Longrightarrow> wf_world w'"
  by (induction rule: rtranclp_induct) (auto intro: sys_step_wf)

theorem run_preserves_wf_witness:
  "(sys_step True)\<^sup>*\<^sup>* demo_world (fst (handle demo_world (CreateUser demo_body)))
   \<and> wf_world demo_world \<and> wf_world (fst (handle demo_world (CreateUser demo_body)))"
proof -
  have s: "(sys_step True)\<^sup>*\<^sup>* demo_world (fst (handle demo_world (CreateUser demo_body)))"
    by (blast intro: r_into_rtranclp sys_step.request)
  have w: "wf_world demo_world" by (simp add: eval_defs demo_defs)
  show ?thesis using s w run_preserves_wf [OF s w] by blast
qed

text \<open>C19. Ids are never reused: in every run, an id that belonged to a row at some
  state and to no row at a later state (the row was deleted) belongs to no row at
  any state after that. The id of a new row comes from the sequence, which every
  step leaves equal or higher, even a failed insert (lines 121-126).\<close>

theorem ids_never_reused:
  assumes r: "reach f w" and s1: "(sys_step f)\<^sup>*\<^sup>* w w'" and s2: "(sys_step f)\<^sup>*\<^sup>* w' w''"
    and had: "i \<in> uid ` set (rows (database w))" and gone: "i \<notin> uid ` set (rows (database w'))"
  shows "i \<notin> uid ` set (rows (database w''))"
proof
  have "wf_world w" using r by (rule reach_wf)
  with had have "i < next_id (database w)" by (auto simp: wf_world_def db_inv_def list_all_iff)
  also have "next_id (database w) \<le> next_id (database w')" using star_ids [OF s1] by (simp add: ids_grow_def)
  finally have lt: "i < next_id (database w')" .
  assume "i \<in> uid ` set (rows (database w''))"
  then obtain u where u: "u \<in> set (rows (database w''))" and ui: "uid u = i" by auto
  from star_ids [OF s2] u have "uid u \<in> uid ` set (rows (database w')) \<or> next_id (database w') \<le> uid u"
    by (simp add: ids_grow_def)
  with ui gone lt show False by auto
qed

theorem ids_never_reused_witness:
  "reach True (fst (handle (init_world 0) (CreateUser demo_body)))
   \<and> (sys_step True)\<^sup>*\<^sup>* (fst (handle (init_world 0) (CreateUser demo_body)))
        (fst (handle (fst (handle (init_world 0) (CreateUser demo_body))) (DeleteUser 1)))
   \<and> (1::nat) \<in> uid ` set (rows (database (fst (handle (init_world 0) (CreateUser demo_body)))))
   \<and> (1::nat) \<notin> uid ` set (rows (database (fst (handle (fst (handle (init_world 0) (CreateUser demo_body))) (DeleteUser 1)))))
   \<and> (1::nat) \<notin> uid ` set (rows (database (fst (handle (fst (handle (fst (handle (init_world 0)
        (CreateUser demo_body))) (DeleteUser 1))) (CreateUser demo_body)))))"
proof -
  let ?w = "fst (handle (init_world 0) (CreateUser demo_body))"
  let ?w' = "fst (handle ?w (DeleteUser 1))"
  let ?w'' = "fst (handle ?w' (CreateUser demo_body))"
  have r: "reach True ?w" by (blast intro: reach.init reach.step sys_step.request)
  have s1: "(sys_step True)\<^sup>*\<^sup>* ?w ?w'" by (blast intro: r_into_rtranclp sys_step.request)
  have s2: "(sys_step True)\<^sup>*\<^sup>* ?w' ?w''" by (blast intro: r_into_rtranclp sys_step.request)
  have rows_w: "rows (database ?w) = [\<lparr>uid = 1, username = ''bo'', email = ''bo@example.org'', created_at = 0\<rparr>]"
    by (simp add: eval_defs demo_defs Let_def)
  have rows_w': "rows (database ?w') = []"
    by (simp add: eval_defs demo_defs Let_def)
  have had: "(1::nat) \<in> uid ` set (rows (database ?w))" using rows_w by simp
  have gone: "(1::nat) \<notin> uid ` set (rows (database ?w'))" using rows_w' by simp
  show ?thesis using r s1 had gone ids_never_reused [OF r s1 s2 had gone] by blast
qed

text \<open>C16. The coherence of C1 needs Redis to stay reachable: a run with one Redis
  outage reaches a state where the table has a row and \<open>GET /api/users\<close> still
  answers 200 with the empty list from the cache. The list is stored while the table
  is empty; Redis goes down; a create commits its row and fails on the \<open>DEL\<close>
  (lines 126-129, answered 500); Redis comes back with the old entry alive.\<close>

theorem stale_list_after_outage:
  "\<exists>w. reach True w \<and> rows (database w) \<noteq> []
       \<and> get_users w = (w, ok 200 (JObj [(''users'', JArr []), (''from_cache'', JBool True)]))"
proof -
  let ?w1 = "fst (handle (init_world 0) ListUsers)"
  let ?w2 = "?w1\<lparr>cache := (cache ?w1)\<lparr>redis_up := False\<rparr>\<rparr>"
  let ?w3 = "fst (handle ?w2 (CreateUser demo_body))"
  let ?w4 = "?w3\<lparr>cache := (cache ?w3)\<lparr>redis_up := True\<rparr>\<rparr>"
  have r1: "reach True ?w1" by (blast intro: reach.init reach.step sys_step.request)
  have r2: "reach True ?w2" using r1 by (rule reach.step) (rule sys_step.redis_avail, simp)
  have r3: "reach True ?w3" using r2 by (rule reach.step) (rule sys_step.request)
  have r: "reach True ?w4" using r3 by (rule reach.step) (rule sys_step.redis_avail, simp)
  have "rows (database ?w4) = [\<lparr>uid = 1, username = ''bo'', email = ''bo@example.org'', created_at = 0\<rparr>]"
    by (simp add: eval_defs demo_defs Let_def)
  moreover have "get_users ?w4 = (?w4, ok 200 (JObj [(''users'', JArr []), (''from_cache'', JBool True)]))"
    by (simp add: eval_defs demo_defs Let_def json_loads_def skip_ws_def is_ws_def)
  ultimately show ?thesis using r by auto
qed

text \<open>C30. \<open>cache_hits\<close> is always 0: nothing in app.py writes the key \<open>cache:hits\<close>
  that \<open>get_stats\<close> reads (line 199). So in every run, with or without outages,
  every statistics reply, computed from the table or served from the cache, has the
  four fields of lines 195-200 with \<open>cache_hits\<close> the integer 0.\<close>

theorem stats_cache_hits_zero:
  assumes r: "reach f w" and s: "status (snd (get_stats w)) = 200"
  shows "\<exists>tot rec ts. body (snd (get_stats w)) =
           JObj [(''total_users'', JInt tot), (''recent_users'', JInt rec), (''timestamp'', JStr ts),
                 (''cache_hits'', JInt 0)]"
proof -
  have i: "hits_inert w" using r by (rule reach_hits_inert)
  then have h: "lookup_alive (cache w) (now_ms w) ''cache:hits'' = None"
    by (simp add: hits_inert_def lookup_alive_def)
  show ?thesis
  proof (cases "lookup_alive (cache w) (now_ms w) ''stats''")
    case None
    with s h show ?thesis
      by (auto simp: get_stats_def r_get_def cache_hit_def stats_of_def count_rows_def count_since_def
          r_setex_def split: if_splits sum.splits)
  next
    case (Some v)
    then obtain e where "kv (cache w) ''stats'' = Some e" "v = val e"
      by (auto simp: lookup_alive_def split: option.splits if_splits)
    with i obtain w0 where v: "v = json_dumps (stats_at w0 None)"
      by (auto simp: hits_inert_def stats_entry_def)
    have up: "redis_up (cache w)" using s by (cases "redis_up (cache w)") (simp_all add: get_stats_def r_get_def)
    then have "get_stats w = (w, ok 200 (stats_at w0 None))" using Some v
      by (simp add: get_stats_def r_get_def cache_hit_def json_dumps_nonempty del: json_dumps.simps)
    then show ?thesis by (simp add: stats_at_def stats_of_def cache_hit_def)
  qed
qed

theorem stats_cache_hits_zero_witness:
  "reach False (fst (handle (init_world 0) Stats))
   \<and> status (snd (get_stats (fst (handle (init_world 0) Stats)))) = 200
   \<and> (\<exists>tot rec ts. body (snd (get_stats (fst (handle (init_world 0) Stats)))) =
        JObj [(''total_users'', JInt tot), (''recent_users'', JInt rec), (''timestamp'', JStr ts),
              (''cache_hits'', JInt 0)])"
proof -
  have r: "reach False (fst (handle (init_world 0) Stats))"
    by (blast intro: reach.init reach.step sys_step.request)
  have s: "status (snd (get_stats (fst (handle (init_world 0) Stats)))) = 200"
    by (simp add: eval_defs get_stats_def json_dumps_nonempty cache_hit_def
        del: json_dumps.simps stats_of_def)
  show ?thesis using r s stats_cache_hits_zero [OF r s] by blast
qed

text \<open>C28. The time-to-live bounds every cached entry: in every run, with or without
  outages, whatever \<open>users:all\<close> and \<open>stats\<close> hold now is gone 300.001 seconds
  later (the millisecond clock then exceeds every expiry set so far).\<close>

theorem cache_entries_expire:
  assumes r: "reach f w" and d: "300001000 \<le> d"
  shows "lookup_alive (cache w) (now_ms (w\<lparr>clock := clock w + d\<rparr>)) ''users:all'' = None
         \<and> lookup_alive (cache w) (now_ms (w\<lparr>clock := clock w + d\<rparr>)) ''stats'' = None"
  using expired_after_ttl [OF reach_ttl [OF r] d] by (simp add: now_ms_def)

theorem cache_entries_expire_witness:
  "reach False (fst (handle (init_world 0) ListUsers)) \<and> (300001000::int) \<le> 300001000
   \<and> lookup_alive (cache (fst (handle (init_world 0) ListUsers)))
        (now_ms ((fst (handle (init_world 0) ListUsers))\<lparr>clock := clock (fst (handle (init_world 0) ListUsers)) + 300001000\<rparr>))
        ''users:all'' = None
   \<and> lookup_alive (cache (fst (handle (init_world 0) ListUsers)))
        (now_ms ((fst (handle (init_world 0) ListUsers))\<lparr>clock := clock (fst (handle (init_world 0) ListUsers)) + 300001000\<rparr>))
        ''stats'' = None"
proof -
  have r: "reach False (fst (handle (init_world 0) ListUsers))" by (blast intro: reach.init reach.step sys_step.request)
  show ?thesis using r cache_entries_expire [OF r, of 300001000] by simp
qed

text \<open>C29. The service always recovers: from every reachable state, even after outages
  and a stale list left in the cache, there is a continuation of the run (both servers
  come back and 300.001 seconds pass) after which \<open>GET /api/users\<close> answers 200 with
  the current rows of the table, read from the table.\<close>

theorem recovers_current_list:
  assumes r: "reach f w"
  shows "\<exists>w'. (sys_step f)\<^sup>*\<^sup>* w w' \<and> rows (database w') = rows (database w)
              \<and> snd (get_users w') = ok 200 (JObj [(''users'', users_spec w), (''from_cache'', JBool False)])"
proof -
  define w1 where "w1 = w\<lparr>database := (database w)\<lparr>db_up := True\<rparr>\<rparr>"
  define w2 where "w2 = w1\<lparr>cache := (cache w1)\<lparr>redis_up := True\<rparr>\<rparr>"
  define w3 where "w3 = w2\<lparr>clock := clock w2 + 300001000\<rparr>"
  have s1: "sys_step f w w1" unfolding w1_def by (rule sys_step.db_avail)
  have s2: "sys_step f w1 w2" unfolding w2_def by (rule sys_step.redis_avail) simp
  have s3: "sys_step f w2 w3" unfolding w3_def by (rule sys_step.tick) simp
  have "(sys_step f)\<^sup>*\<^sup>* w w1" using s1 by (rule r_into_rtranclp)
  then have "(sys_step f)\<^sup>*\<^sup>* w w2" using s2 by (rule rtranclp.rtrancl_into_rtrancl)
  then have run: "(sys_step f)\<^sup>*\<^sup>* w w3" using s3 by (rule rtranclp.rtrancl_into_rtrancl)
  have "lookup_alive (cache w) ((clock w + 300001000) div 1000) ''users:all'' = None"
    by (rule expired_after_ttl [OF reach_ttl [OF r]]) simp_all
  then have miss: "lookup_alive (cache w3) (now_ms w3) ''users:all'' = None"
    by (simp add: w3_def w2_def w1_def now_ms_def lookup_alive_def)
  have "snd (get_users w3) = ok 200 (JObj [(''users'', users_spec w), (''from_cache'', JBool False)])"
    using miss by (simp add: get_users_def r_get_def cache_hit_def all_rows_def r_setex_def users_spec_def
        w3_def w2_def w1_def)
  moreover have "rows (database w3) = rows (database w)" by (simp add: w3_def w2_def w1_def)
  ultimately show ?thesis using run by blast
qed

theorem recovers_current_list_witness:
  "reach True (fst (handle (init_world 0) ListUsers))
   \<and> (\<exists>w'. (sys_step True)\<^sup>*\<^sup>* (fst (handle (init_world 0) ListUsers)) w'
        \<and> rows (database w') = rows (database (fst (handle (init_world 0) ListUsers)))
        \<and> snd (get_users w') = ok 200 (JObj [(''users'', users_spec (fst (handle (init_world 0) ListUsers))),
                                             (''from_cache'', JBool False)]))"
proof -
  have r: "reach True (fst (handle (init_world 0) ListUsers))" by (blast intro: reach.init reach.step sys_step.request)
  show ?thesis using r recovers_current_list [OF r] by blast
qed

end
