(* ===== verification/Race.thy ===== *)
theory Race
  imports Policy "HOL-Library.Multiset"
begin

text \<open>
  The race the specification accepts (section 5, design notes): \<open>get_users\<close> reads
  the table (line 88) and stores what it read (line 92) in two separate calls, and
  other requests may run in between. Here \<open>get_users\<close> is split at that point into
  \<open>get_users_query\<close> (lines 80-89) and \<open>get_users_fill\<close> (lines 92-97), and a state
  of the service is the world together with the multiset of rows read by list
  requests that have not stored them yet. \<open>rstep f\<close> runs a whole request, starts or
  finishes a list request, moves the clock, or changes the availability of the two
  servers; \<open>rreach f\<close> is the set of states of such runs.
\<close>

definition get_users_query :: "world \<Rightarrow> (world \<times> response) + user list" where
  "get_users_query w =
     (case r_get (cache w) (now_ms w) ''users:all'' of
        Inl e \<Rightarrow> Inl (w, err 500 (RedisError e))
      | Inr cached \<Rightarrow>
          if cache_hit cached then
            (case json_loads (the cached) of
               None \<Rightarrow> Inl (w, err 500 JSONDecodeError)
             | Some v \<Rightarrow> Inl (w, ok 200 (JObj [(''users'', v), (''from_cache'', JBool True)])))
          else
            (case all_rows (database w) of
               Inl e \<Rightarrow> Inl (w, err 500 (DbError e))
             | Inr us \<Rightarrow> Inr us))"

definition get_users_fill :: "world \<Rightarrow> user list \<Rightarrow> world \<times> response" where
  "get_users_fill w us =
     (case r_setex (cache w) (now_ms w) ''users:all'' 300 (json_dumps (users_json us)) of
        Inl e \<Rightarrow> (w, err 500 (RedisError e))
      | Inr c' \<Rightarrow> (w\<lparr>cache := c'\<rparr>, ok 200 (JObj [(''users'', users_json us), (''from_cache'', JBool False)])))"

record node =
  sw :: world
  pending :: "user list multiset"

inductive rstep :: "bool \<Rightarrow> node \<Rightarrow> node \<Rightarrow> bool" for f :: bool where
  request: "rstep f s (s\<lparr>sw := fst (handle (sw s) r)\<rparr>)"
| list_begin: "get_users_query (sw s) = Inr us \<Longrightarrow> rstep f s (s\<lparr>pending := add_mset us (pending s)\<rparr>)"
| list_end: "us \<in># pending s \<Longrightarrow>
    rstep f s (s\<lparr>sw := fst (get_users_fill (sw s) us), pending := pending s - {#us#}\<rparr>)"
| tick: "0 \<le> d \<Longrightarrow> rstep f s (s\<lparr>sw := (sw s)\<lparr>clock := clock (sw s) + d\<rparr>\<rparr>)"
| db_avail: "rstep f s (s\<lparr>sw := (sw s)\<lparr>database := (database (sw s))\<lparr>db_up := b\<rparr>\<rparr>\<rparr>)"
| redis_avail: "f \<or> b \<Longrightarrow> rstep f s (s\<lparr>sw := (sw s)\<lparr>cache := (cache (sw s))\<lparr>redis_up := b\<rparr>\<rparr>\<rparr>)"

inductive rreach :: "bool \<Rightarrow> node \<Rightarrow> bool" for f :: bool where
  init: "rreach f \<lparr>sw = init_world t, pending = {#}\<rparr>"
| step: "rreach f s \<Longrightarrow> rstep f s s' \<Longrightarrow> rreach f s'"

text \<open>Where the list entry and the pending rows of a state come from: the rows of an
  earlier state \<open>s0\<close> of the run, stored at a state \<open>s1\<close> between \<open>s0\<close> and now.\<close>

definition list_origin :: "bool \<Rightarrow> node \<Rightarrow> bool" where
  "list_origin f s \<longleftrightarrow>
     (\<forall>e. kv (cache (sw s)) ''users:all'' = Some e \<longrightarrow>
        (\<exists>s0 s1. rreach f s0 \<and> (rstep f)\<^sup>*\<^sup>* s0 s1 \<and> (rstep f)\<^sup>*\<^sup>* s1 s
           \<and> e = list_entry (sw s1) (rows (database (sw s0)))))
     \<and> (\<forall>us. us \<in># pending s \<longrightarrow>
        (\<exists>s0. rreach f s0 \<and> (rstep f)\<^sup>*\<^sup>* s0 s \<and> us = rows (database (sw s0))))"

subsection \<open>The split handler\<close>

lemma get_users_query_Inr: "get_users_query w = Inr us \<Longrightarrow> us = rows (database w)"
  by (auto simp: get_users_query_def all_rows_def split: sum.splits if_splits option.splits)

lemma get_users_fill_cache:
  "get_users_fill w us = (w', resp) \<Longrightarrow>
     database w' = database w \<and> clock w' = clock w
     \<and> (cache w' = cache w \<or> cache w' = (cache w)\<lparr>kv := (kv (cache w))(''users:all'' \<mapsto> list_entry w us)\<rparr>)"
  by (auto simp: get_users_fill_def r_setex_def list_entry_def split: sum.splits if_splits)

text \<open>What one step does to the list entry and to the pending rows.\<close>

lemma rstep_list_entry:
  "rstep f s s' \<Longrightarrow>
     kv (cache (sw s')) ''users:all'' = kv (cache (sw s)) ''users:all''
     \<or> kv (cache (sw s')) ''users:all'' = None
     \<or> (\<exists>us. (us = rows (database (sw s)) \<or> us \<in># pending s)
            \<and> kv (cache (sw s')) ''users:all'' = Some (list_entry (sw s) us))"
proof (induction rule: rstep.induct)
  case (request s r)
  then show ?case using handle_list_entry [OF prod.collapse [symmetric], of "sw s" r] by auto
next
  case (list_end us s)
  then show ?case using get_users_fill_cache [OF prod.collapse [symmetric], of "sw s" us] by auto
qed simp_all

lemma rstep_pending:
  "rstep f s s' \<Longrightarrow> us \<in># pending s' \<Longrightarrow> us \<in># pending s \<or> us = rows (database (sw s))"
  by (induction rule: rstep.induct) (auto dest: get_users_query_Inr in_diffD)

lemma rstep_clock: "rstep f s s' \<Longrightarrow> clock (sw s) \<le> clock (sw s')"
proof (induction rule: rstep.induct)
  case (list_end us s)
  then show ?case using get_users_fill_cache [OF prod.collapse [symmetric], of "sw s" us] by simp
qed (simp_all add: handle_clock)

lemma rstar_clock: "(rstep f)\<^sup>*\<^sup>* s s' \<Longrightarrow> clock (sw s) \<le> clock (sw s')"
  by (induction rule: rtranclp_induct) (auto dest: rstep_clock)

subsection \<open>Where the list entry comes from\<close>

lemma list_origin_init: "list_origin f \<lparr>sw = init_world t, pending = {#}\<rparr>"
  by (simp add: list_origin_def init_world_def init_redis_def)

lemma list_origin_step:
  assumes r: "rreach f s" and st: "rstep f s s'" and o: "list_origin f s"
  shows "list_origin f s'"
  unfolding list_origin_def
proof (intro conjI allI impI)
  fix e assume e: "kv (cache (sw s')) ''users:all'' = Some e"
  have one: "(rstep f)\<^sup>*\<^sup>* s s'" using st by (rule r_into_rtranclp)
  from rstep_list_entry [OF st] e
  show "\<exists>s0 s1. rreach f s0 \<and> (rstep f)\<^sup>*\<^sup>* s0 s1 \<and> (rstep f)\<^sup>*\<^sup>* s1 s'
           \<and> e = list_entry (sw s1) (rows (database (sw s0)))"
  proof (elim disjE exE conjE)
    assume "kv (cache (sw s')) ''users:all'' = kv (cache (sw s)) ''users:all''"
    with e o obtain s0 s1 where "rreach f s0" "(rstep f)\<^sup>*\<^sup>* s0 s1" "(rstep f)\<^sup>*\<^sup>* s1 s"
      "e = list_entry (sw s1) (rows (database (sw s0)))" by (auto simp: list_origin_def)
    with st show ?thesis by (blast intro: rtranclp.rtrancl_into_rtrancl)
  next
    assume "kv (cache (sw s')) ''users:all'' = None"
    with e show ?thesis by simp
  next
    fix us assume "us = rows (database (sw s))" and "kv (cache (sw s')) ''users:all'' = Some (list_entry (sw s) us)"
    with e have "e = list_entry (sw s) (rows (database (sw s)))" by simp
    with r one show ?thesis by (blast intro: rtranclp.rtrancl_refl)
  next
    fix us assume p: "us \<in># pending s" and k: "kv (cache (sw s')) ''users:all'' = Some (list_entry (sw s) us)"
    from p o obtain s0 where "rreach f s0" "(rstep f)\<^sup>*\<^sup>* s0 s" "us = rows (database (sw s0))"
      by (auto simp: list_origin_def)
    moreover from e k have "e = list_entry (sw s) us" by simp
    ultimately show ?thesis using one by blast
  qed
next
  fix us assume p: "us \<in># pending s'"
  show "\<exists>s0. rreach f s0 \<and> (rstep f)\<^sup>*\<^sup>* s0 s' \<and> us = rows (database (sw s0))"
    using rstep_pending [OF st p]
  proof
    assume "us \<in># pending s"
    with o obtain s0 where "rreach f s0" "(rstep f)\<^sup>*\<^sup>* s0 s" "us = rows (database (sw s0))"
      by (auto simp: list_origin_def)
    with st show ?thesis by (blast intro: rtranclp.rtrancl_into_rtrancl)
  next
    assume "us = rows (database (sw s))"
    with r st show ?thesis by (blast intro: r_into_rtranclp)
  qed
qed

lemma rreach_list_origin: "rreach f s \<Longrightarrow> list_origin f s"
  by (induction rule: rreach.induct) (auto intro: list_origin_init list_origin_step)

subsection \<open>Properties of interleaved runs\<close>

text \<open>Splitting \<open>get_users\<close> at the table read gives back the handler: the
  cache lookup and query (lines 80-89) followed at once by the store and reply
  (lines 92-97) is \<open>get_users\<close>.\<close>

lemma get_users_split:
  "get_users w = (case get_users_query w of Inl res \<Rightarrow> res | Inr us \<Rightarrow> get_users_fill w us)"
proof (cases "r_get (cache w) (now_ms w) ''users:all''")
  case (Inl e)
  then show ?thesis by (simp add: get_users_def get_users_query_def)
next
  case (Inr c)
  show ?thesis
  proof (cases "cache_hit c")
    case True
    with Inr show ?thesis
      by (cases "json_loads (the c)") (simp_all add: get_users_def get_users_query_def)
  next
    case False
    with Inr show ?thesis
      by (cases "all_rows (database w)") (simp_all add: get_users_def get_users_query_def get_users_fill_def)
  qed
qed

text \<open>C24. The staleness of the cached list, with requests interleaved and servers
  going down: an alive \<open>users:all\<close> entry holds the rows of an earlier state \<open>s0\<close> of
  the run, stored at a state \<open>s1\<close> between \<open>s0\<close> and now, at most 300 seconds ago.
  The time from \<open>s0\<close> to \<open>s1\<close>, the duration of the list request, is not bounded by
  app.py.\<close>

theorem list_staleness_bound:
  assumes r: "rreach f s" and l: "lookup_alive (cache (sw s)) (now_ms (sw s)) ''users:all'' = Some v"
  shows "\<exists>s0 s1. rreach f s0 \<and> (rstep f)\<^sup>*\<^sup>* s0 s1 \<and> (rstep f)\<^sup>*\<^sup>* s1 s
           \<and> clock (sw s0) \<le> clock (sw s1) \<and> now_ms (sw s) \<le> now_ms (sw s1) + 300000
           \<and> v = json_dumps (users_json (rows (database (sw s0))))"
proof -
  from l obtain e where e: "kv (cache (sw s)) ''users:all'' = Some e" and al: "alive (now_ms (sw s)) e"
    and v: "v = val e" by (auto simp: lookup_alive_def split: option.splits if_splits)
  from rreach_list_origin [OF r] e obtain s0 s1 where o: "rreach f s0" "(rstep f)\<^sup>*\<^sup>* s0 s1" "(rstep f)\<^sup>*\<^sup>* s1 s"
    and ee: "e = list_entry (sw s1) (rows (database (sw s0)))" by (auto simp: list_origin_def)
  have "now_ms (sw s) \<le> now_ms (sw s1) + 300000" using al ee by (simp add: alive_def list_entry_def)
  moreover have "v = json_dumps (users_json (rows (database (sw s0))))" using v ee by (simp add: list_entry_def)
  ultimately show ?thesis using o rstar_clock [OF o(2)] by blast
qed

theorem list_staleness_bound_witness:
  "rreach False \<lparr>sw = fst (handle (init_world 0) ListUsers), pending = {#}\<rparr>
   \<and> lookup_alive (cache (fst (handle (init_world 0) ListUsers))) (now_ms (fst (handle (init_world 0) ListUsers))) ''users:all''
       = Some ''[]''
   \<and> (\<exists>s0 s1. rreach False s0 \<and> (rstep False)\<^sup>*\<^sup>* s0 s1
        \<and> (rstep False)\<^sup>*\<^sup>* s1 \<lparr>sw = fst (handle (init_world 0) ListUsers), pending = {#}\<rparr>
        \<and> clock (sw s0) \<le> clock (sw s1)
        \<and> now_ms (fst (handle (init_world 0) ListUsers)) \<le> now_ms (sw s1) + 300000
        \<and> ''[]'' = json_dumps (users_json (rows (database (sw s0)))))"
proof -
  let ?s0 = "\<lparr>sw = init_world 0, pending = {#}\<rparr>"
  have st: "rstep False ?s0 \<lparr>sw = fst (handle (init_world 0) ListUsers), pending = {#}\<rparr>"
    using rstep.request [of False ?s0 ListUsers] by simp
  have r: "rreach False \<lparr>sw = fst (handle (init_world 0) ListUsers), pending = {#}\<rparr>"
    by (rule rreach.step [OF rreach.init st])
  have l: "lookup_alive (cache (fst (handle (init_world 0) ListUsers))) (now_ms (fst (handle (init_world 0) ListUsers))) ''users:all''
       = Some ''[]''"
    by (simp add: eval_defs users_json_def)
  have l': "lookup_alive (cache (sw \<lparr>sw = fst (handle (init_world 0) ListUsers), pending = {#}\<rparr>))
      (now_ms (sw \<lparr>sw = fst (handle (init_world 0) ListUsers), pending = {#}\<rparr>)) ''users:all'' = Some ''[]''"
    using l by simp
  show ?thesis using r l list_staleness_bound [OF r l'] by simp
qed

text \<open>C25. The race is real and its staleness is not bounded by the time-to-live:
  without any outage, for every duration \<open>D\<close>, a run reaches a state whose table
  has a row created \<open>D\<close> microseconds ago while \<open>GET /api/users\<close> answers from the
  cache with the empty list. A list request reads the empty table; a create commits
  and deletes \<open>users:all\<close>; \<open>D\<close> passes; the list request stores the rows it read.\<close>

theorem stale_list_beyond_ttl:
  assumes D: "0 \<le> D"
  shows "\<exists>s. rreach False s \<and> (\<exists>u \<in> set (rows (database (sw s))). created_at u + D \<le> clock (sw s))
           \<and> get_users (sw s) = (sw s, ok 200 (JObj [(''users'', JArr []), (''from_cache'', JBool True)]))"
proof -
  define s0 where "s0 = \<lparr>sw = init_world 0, pending = {#}\<rparr>"
  define s1 where "s1 = s0\<lparr>pending := add_mset [] (pending s0)\<rparr>"
  define s2 where "s2 = s1\<lparr>sw := fst (handle (sw s1) (CreateUser demo_body))\<rparr>"
  define s3 where "s3 = s2\<lparr>sw := (sw s2)\<lparr>clock := clock (sw s2) + D\<rparr>\<rparr>"
  define s4 where "s4 = s3\<lparr>sw := fst (get_users_fill (sw s3) []), pending := pending s3 - {#[]#}\<rparr>"
  have q: "get_users_query (sw s0) = Inr []"
    by (simp add: s0_def get_users_query_def eval_defs)
  have r1: "rreach False s1" unfolding s1_def s0_def
    by (rule rreach.step [OF rreach.init rstep.list_begin]) (use q in \<open>simp add: s0_def\<close>)
  have r2: "rreach False s2" unfolding s2_def by (rule rreach.step [OF r1 rstep.request])
  have r3: "rreach False s3" unfolding s3_def by (rule rreach.step [OF r2 rstep.tick [OF D]])
  have p3: "[] \<in># pending s3" by (simp add: s3_def s2_def s1_def)
  have r4: "rreach False s4" unfolding s4_def by (rule rreach.step [OF r3 rstep.list_end [OF p3]])
  have w2: "sw s2 = \<lparr>database = \<lparr>rows = [\<lparr>uid = 1, username = ''bo'', email = ''bo@example.org'', created_at = 0\<rparr>],
                                next_id = 2, db_up = True\<rparr>,
                    cache = \<lparr>kv = Map.empty(''users:all'' := None), redis_up = True\<rparr>, clock = 0\<rparr>"
    by (simp add: s2_def s1_def s0_def eval_defs demo_defs Let_def)
  have w4: "sw s4 = \<lparr>database = \<lparr>rows = [\<lparr>uid = 1, username = ''bo'', email = ''bo@example.org'', created_at = 0\<rparr>],
                                next_id = 2, db_up = True\<rparr>,
                    cache = \<lparr>kv = (Map.empty(''users:all'' := None))(''users:all'' \<mapsto>
                               \<lparr>val = ''[]'', expire_at = Some (D div 1000 + 300000)\<rparr>), redis_up = True\<rparr>,
                    clock = D\<rparr>"
    by (simp add: s4_def s3_def w2 get_users_fill_def eval_defs)
  have g: "get_users (sw s4) = (sw s4, ok 200 (JObj [(''users'', JArr []), (''from_cache'', JBool True)]))"
    by (simp add: w4 eval_defs json_loads_def skip_ws_def is_ws_def)
  have "\<exists>u \<in> set (rows (database (sw s4))). created_at u + D \<le> clock (sw s4)" by (simp add: w4)
  with r4 g show ?thesis by blast
qed

theorem stale_list_beyond_ttl_witness:
  "(0::int) \<le> 3600000000
   \<and> (\<exists>s. rreach False s \<and> (\<exists>u \<in> set (rows (database (sw s))). created_at u + 3600000000 \<le> clock (sw s))
       \<and> get_users (sw s) = (sw s, ok 200 (JObj [(''users'', JArr []), (''from_cache'', JBool True)])))"
  using stale_list_beyond_ttl [of 3600000000] by simp

end
