(* ===== verification/Stats_Race.thy ===== *)
theory Stats_Race
  imports Policy "HOL-Library.Multiset"
begin

text \<open>
  \<open>get_stats\<close> (lines 180-207) talks to the servers five times: it looks up \<open>stats\<close>,
  counts the table (line 190), counts the recent rows (lines 191-193), reads
  \<open>cache:hits\<close> and stores the result. PostgreSQL runs each count in its own snapshot
  (READ COMMITTED, the default isolation of psycopg2's connections), and other
  requests may commit between them. Here \<open>get_stats\<close> is split at its two table reads
  into \<open>get_stats_total\<close> (lines 183-190), \<open>get_stats_recent\<close> (lines 191-193) and
  \<open>get_stats_fill\<close> (lines 195-205). A state is the world with the multiset of stats
  requests in progress; \<open>sstep f\<close> interleaves their phases with whole requests, clock
  moves and outages, as \<open>rstep\<close> of theory \<open>Race\<close> does for the list read.
\<close>

definition get_stats_total :: "world \<Rightarrow> (world \<times> response) + nat" where
  "get_stats_total w =
     (case r_get (cache w) (now_ms w) ''stats'' of
        Inl e \<Rightarrow> Inl (w, err 500 (RedisError e))
      | Inr cached \<Rightarrow>
          if cache_hit cached then
            (case json_loads (the cached) of
               None \<Rightarrow> Inl (w, err 500 JSONDecodeError)
             | Some v \<Rightarrow> Inl (w, ok 200 v))
          else
            (case count_rows (database w) of
               Inl e \<Rightarrow> Inl (w, err 500 (DbError e))
             | Inr tot \<Rightarrow> Inr tot))"

definition get_stats_recent :: "world \<Rightarrow> (world \<times> response) + nat" where
  "get_stats_recent w =
     (case count_since (database w) (clock w - week_usec) of
        Inl e \<Rightarrow> Inl (w, err 500 (DbError e))
      | Inr rec \<Rightarrow> Inr rec)"

definition get_stats_fill :: "world \<Rightarrow> nat \<Rightarrow> nat \<Rightarrow> world \<times> response" where
  "get_stats_fill w tot rec =
     (case r_get (cache w) (now_ms w) ''cache:hits'' of
        Inl e \<Rightarrow> (w, err 500 (RedisError e))
      | Inr hits \<Rightarrow>
          (case r_setex (cache w) (now_ms w) ''stats'' 60 (json_dumps (stats_of w tot rec hits)) of
             Inl e \<Rightarrow> (w, err 500 (RedisError e))
           | Inr c' \<Rightarrow> (w\<lparr>cache := c'\<rparr>, ok 200 (stats_of w tot rec hits))))"

text \<open>A stats request in progress: it has counted the table (\<open>Totalled tot\<close>), or
  both the table and the recent rows (\<open>Counted tot rec\<close>).\<close>

datatype stats_pc = Totalled nat | Counted nat nat

record snode =
  ssw :: world
  spending :: "stats_pc multiset"

inductive sstep :: "bool \<Rightarrow> snode \<Rightarrow> snode \<Rightarrow> bool" for f :: bool where
  request: "sstep f s (s\<lparr>ssw := fst (handle (ssw s) r)\<rparr>)"
| stats_begin: "get_stats_total (ssw s) = Inr tot \<Longrightarrow>
    sstep f s (s\<lparr>spending := add_mset (Totalled tot) (spending s)\<rparr>)"
| stats_count: "Totalled tot \<in># spending s \<Longrightarrow> get_stats_recent (ssw s) = Inr rec \<Longrightarrow>
    sstep f s (s\<lparr>spending := add_mset (Counted tot rec) (spending s - {#Totalled tot#})\<rparr>)"
| stats_end: "Counted tot rec \<in># spending s \<Longrightarrow>
    sstep f s (s\<lparr>ssw := fst (get_stats_fill (ssw s) tot rec), spending := spending s - {#Counted tot rec#}\<rparr>)"
| tick: "0 \<le> d \<Longrightarrow> sstep f s (s\<lparr>ssw := (ssw s)\<lparr>clock := clock (ssw s) + d\<rparr>\<rparr>)"
| db_avail: "sstep f s (s\<lparr>ssw := (ssw s)\<lparr>database := (database (ssw s))\<lparr>db_up := b\<rparr>\<rparr>\<rparr>)"
| redis_avail: "f \<or> b \<Longrightarrow> sstep f s (s\<lparr>ssw := (ssw s)\<lparr>cache := (cache (ssw s))\<lparr>redis_up := b\<rparr>\<rparr>\<rparr>)"

inductive sreach :: "bool \<Rightarrow> snode \<Rightarrow> bool" for f :: bool where
  init: "sreach f \<lparr>ssw = init_world t, spending = {#}\<rparr>"
| step: "sreach f s \<Longrightarrow> sstep f s s' \<Longrightarrow> sreach f s'"

text \<open>The number of rows the recent count of a state finds, and the entry the store
  phase writes in state \<open>w\<close> for counts \<open>tot\<close> and \<open>rec\<close>.\<close>

definition recent_count :: "world \<Rightarrow> nat" where
  "recent_count w = length (filter (\<lambda>r. clock w - week_usec \<le> created_at r) (rows (database w)))"

definition stats_entry_of :: "world \<Rightarrow> nat \<Rightarrow> nat \<Rightarrow> string option \<Rightarrow> entry" where
  "stats_entry_of w tot rec h =
     \<lparr>val = json_dumps (stats_of w tot rec h), expire_at = Some (now_ms w + 60000)\<rparr>"

text \<open>Where the \<open>stats\<close> entry and the counts in progress come from: the total of a
  state \<open>s0\<close>, the recent count of a later state \<open>s1\<close>, stored at a state \<open>s2\<close> after
  both.\<close>

definition stats_origin_i :: "bool \<Rightarrow> snode \<Rightarrow> bool" where
  "stats_origin_i f s \<longleftrightarrow>
     (\<forall>e. kv (cache (ssw s)) ''stats'' = Some e \<longrightarrow>
        (\<exists>s0 s1 s2 h. sreach f s0 \<and> (sstep f)\<^sup>*\<^sup>* s0 s1 \<and> (sstep f)\<^sup>*\<^sup>* s1 s2 \<and> (sstep f)\<^sup>*\<^sup>* s2 s
           \<and> e = stats_entry_of (ssw s2) (length (rows (database (ssw s0)))) (recent_count (ssw s1)) h))
     \<and> (\<forall>tot. Totalled tot \<in># spending s \<longrightarrow>
        (\<exists>s0. sreach f s0 \<and> (sstep f)\<^sup>*\<^sup>* s0 s \<and> tot = length (rows (database (ssw s0)))))
     \<and> (\<forall>tot rec. Counted tot rec \<in># spending s \<longrightarrow>
        (\<exists>s0 s1. sreach f s0 \<and> (sstep f)\<^sup>*\<^sup>* s0 s1 \<and> (sstep f)\<^sup>*\<^sup>* s1 s
           \<and> tot = length (rows (database (ssw s0))) \<and> rec = recent_count (ssw s1)))"

text \<open>The state a run reaches when a stats request counts the empty table, a create
  commits, and the request then counts one recent row and stores its reply.\<close>

definition stats_race_reply :: json where
  "stats_race_reply = JObj [(''total_users'', JInt 0), (''recent_users'', JInt 1),
                            (''timestamp'', JStr (isoformat 0)), (''cache_hits'', JInt 0)]"

definition stats_race_state :: snode where
  "stats_race_state =
     \<lparr>ssw = \<lparr>database = \<lparr>rows = [\<lparr>uid = 1, username = ''bo'', email = ''bo@example.org'', created_at = 0\<rparr>],
                          next_id = 2, db_up = True\<rparr>,
             cache = \<lparr>kv = Map.empty(''users:all'' := None, ''stats'' \<mapsto>
                              \<lparr>val = json_dumps stats_race_reply, expire_at = Some 60000\<rparr>),
                      redis_up = True\<rparr>,
             clock = 0\<rparr>,
      spending = {#}\<rparr>"

subsection \<open>The split handler\<close>

text \<open>The three phases run back to back are \<open>get_stats\<close>.\<close>

lemma get_stats_split:
  "get_stats w =
     (case get_stats_total w of
        Inl res \<Rightarrow> res
      | Inr tot \<Rightarrow> (case get_stats_recent w of Inl res \<Rightarrow> res | Inr rec \<Rightarrow> get_stats_fill w tot rec))"
  by (simp add: get_stats_def get_stats_total_def get_stats_recent_def get_stats_fill_def
      split: sum.split option.split)

lemma get_stats_total_Inr: "get_stats_total w = Inr tot \<Longrightarrow> tot = length (rows (database w))"
  by (auto simp: get_stats_total_def count_rows_def split: sum.splits if_splits option.splits)

lemma get_stats_recent_Inr: "get_stats_recent w = Inr rec \<Longrightarrow> rec = recent_count w"
  by (auto simp: get_stats_recent_def count_since_def recent_count_def split: sum.splits if_splits)

lemma get_stats_fill_cache:
  "get_stats_fill w tot rec = (w', resp) \<Longrightarrow>
     database w' = database w \<and> clock w' = clock w
     \<and> (kv (cache w') ''stats'' = kv (cache w) ''stats''
        \<or> (\<exists>h. kv (cache w') ''stats'' = Some (stats_entry_of w tot rec h)))"
  by (auto simp: get_stats_fill_def r_setex_def stats_entry_of_def split: sum.splits if_splits)

lemma stats_entry_atomic: "stats_entry w h = stats_entry_of w (length (rows (database w))) (recent_count w) h"
  by (simp add: stats_entry_def stats_entry_of_def stats_at_def recent_count_def)

text \<open>What one step does to the \<open>stats\<close> entry and to the requests in progress.\<close>

lemma sstep_stats_entry:
  "sstep f s s' \<Longrightarrow>
     kv (cache (ssw s')) ''stats'' = kv (cache (ssw s)) ''stats''
     \<or> (\<exists>h. kv (cache (ssw s')) ''stats'' = Some (stats_entry (ssw s) h))
     \<or> (\<exists>tot rec h. Counted tot rec \<in># spending s
          \<and> kv (cache (ssw s')) ''stats'' = Some (stats_entry_of (ssw s) tot rec h))"
proof (induction rule: sstep.induct)
  case (request s r)
  then show ?case using handle_stats [OF prod.collapse [symmetric], of "ssw s" r] by auto
next
  case (stats_end tot rec s)
  then show ?case using get_stats_fill_cache [OF prod.collapse [symmetric], of "ssw s" tot rec] by auto
qed simp_all

lemma sstep_totalled:
  "sstep f s s' \<Longrightarrow> Totalled tot \<in># spending s' \<Longrightarrow>
     Totalled tot \<in># spending s \<or> tot = length (rows (database (ssw s)))"
  by (induction rule: sstep.induct) (auto dest: get_stats_total_Inr in_diffD)

lemma sstep_counted:
  "sstep f s s' \<Longrightarrow> Counted tot rec \<in># spending s' \<Longrightarrow>
     Counted tot rec \<in># spending s \<or> (Totalled tot \<in># spending s \<and> rec = recent_count (ssw s))"
  by (induction rule: sstep.induct) (auto dest: get_stats_recent_Inr in_diffD)


subsection \<open>Where the statistics entry comes from\<close>

lemma stats_origin_i_init: "stats_origin_i f \<lparr>ssw = init_world t, spending = {#}\<rparr>"
  by (simp add: stats_origin_i_def init_world_def init_redis_def)

lemma stats_origin_i_step:
  assumes r: "sreach f s" and st: "sstep f s s'" and o: "stats_origin_i f s"
  shows "stats_origin_i f s'"
  unfolding stats_origin_i_def
proof (intro conjI allI impI)
  have one: "(sstep f)\<^sup>*\<^sup>* s s'" using st by (rule r_into_rtranclp)
  have refl: "(sstep f)\<^sup>*\<^sup>* s s" by (rule rtranclp.rtrancl_refl)
  fix e assume e: "kv (cache (ssw s')) ''stats'' = Some e"
  from sstep_stats_entry [OF st]
  show "\<exists>s0 s1 s2 h. sreach f s0 \<and> (sstep f)\<^sup>*\<^sup>* s0 s1 \<and> (sstep f)\<^sup>*\<^sup>* s1 s2 \<and> (sstep f)\<^sup>*\<^sup>* s2 s'
           \<and> e = stats_entry_of (ssw s2) (length (rows (database (ssw s0)))) (recent_count (ssw s1)) h"
  proof (elim disjE exE conjE)
    assume "kv (cache (ssw s')) ''stats'' = kv (cache (ssw s)) ''stats''"
    with e o obtain s0 s1 s2 h where "sreach f s0" "(sstep f)\<^sup>*\<^sup>* s0 s1" "(sstep f)\<^sup>*\<^sup>* s1 s2"
      "(sstep f)\<^sup>*\<^sup>* s2 s"
      "e = stats_entry_of (ssw s2) (length (rows (database (ssw s0)))) (recent_count (ssw s1)) h"
      by (auto simp: stats_origin_i_def)
    with st show ?thesis by (blast intro: rtranclp.rtrancl_into_rtrancl)
  next
    fix h assume "kv (cache (ssw s')) ''stats'' = Some (stats_entry (ssw s) h)"
    with e have "e = stats_entry_of (ssw s) (length (rows (database (ssw s)))) (recent_count (ssw s)) h"
      by (simp add: stats_entry_atomic)
    with r one refl show ?thesis by blast
  next
    fix tot rec h assume p: "Counted tot rec \<in># spending s"
      and k: "kv (cache (ssw s')) ''stats'' = Some (stats_entry_of (ssw s) tot rec h)"
    from p o obtain s0 s1 where "sreach f s0" "(sstep f)\<^sup>*\<^sup>* s0 s1" "(sstep f)\<^sup>*\<^sup>* s1 s"
      "tot = length (rows (database (ssw s0)))" "rec = recent_count (ssw s1)"
      unfolding stats_origin_i_def by blast
    moreover from e k have "e = stats_entry_of (ssw s) tot rec h" by simp
    ultimately show ?thesis using one by blast
  qed
next
  fix tot assume p: "Totalled tot \<in># spending s'"
  show "\<exists>s0. sreach f s0 \<and> (sstep f)\<^sup>*\<^sup>* s0 s' \<and> tot = length (rows (database (ssw s0)))"
    using sstep_totalled [OF st p]
  proof
    assume "Totalled tot \<in># spending s"
    with o obtain s0 where "sreach f s0" "(sstep f)\<^sup>*\<^sup>* s0 s" "tot = length (rows (database (ssw s0)))"
      unfolding stats_origin_i_def by blast
    with st show ?thesis by (blast intro: rtranclp.rtrancl_into_rtrancl)
  next
    assume "tot = length (rows (database (ssw s)))"
    with r st show ?thesis by (blast intro: r_into_rtranclp)
  qed
next
  fix tot rec assume p: "Counted tot rec \<in># spending s'"
  have one: "(sstep f)\<^sup>*\<^sup>* s s'" using st by (rule r_into_rtranclp)
  show "\<exists>s0 s1. sreach f s0 \<and> (sstep f)\<^sup>*\<^sup>* s0 s1 \<and> (sstep f)\<^sup>*\<^sup>* s1 s'
          \<and> tot = length (rows (database (ssw s0))) \<and> rec = recent_count (ssw s1)"
    using sstep_counted [OF st p]
  proof (elim disjE conjE)
    assume "Counted tot rec \<in># spending s"
    with o obtain s0 s1 where "sreach f s0" "(sstep f)\<^sup>*\<^sup>* s0 s1" "(sstep f)\<^sup>*\<^sup>* s1 s"
      "tot = length (rows (database (ssw s0)))" "rec = recent_count (ssw s1)"
      unfolding stats_origin_i_def by blast
    with st show ?thesis by (blast intro: rtranclp.rtrancl_into_rtrancl)
  next
    assume "Totalled tot \<in># spending s" and rc: "rec = recent_count (ssw s)"
    with o obtain s0 where "sreach f s0" "(sstep f)\<^sup>*\<^sup>* s0 s" "tot = length (rows (database (ssw s0)))"
      unfolding stats_origin_i_def by blast
    with rc one show ?thesis by blast
  qed
qed

lemma sreach_stats_origin: "sreach f s \<Longrightarrow> stats_origin_i f s"
  by (induction rule: sreach.induct) (auto intro: stats_origin_i_init stats_origin_i_step)


subsection \<open>Interleaved statistics\<close>

text \<open>C23. With statistics requests interleaved with other requests and outages, an
  alive \<open>stats\<close> entry was stored at most 60 seconds ago, at a state \<open>s2\<close>, from
  the total of a state \<open>s0\<close> and the recent count of a state \<open>s1\<close> between them.
  Neither the age of the counts nor their agreement with each other is bounded.\<close>

theorem stats_staleness_interleaved:
  assumes r: "sreach f s" and l: "lookup_alive (cache (ssw s)) (now_ms (ssw s)) ''stats'' = Some v"
  shows "\<exists>s0 s1 s2 h. sreach f s0 \<and> (sstep f)\<^sup>*\<^sup>* s0 s1 \<and> (sstep f)\<^sup>*\<^sup>* s1 s2 \<and> (sstep f)\<^sup>*\<^sup>* s2 s
           \<and> now_ms (ssw s) \<le> now_ms (ssw s2) + 60000
           \<and> v = json_dumps (stats_of (ssw s2) (length (rows (database (ssw s0)))) (recent_count (ssw s1)) h)"
proof -
  from l obtain e where e: "kv (cache (ssw s)) ''stats'' = Some e" and al: "alive (now_ms (ssw s)) e"
    and v: "v = val e" by (auto simp: lookup_alive_def split: option.splits if_splits)
  from sreach_stats_origin [OF r] e obtain s0 s1 s2 h where o: "sreach f s0" "(sstep f)\<^sup>*\<^sup>* s0 s1"
    "(sstep f)\<^sup>*\<^sup>* s1 s2" "(sstep f)\<^sup>*\<^sup>* s2 s"
    and ee: "e = stats_entry_of (ssw s2) (length (rows (database (ssw s0)))) (recent_count (ssw s1)) h"
    by (auto simp: stats_origin_i_def)
  have "now_ms (ssw s) \<le> now_ms (ssw s2) + 60000" using al ee by (simp add: alive_def stats_entry_of_def)
  with o v ee show ?thesis by (auto simp: stats_entry_of_def)
qed

text \<open>The run behind \<open>stats_race_state\<close>.\<close>

lemma stats_race_reach: "sreach False stats_race_state"
proof -
  define s0 where "s0 = \<lparr>ssw = init_world 0, spending = {#}\<rparr>"
  define s1 where "s1 = s0\<lparr>spending := add_mset (Totalled 0) (spending s0)\<rparr>"
  define s2 where "s2 = s1\<lparr>ssw := fst (handle (ssw s1) (CreateUser demo_body))\<rparr>"
  define s3 where "s3 = s2\<lparr>spending := add_mset (Counted 0 1) (spending s2 - {#Totalled 0#})\<rparr>"
  define s4 where "s4 = s3\<lparr>ssw := fst (get_stats_fill (ssw s3) 0 1), spending := spending s3 - {#Counted 0 1#}\<rparr>"
  have t: "get_stats_total (ssw s0) = Inr 0"
    by (simp add: s0_def get_stats_total_def eval_defs count_rows_def)
  have r1: "sreach False s1" unfolding s1_def s0_def
    by (rule sreach.step [OF sreach.init sstep.stats_begin]) (use t in \<open>simp add: s0_def\<close>)
  have r2: "sreach False s2" unfolding s2_def by (rule sreach.step [OF r1 sstep.request])
  have w2: "ssw s2 = \<lparr>database = \<lparr>rows = [\<lparr>uid = 1, username = ''bo'', email = ''bo@example.org'', created_at = 0\<rparr>],
                                next_id = 2, db_up = True\<rparr>,
                    cache = \<lparr>kv = Map.empty(''users:all'' := None), redis_up = True\<rparr>, clock = 0\<rparr>"
    by (simp add: s2_def s1_def s0_def eval_defs demo_defs Let_def)
  have c: "get_stats_recent (ssw s2) = Inr 1"
    by (simp add: w2 get_stats_recent_def count_since_def week_usec_def usec_per_day_def)
  have p2: "Totalled 0 \<in># spending s2" by (simp add: s2_def s1_def)
  have r3: "sreach False s3" unfolding s3_def by (rule sreach.step [OF r2 sstep.stats_count [OF p2 c]])
  have p3: "Counted 0 1 \<in># spending s3" by (simp add: s3_def)
  have r4: "sreach False s4" unfolding s4_def by (rule sreach.step [OF r3 sstep.stats_end [OF p3]])
  have v: "stats_of (ssw s3) 0 1 None = stats_race_reply"
    by (simp add: s3_def w2 stats_of_def cache_hit_def stats_race_reply_def)
  have "ssw s4 = ssw stats_race_state"
    by (simp add: s4_def s3_def w2 get_stats_fill_def r_get_def r_setex_def lookup_alive_def now_ms_def
        stats_race_state_def flip: v)
  moreover have "spending s4 = spending stats_race_state"
    by (simp add: s4_def s3_def s2_def s1_def s0_def stats_race_state_def)
  ultimately have "s4 = stats_race_state" by simp
  with r4 show ?thesis by simp
qed

lemma stats_race_get_stats:
  "get_stats (ssw stats_race_state) = (ssw stats_race_state, ok 200 stats_race_reply)"
proof -
  have rt: "json_loads (json_dumps stats_race_reply) = Some stats_race_reply"
    by (rule json_roundtrip) (simp add: stats_race_reply_def)
  show ?thesis
    by (simp add: get_stats_def stats_race_state_def r_get_def lookup_alive_def alive_def now_ms_def
        cache_hit_def rt json_dumps_nonempty del: json_dumps.simps)
qed

theorem stats_staleness_interleaved_witness:
  "sreach False stats_race_state
   \<and> lookup_alive (cache (ssw stats_race_state)) (now_ms (ssw stats_race_state)) ''stats''
       = Some (json_dumps stats_race_reply)
   \<and> (\<exists>s0 s1 s2 h. sreach False s0 \<and> (sstep False)\<^sup>*\<^sup>* s0 s1 \<and> (sstep False)\<^sup>*\<^sup>* s1 s2
        \<and> (sstep False)\<^sup>*\<^sup>* s2 stats_race_state
        \<and> now_ms (ssw stats_race_state) \<le> now_ms (ssw s2) + 60000
        \<and> json_dumps stats_race_reply
            = json_dumps (stats_of (ssw s2) (length (rows (database (ssw s0)))) (recent_count (ssw s1)) h))"
proof -
  have l: "lookup_alive (cache (ssw stats_race_state)) (now_ms (ssw stats_race_state)) ''stats''
             = Some (json_dumps stats_race_reply)"
    by (simp add: stats_race_state_def lookup_alive_def alive_def now_ms_def del: json_dumps.simps)
  show ?thesis using stats_race_reach l stats_staleness_interleaved [OF stats_race_reach l] by blast
qed

text \<open>C26. The two counts of a statistics reply can disagree: a stats request counts
  the empty table, a create commits, the stats request counts one recent row and
  stores \<open>{"total_users": 0, "recent_users": 1}\<close>, which \<open>GET /api/stats\<close> then serves
  from the cache for a minute. With requests atomic, \<open>recent_users \<le> total_users\<close>
  always (\<open>stats_at\<close> counts a filter of the rows it counts).\<close>

theorem stats_recent_exceeds_total:
  "\<exists>s. sreach False s
     \<and> get_stats (ssw s) = (ssw s, ok 200 (JObj [(''total_users'', JInt 0), (''recent_users'', JInt 1),
                                (''timestamp'', JStr (isoformat 0)), (''cache_hits'', JInt 0)]))"
  using stats_race_reach stats_race_get_stats unfolding stats_race_reply_def by blast

end
