(* ===== verification/Handler_Properties.thy ===== *)
theory Handler_Properties
  imports Handlers
begin

text \<open>
  Properties of single requests: what each handler of app.py does to the table and
  the cache on every branch, its errors included, each instantiated on the sample
  state of \<open>Handlers\<close> by a witness. The properties of whole runs are in
  \<open>Policy\<close> and \<open>Race\<close>.
\<close>

subsection \<open>Properties of the service\<close>

text \<open>C3. A write that succeeds leaves the cache reachable and no live \<open>users:all\<close>
  entry at any time: \<open>create_user\<close>, \<open>update_user\<close> and \<open>delete_user\<close> (app.py
  lines 129, 154, 173) delete the list entry after their commit.\<close>

theorem write_invalidates_users_cache:
  "is_write r \<Longrightarrow> handle w r = (w', resp) \<Longrightarrow> status resp < 300 \<Longrightarrow>
     redis_up (cache w') \<and> lookup_alive (cache w') t ''users:all'' = None"
  by (drule (1) handle_write_effect) (auto simp: write_effect_def lookup_alive_delete)

theorem write_invalidates_users_cache_witness:
  "is_write (CreateUser (Inr (JObj [(''username'', JStr ''al''), (''email'', JStr ''a@x'')])))
   \<and> status (snd (handle (init_world 0) (CreateUser (Inr (JObj [(''username'', JStr ''al''), (''email'', JStr ''a@x'')]))))) < 300
   \<and> redis_up (cache (fst (handle (init_world 0) (CreateUser (Inr (JObj [(''username'', JStr ''al''), (''email'', JStr ''a@x'')]))))))
   \<and> lookup_alive (cache (fst (handle (init_world 0) (CreateUser (Inr (JObj [(''username'', JStr ''al''), (''email'', JStr ''a@x'')])))))) 0 ''users:all'' = None"
proof -
  let ?r = "CreateUser (Inr (JObj [(''username'', JStr ''al''), (''email'', JStr ''a@x'')]))"
  have s: "status (snd (handle (init_world 0) ?r)) = 201"
    by (simp add: eval_defs Let_def)
  show ?thesis
    using write_invalidates_users_cache [of ?r "init_world 0" "fst (handle (init_world 0) ?r)"
        "snd (handle (init_world 0) ?r)" 0] s by simp
qed

text \<open>C4. A write that fails (status 300 or more) leaves the cache untouched, and, when the
  cache is reachable, leaves the table's rows untouched: the error branches of the
  write handlers roll back (lines 134-137, 159-162, 175-178) and reach no cache call.\<close>

theorem failed_write_keeps_cache:
  "is_write r \<Longrightarrow> handle w r = (w', resp) \<Longrightarrow> 300 \<le> status resp \<Longrightarrow>
     cache w' = cache w \<and> (redis_up (cache w) \<longrightarrow> rows (database w') = rows (database w))"
  by (drule (1) handle_write_effect) (auto simp: write_effect_def)

theorem failed_write_keeps_cache_witness:
  "is_write (CreateUser (Inr (JObj [(''username'', JStr ''al'')])))
   \<and> 300 \<le> status (snd (handle (init_world 0) (CreateUser (Inr (JObj [(''username'', JStr ''al'')])))))
   \<and> cache (fst (handle (init_world 0) (CreateUser (Inr (JObj [(''username'', JStr ''al'')]))))) = cache (init_world 0)
   \<and> rows (database (fst (handle (init_world 0) (CreateUser (Inr (JObj [(''username'', JStr ''al'')])))))) = []"
proof -
  let ?r = "CreateUser (Inr (JObj [(''username'', JStr ''al'')]))"
  have s: "status (snd (handle (init_world 0) ?r)) = 400"
    by (simp add: eval_defs)
  have "redis_up (cache (init_world 0))" by (simp add: eval_defs)
  then show ?thesis
    using failed_write_keeps_cache [of ?r "init_world 0" "fst (handle (init_world 0) ?r)"
        "snd (handle (init_world 0) ?r)"] s by (simp add: eval_defs)
qed

text \<open>C5. After \<open>GET /api/users\<close> answered from the database, the same request within
  the 300 seconds of the entry's time-to-live is answered from the cache, with the
  same list and \<open>from_cache\<close> true (lines 80-85, 92).\<close>

theorem get_users_second_call_cached:
  "get_users w = (w1, r1) \<Longrightarrow> body r1 = JObj [(''users'', v), (''from_cache'', JBool False)] \<Longrightarrow>
     t div 1000 \<le> clock w div 1000 + 300000 \<Longrightarrow>
     get_users (w1\<lparr>clock := t\<rparr>) = (w1\<lparr>clock := t\<rparr>, ok 200 (JObj [(''users'', v), (''from_cache'', JBool True)]))"
  by (drule (1) get_users_miss)
     (auto simp: get_users_def r_setex_Inr r_get_def lookup_alive_setex_same now_ms_def cache_hit_def
        json_dumps_nonempty users_json_roundtrip)

theorem get_users_second_call_cached_witness:
  "body (snd (get_users demo_world)) = JObj [(''users'', users_json [demo_user]), (''from_cache'', JBool False)]
   \<and> (5000::int) div 1000 \<le> clock demo_world div 1000 + 300000
   \<and> get_users ((fst (get_users demo_world))\<lparr>clock := 5000\<rparr>)
       = ((fst (get_users demo_world))\<lparr>clock := 5000\<rparr>,
          ok 200 (JObj [(''users'', users_json [demo_user]), (''from_cache'', JBool True)]))"
proof -
  have b: "body (snd (get_users demo_world)) = JObj [(''users'', users_json [demo_user]), (''from_cache'', JBool False)]"
    by (simp add: eval_defs demo_defs del: users_json_def to_dict_def)
  have t: "(5000::int) div 1000 \<le> clock demo_world div 1000 + 300000" by (simp add: demo_defs)
  show ?thesis using b t get_users_second_call_cached [OF surjective_pairing b t] by simp
qed

text \<open>C6. Once the 300 seconds of the entry have passed, \<open>GET /api/users\<close> reads the
  table again and returns its current rows with \<open>from_cache\<close> false.\<close>

theorem get_users_recomputes_after_ttl:
  assumes first: "get_users w = (w1, r1)" and miss: "body r1 = JObj [(''users'', v), (''from_cache'', JBool False)]"
    and late: "clock w div 1000 + 300000 < t div 1000"
  shows "snd (get_users (w1\<lparr>clock := t\<rparr>))
           = ok 200 (JObj [(''users'', users_json (rows (database w))), (''from_cache'', JBool False)])"
proof -
  from get_users_miss [OF first miss] have d: "database w1 = database w" and dbu: "db_up (database w)"
    and s: "r_setex (cache w) (now_ms w) ''users:all'' 300 (json_dumps v) = Inr (cache w1)" by auto
  from s have up: "redis_up (cache w)"
    and c1: "cache w1 = (cache w)\<lparr>kv := (kv (cache w))(''users:all'' \<mapsto>
                \<lparr>val = json_dumps v, expire_at = Some (now_ms w + 300 * 1000)\<rparr>)\<rparr>"
    by (simp_all add: r_setex_Inr)
  have none: "lookup_alive (cache w1) (t div 1000) ''users:all'' = None"
    using c1 late by (simp add: lookup_alive_setex_same now_ms_def)
  show ?thesis using up c1 none dbu d
    by (simp add: get_users_def r_get_def now_ms_def cache_hit_def all_rows_def r_setex_def)
qed

theorem get_users_recomputes_after_ttl_witness:
  "body (snd (get_users demo_world)) = JObj [(''users'', users_json [demo_user]), (''from_cache'', JBool False)]
   \<and> clock demo_world div 1000 + 300000 < (400000000::int) div 1000
   \<and> snd (get_users ((fst (get_users demo_world))\<lparr>clock := 400000000\<rparr>))
       = ok 200 (JObj [(''users'', users_json (rows (database demo_world))), (''from_cache'', JBool False)])"
proof -
  have b: "body (snd (get_users demo_world)) = JObj [(''users'', users_json [demo_user]), (''from_cache'', JBool False)]"
    by (simp add: eval_defs demo_defs del: users_json_def to_dict_def)
  have t: "clock demo_world div 1000 + 300000 < (400000000::int) div 1000" by (simp add: demo_defs)
  show ?thesis using b t get_users_recomputes_after_ttl [OF surjective_pairing b t] by simp
qed

text \<open>C7. On a cache miss, \<open>GET /api/stats\<close> reports the number of rows, the number
  created in the last seven days and the raw \<open>cache:hits\<close> value, and stores that
  reply under \<open>stats\<close> for 60 seconds (lines 185-205).\<close>

theorem get_stats_miss_counts:
  assumes up: "redis_up (cache w)" and dbu: "db_up (database w)"
    and miss: "lookup_alive (cache w) (now_ms w) ''stats'' = None" and h: "get_stats w = (w', resp)"
  shows "resp = ok 200 (stats_of w (length (rows (database w)))
                  (length (filter (\<lambda>r. clock w - week_usec \<le> created_at r) (rows (database w))))
                  (lookup_alive (cache w) (now_ms w) ''cache:hits''))
         \<and> (\<forall>t \<le> now_ms w + 60000. lookup_alive (cache w') t ''stats'' = Some (json_dumps (body resp)))"
  using up dbu miss h
  by (auto simp: get_stats_def r_get_def cache_hit_def count_rows_def count_since_def r_setex_def
      lookup_alive_setex_same)

theorem get_stats_miss_counts_witness:
  "redis_up (cache demo_world) \<and> db_up (database demo_world)
   \<and> lookup_alive (cache demo_world) (now_ms demo_world) ''stats'' = None
   \<and> snd (get_stats demo_world) = ok 200 (stats_of demo_world 1 1 None)"
proof -
  have h: "redis_up (cache demo_world)" "db_up (database demo_world)"
    "lookup_alive (cache demo_world) (now_ms demo_world) ''stats'' = None"
    by (simp_all add: eval_defs demo_defs)
  have "filter (\<lambda>r. clock demo_world - week_usec \<le> created_at r) (rows (database demo_world)) = [demo_user]"
    by (simp add: demo_defs week_usec_def usec_per_day_def)
  then show ?thesis using h get_stats_miss_counts [OF h surjective_pairing]
    by (simp add: demo_defs eval_defs)
qed

text \<open>C22. No write touches the \<open>stats\<close> entry: the writes delete only \<open>users:all\<close>,
  so a cached statistics reply survives every create, update and delete.\<close>

theorem writes_keep_stats_entry:
  "is_write r \<Longrightarrow> handle w r = (w', resp) \<Longrightarrow> kv (cache w') ''stats'' = kv (cache w) ''stats''"
  by (drule (1) handle_write_effect) (auto simp: write_effect_def)

theorem writes_keep_stats_entry_witness:
  "is_write (CreateUser demo_body)
   \<and> kv (cache (fst (handle demo_world (CreateUser demo_body)))) ''stats'' = kv (cache demo_world) ''stats''"
  using writes_keep_stats_entry [of "CreateUser demo_body" demo_world
      "fst (handle demo_world (CreateUser demo_body))" "snd (handle demo_world (CreateUser demo_body))"]
  by simp

text \<open>C10. A create that returns 201 stores the row under the next id of the sequence, with
  the submitted username and e-mail as their \<open>varchar\<close> columns receive them (the
  submitted strings when they fit) and the current time, and \<open>GET /api/users/<id>\<close>
  then returns that row.\<close>

theorem create_then_get:
  assumes wf: "wf_world w" and c: "create_user w (Inr (JObj kvs)) = (w1, r1)" and s: "status r1 = 201"
  shows "\<exists>u. body r1 = JObj [(''message'', JStr ''User created successfully''), (''user'', to_dict u)]
           \<and> uid u = next_id (database w) \<and> created_at u = clock w
           \<and> column_value 80 (py_get kvs ''username'') = Inr (Some (username u))
           \<and> column_value 120 (py_get kvs ''email'') = Inr (Some (email u))
           \<and> get_user w1 (uid u) = (w1, ok 200 (to_dict u))"
proof -
  from c s obtain d' u where ins: "insert_row (database w) (py_get kvs ''username'') (py_get kvs ''email'') (clock w) = (d', Inr u)"
    and inv: "invalidate_then w d'
       (ok 201 (JObj [(''message'', JStr ''User created successfully''), (''user'', to_dict u)])) = (w1, r1)"
    by (auto simp: create_user_def split: if_splits prod.splits sum.splits)
  from ins have d': "d' = (database w)\<lparr>next_id := Suc (next_id (database w)), rows := rows (database w) @ [u]\<rparr>"
    and facts: "db_up (database w)" "uid u = next_id (database w)" "created_at u = clock w"
      "column_value 80 (py_get kvs ''username'') = Inr (Some (username u))"
      "column_value 120 (py_get kvs ''email'') = Inr (Some (email u))"
    by (simp_all add: insert_row_Inr)
  from inv s have w1: "database w1 = d'" and r1: "body r1 = JObj [(''message'', JStr ''User created successfully''), (''user'', to_dict u)]"
    by (auto dest!: invalidate_then_cases)
  have fresh: "\<forall>r \<in> set (rows (database w)). uid r \<noteq> uid u"
    using wf facts(2) by (auto simp: wf_world_def db_inv_def list_all_iff)
  then have "find (\<lambda>r. uid r = uid u) (rows (database w)) = None"
    by (auto simp: find_None_iff)
  then have "find (\<lambda>r. uid r = uid u) (rows (database w) @ [u]) = Some u"
    by (simp add: find_append_eq)
  then have "get_user w1 (uid u) = (w1, ok 200 (to_dict u))"
    using w1 d' facts(1) by (simp add: get_user_def get_row_def)
  with r1 facts show ?thesis by blast
qed

theorem create_then_get_witness:
  "wf_world demo_world \<and> status (snd (create_user demo_world (Inr (JObj demo_kvs)))) = 201
   \<and> (\<exists>u. body (snd (create_user demo_world (Inr (JObj demo_kvs))))
              = JObj [(''message'', JStr ''User created successfully''), (''user'', to_dict u)]
         \<and> uid u = next_id (database demo_world) \<and> created_at u = clock demo_world
         \<and> column_value 80 (py_get demo_kvs ''username'') = Inr (Some (username u))
         \<and> column_value 120 (py_get demo_kvs ''email'') = Inr (Some (email u))
         \<and> get_user (fst (create_user demo_world (Inr (JObj demo_kvs)))) (uid u)
            = (fst (create_user demo_world (Inr (JObj demo_kvs))), ok 200 (to_dict u)))"
proof -
  have w: "wf_world demo_world" by (simp add: eval_defs demo_defs)
  have s: "status (snd (create_user demo_world (Inr (JObj demo_kvs)))) = 201"
    by (simp add: eval_defs demo_defs Let_def del: to_dict_def)
  show ?thesis using w s create_then_get [OF w surjective_pairing s] by blast
qed

text \<open>C11. A create whose username or e-mail is already taken fails (the unique constraint
  raises \<open>IntegrityError\<close>, line 126) and leaves the rows and the cache unchanged.\<close>

theorem create_duplicate_rejected:
  assumes wf: "wf_world w" and u: "u \<in> set (rows (database w))"
    and dup: "py_get kvs ''username'' = JStr (username u) \<or> py_get kvs ''email'' = JStr (email u)"
    and c: "create_user w (Inr (JObj kvs)) = (w1, r1)"
  shows "400 \<le> status r1 \<and> rows (database w1) = rows (database w) \<and> cache w1 = cache w"
proof -
  have no: "insert_row (database w) (py_get kvs ''username'') (py_get kvs ''email'') (clock w) \<noteq> (d', Inr u')"
    for d' u'
    using u dup wf by (auto simp: insert_row_Inr column_value_def wf_world_def db_inv_def list_all_iff)
  from c no show ?thesis
    by (auto simp: create_user_def split: if_splits prod.splits sum.splits dest: insert_row_Inl)
qed

theorem create_duplicate_rejected_witness:
  "wf_world demo_world \<and> demo_user \<in> set (rows (database demo_world))
   \<and> py_get [(''username'', JStr ''al''), (''email'', JStr ''x@example.org'')] ''username'' = JStr (username demo_user)
   \<and> 400 \<le> status (snd (create_user demo_world (Inr (JObj [(''username'', JStr ''al''), (''email'', JStr ''x@example.org'')]))))
   \<and> rows (database (fst (create_user demo_world (Inr (JObj [(''username'', JStr ''al''), (''email'', JStr ''x@example.org'')]))))) = [demo_user]"
proof -
  have w: "wf_world demo_world" by (simp add: eval_defs demo_defs)
  have u: "demo_user \<in> set (rows (database demo_world))" by (simp add: demo_defs)
  have d: "py_get [(''username'', JStr ''al''), (''email'', JStr ''x@example.org'')] ''username'' = JStr (username demo_user)"
    by (simp add: py_get_def dict_get_def demo_defs)
  show ?thesis using w u d create_duplicate_rejected [OF w u disjI1 [OF d] surjective_pairing]
    by (simp add: demo_defs)
qed

text \<open>C12. An update or delete of an id with no row answers 500 with the not-found text,
  not 404: \<open>get_or_404\<close> raises inside the \<open>try\<close> whose \<open>except Exception\<close>
  turns it into a 500 (lines 141, 159-162, 166, 175-178); the state is unchanged.\<close>

theorem missing_id_write_is_500:
  "db_up (database w) \<Longrightarrow> i \<notin> uid ` set (rows (database w)) \<Longrightarrow>
     delete_user w i = (w, err 500 HttpNotFound) \<and> update_user w i b = (w, err 500 HttpNotFound)"
proof -
  assume "db_up (database w)" "i \<notin> uid ` set (rows (database w))"
  then have "get_row (database w) i = Inr None" by (simp add: get_row_None)
  then show ?thesis by (simp add: delete_user_def update_user_def)
qed

theorem missing_id_write_is_500_witness:
  "db_up (database demo_world) \<and> (7::nat) \<notin> uid ` set (rows (database demo_world))
   \<and> delete_user demo_world 7 = (demo_world, err 500 HttpNotFound)"
proof -
  have h: "db_up (database demo_world)" "(7::nat) \<notin> uid ` set (rows (database demo_world))"
    by (simp_all add: demo_defs)
  show ?thesis using h missing_id_write_is_500 [OF h, of "Inl HttpBadRequest"] by simp
qed

text \<open>C13. After a successful delete of a row, \<open>GET /api/users/<id>\<close> answers 404.\<close>

theorem delete_then_get_404:
  assumes wf: "wf_world w" and up: "redis_up (cache w)" and dbu: "db_up (database w)"
    and u: "u \<in> set (rows (database w))" and del: "delete_user w (uid u) = (w1, r1)"
  shows "status r1 = 200 \<and> get_user w1 (uid u) = (w1, err 404 HttpNotFound)"
proof -
  have "find (\<lambda>r. uid r = uid u) (rows (database w)) \<noteq> None" using u by (auto simp: find_None_iff)
  then obtain x where x: "get_row (database w) (uid u) = Inr (Some x)"
    using dbu by (auto simp: get_row_def)
  then have ux: "uid x = uid u" by (auto dest: get_row_Some)
  let ?d' = "(database w)\<lparr>rows := filter (\<lambda>r. uid r \<noteq> uid x) (rows (database w))\<rparr>"
  have "delete_user w (uid u) = invalidate_then w ?d' (ok 200 (JObj [(''message'', JStr ''User deleted successfully'')]))"
    using x dbu by (simp add: delete_user_def delete_row_def)
  with del up have r1: "status r1 = 200" and w1: "database w1 = ?d'"
    by (auto dest!: invalidate_then_cases)
  have "get_row (database w1) (uid u) = Inr None"
    using w1 ux dbu by (auto simp: get_row_def find_None_iff)
  then show ?thesis using r1 by (simp add: get_user_def)
qed

theorem delete_then_get_404_witness:
  "wf_world demo_world \<and> redis_up (cache demo_world) \<and> db_up (database demo_world)
   \<and> demo_user \<in> set (rows (database demo_world))
   \<and> status (snd (delete_user demo_world 1)) = 200
   \<and> get_user (fst (delete_user demo_world 1)) 1 = (fst (delete_user demo_world 1), err 404 HttpNotFound)"
proof -
  have h: "wf_world demo_world" "redis_up (cache demo_world)" "db_up (database demo_world)"
    "demo_user \<in> set (rows (database demo_world))"
    by (simp_all add: eval_defs demo_defs)
  have i: "uid demo_user = 1" by (simp add: demo_user_def)
  show ?thesis using h delete_then_get_404 [OF h surjective_pairing] by (simp add: i)
qed

text \<open>C14. \<open>GET /health\<close> always answers 200, reports each dependency as healthy or with
  the probe's error, and is healthy overall exactly when both probes succeed (lines 47-72).\<close>

theorem health_reports_both_probes:
  "health_check w =
     (w, ok 200 (JObj
        [(''status'', JStr (if db_up (database w) \<and> redis_up (cache w) then ''healthy'' else ''degraded'')),
         (''service'', JStr ''backend''),
         (''timestamp'', JStr (isoformat (clock w))),
         (''checks'', JObj
            [(''database'', JStr (if db_up (database w) then ''healthy''
                                 else ''unhealthy: '' @ exc_msg (DbError OperationalError))),
             (''redis'', JStr (if redis_up (cache w) then ''healthy''
                              else ''unhealthy: '' @ exc_msg (RedisError ConnectionError)))])]))"
  by (simp add: health_check_def probe_def select_one_def r_ping_def Let_def)

text \<open>C17. When Redis does not answer, \<open>GET /api/users\<close> and \<open>GET /api/stats\<close> fail
  with 500 instead of falling back to the database: the \<open>cache.get\<close> is inside the
  \<open>try\<close> whose handler answers 500 (lines 80, 96-99, 185, 206-207).\<close>

theorem reads_fail_when_redis_down:
  "\<not> redis_up (cache w) \<Longrightarrow>
     get_users w = (w, err 500 (RedisError ConnectionError))
     \<and> get_stats w = (w, err 500 (RedisError ConnectionError))"
  by (simp add: get_users_def get_stats_def r_get_def)

theorem reads_fail_when_redis_down_witness:
  "\<not> redis_up (cache (demo_world\<lparr>cache := init_redis\<lparr>redis_up := False\<rparr>\<rparr>))
   \<and> get_users (demo_world\<lparr>cache := init_redis\<lparr>redis_up := False\<rparr>\<rparr>)
       = (demo_world\<lparr>cache := init_redis\<lparr>redis_up := False\<rparr>\<rparr>, err 500 (RedisError ConnectionError))"
proof -
  have h: "\<not> redis_up (cache (demo_world\<lparr>cache := init_redis\<lparr>redis_up := False\<rparr>\<rparr>))" by simp
  show ?thesis using h reads_fail_when_redis_down [OF h] by simp
qed

text \<open>C18. When Redis does not answer, a valid create commits the row and then answers 500:
  the \<open>cache.delete\<close> after the commit raises (lines 126-129, 134-137).\<close>

theorem create_commits_despite_redis_down:
  assumes down: "\<not> redis_up (cache w)"
    and ins: "insert_row (database w) (py_get kvs ''username'') (py_get kvs ''email'') (clock w) = (d', Inr u)"
    and vu: "py_truthy (py_get kvs ''username'')" and ve: "py_truthy (py_get kvs ''email'')"
  shows "create_user w (Inr (JObj kvs)) = (w\<lparr>database := d'\<rparr>, err 500 (RedisError ConnectionError))
         \<and> rows d' = rows (database w) @ [u]"
proof
  show "create_user w (Inr (JObj kvs)) = (w\<lparr>database := d'\<rparr>, err 500 (RedisError ConnectionError))"
    using ins vu ve down by (simp add: create_user_def invalidate_then_def r_delete_def)
  show "rows d' = rows (database w) @ [u]" using ins by (simp add: insert_row_Inr)
qed

theorem create_commits_despite_redis_down_witness:
  "\<not> redis_up (cache (demo_world\<lparr>cache := init_redis\<lparr>redis_up := False\<rparr>\<rparr>))
   \<and> create_user (demo_world\<lparr>cache := init_redis\<lparr>redis_up := False\<rparr>\<rparr>) demo_body
       = (demo_world\<lparr>cache := init_redis\<lparr>redis_up := False\<rparr>,
            database := \<lparr>rows = [demo_user, \<lparr>uid = 2, username = ''bo'', email = ''bo@example.org'', created_at = 0\<rparr>],
                         next_id = 3, db_up = True\<rparr>\<rparr>,
          err 500 (RedisError ConnectionError))"
proof -
  let ?w = "demo_world\<lparr>cache := init_redis\<lparr>redis_up := False\<rparr>\<rparr>"
  let ?kvs = "[(''username'', JStr ''bo''), (''email'', JStr ''bo@example.org'')]"
  let ?u = "\<lparr>uid = 2, username = ''bo'', email = ''bo@example.org'', created_at = 0\<rparr>"
  have h: "\<not> redis_up (cache ?w)" by simp
  have ins: "insert_row (database ?w) (py_get ?kvs ''username'') (py_get ?kvs ''email'') (clock ?w)
             = ((database ?w)\<lparr>next_id := 3, rows := [demo_user, ?u]\<rparr>, Inr ?u)"
    by (simp add: eval_defs demo_defs Let_def)
  have t: "py_truthy (py_get ?kvs ''username'')" "py_truthy (py_get ?kvs ''email'')"
    by (simp_all add: py_get_def dict_get_def)
  show ?thesis using h create_commits_despite_redis_down [OF h ins t]
    by (simp add: demo_defs)
qed

text \<open>C20. An update never changes the ids or the creation times of the rows.\<close>

theorem update_keeps_id_and_created_at:
  "wf_world w \<Longrightarrow>
     map uid (rows (database (fst (update_user w i b)))) = map uid (rows (database w))
     \<and> map created_at (rows (database (fst (update_user w i b)))) = map created_at (rows (database w))"
  using update_user_db [of w i b "fst (update_user w i b)" "snd (update_user w i b)"]
  by (auto simp: wf_world_def db_inv_def dest: update_row_keeps update_row_created_at get_row_Some)

theorem update_keeps_id_and_created_at_witness:
  "wf_world demo_world
   \<and> map uid (rows (database (fst (update_user demo_world 1 (Inr (JObj [(''username'', JStr ''cy'')]))))))
       = map uid (rows (database demo_world))"
proof -
  have w: "wf_world demo_world" by (simp add: eval_defs demo_defs)
  show ?thesis using w update_keeps_id_and_created_at [OF w] by simp
qed

text \<open>C21. An update whose body names neither field (\<open>{}\<close>, or a JSON string)
  answers 200, commits nothing new and still invalidates \<open>users:all\<close>.\<close>

theorem update_without_fields_succeeds:
  "get_row (database w) i = Inr (Some u) \<Longrightarrow> redis_up (cache w) \<Longrightarrow> update_fields j = Inr (None, None) \<Longrightarrow>
     update_user w i (Inr j)
       = (w\<lparr>cache := (cache w)\<lparr>kv := (kv (cache w))(''users:all'' := None)\<rparr>\<rparr>,
          ok 200 (JObj [(''message'', JStr ''User updated successfully''), (''user'', to_dict u)]))"
  by (simp add: update_user_def update_row_def invalidate_then_def r_delete_def)

theorem update_without_fields_succeeds_witness:
  "get_row (database demo_world) 1 = Inr (Some demo_user) \<and> redis_up (cache demo_world)
   \<and> update_fields (JObj []) = Inr (None, None)
   \<and> status (snd (update_user demo_world 1 (Inr (JObj [])))) = 200"
proof -
  have h: "get_row (database demo_world) 1 = Inr (Some demo_user)" "redis_up (cache demo_world)"
    "update_fields (JObj []) = Inr (None, None)"
    by (simp_all add: eval_defs demo_defs)
  show ?thesis using h update_without_fields_succeeds [OF h] by simp
qed

text \<open>C15. After \<open>GET /api/stats\<close> computed its reply from the table, the same request
  within the 60 seconds of the entry's time-to-live returns that reply again, from the
  cache and without changing the state (lines 185-187, 203).\<close>

theorem get_stats_second_call_cached:
  assumes first: "get_stats w = (w1, r1)" and miss: "lookup_alive (cache w) (now_ms w) ''stats'' = None"
    and s: "status r1 = 200" and t: "t div 1000 \<le> clock w div 1000 + 60000"
  shows "get_stats (w1\<lparr>clock := t\<rparr>) = (w1\<lparr>clock := t\<rparr>, r1)"
  using get_stats_miss [OF first miss s] t
  by (auto simp: get_stats_def r_setex_Inr r_get_def lookup_alive_setex_same now_ms_def cache_hit_def
      json_dumps_nonempty)

theorem get_stats_second_call_cached_witness:
  "lookup_alive (cache demo_world) (now_ms demo_world) ''stats'' = None
   \<and> status (snd (get_stats demo_world)) = 200
   \<and> (5000::int) div 1000 \<le> clock demo_world div 1000 + 60000
   \<and> get_stats ((fst (get_stats demo_world))\<lparr>clock := 5000\<rparr>)
       = ((fst (get_stats demo_world))\<lparr>clock := 5000\<rparr>, snd (get_stats demo_world))"
proof -
  have h: "lookup_alive (cache demo_world) (now_ms demo_world) ''stats'' = None"
    "status (snd (get_stats demo_world)) = 200" "(5000::int) div 1000 \<le> clock demo_world div 1000 + 60000"
    by (simp_all add: eval_defs demo_defs)
  show ?thesis using h get_stats_second_call_cached [OF surjective_pairing h] by simp
qed

text \<open>C27. A create whose username is longer than the 80 characters of its column, other
  than by trailing spaces, fails while PostgreSQL plans the \<open>INSERT\<close>: the cast to
  \<open>varchar(80)\<close> raises \<open>DataError\<close> (lines 30, 121-126). The handler answers 500 and
  the state is unchanged, the \<open>id\<close> sequence included. app.py does not check the length
  itself, so this is a 500 and not the 400 of a validation error.\<close>

theorem create_overlong_rejected:
  assumes up: "db_up (database w)" and un: "py_get kvs ''username'' = JStr s"
    and long: "\<not> list_all (\<lambda>c. c = CHR '' '') (drop 80 s)"
    and em: "py_get kvs ''email'' = JStr m" "m \<noteq> []"
  shows "create_user w (Inr (JObj kvs)) = (w, err 500 (DbError DataError))"
proof -
  have ne: "s \<noteq> []" using long by auto
  have "varchar_cast 80 (Some s) = Inl DataError" using long by (auto simp: varchar_cast_def)
  then have "insert_row (database w) (py_get kvs ''username'') (py_get kvs ''email'') (clock w)
               = (database w, Inl DataError)"
    using up un em(1) by (simp add: insert_row_cast_error)
  then show ?thesis using un em ne by (simp add: create_user_def)
qed

theorem create_overlong_rejected_witness:
  "db_up (database demo_world)
   \<and> py_get [(''username'', JStr (replicate 81 CHR ''a'')), (''email'', JStr ''x@example.org'')] ''username''
       = JStr (replicate 81 CHR ''a'')
   \<and> \<not> list_all (\<lambda>c. c = CHR '' '') (drop 80 (replicate 81 CHR ''a''))
   \<and> py_get [(''username'', JStr (replicate 81 CHR ''a'')), (''email'', JStr ''x@example.org'')] ''email''
       = JStr ''x@example.org''
   \<and> create_user demo_world (Inr (JObj [(''username'', JStr (replicate 81 CHR ''a'')), (''email'', JStr ''x@example.org'')]))
       = (demo_world, err 500 (DbError DataError))"
proof -
  have h: "db_up (database demo_world)"
    "py_get [(''username'', JStr (replicate 81 CHR ''a'')), (''email'', JStr ''x@example.org'')] ''username''
       = JStr (replicate 81 CHR ''a'')"
    "\<not> list_all (\<lambda>c. c = CHR '' '') (drop 80 (replicate 81 CHR ''a''))"
    "py_get [(''username'', JStr (replicate 81 CHR ''a'')), (''email'', JStr ''x@example.org'')] ''email''
       = JStr ''x@example.org''"
    "''x@example.org'' \<noteq> []"
    by (simp_all add: demo_defs py_get_def dict_get_def)
  show ?thesis using h create_overlong_rejected [OF h] by blast
qed

text \<open>C31. An update that returns 200 changes exactly the row with that id: each field the
  body names gets the value its column receives for it, a field the body does not name
  keeps its value, \<open>id\<close> and \<open>created_at\<close> stay, the other rows stay, the reply holds
  the new row, and \<open>GET /api/users/<id>\<close> then returns it (lines 143-158).\<close>

theorem update_then_get:
  assumes wf: "wf_world w" and upd: "update_user w i (Inr (JObj kvs)) = (w1, r1)" and s: "status r1 = 200"
  shows "\<exists>u0 u. u0 \<in> set (rows (database w)) \<and> uid u0 = i \<and> uid u = i \<and> created_at u = created_at u0
           \<and> (case dict_get kvs ''username'' of None \<Rightarrow> username u = username u0
               | Some j \<Rightarrow> column_value 80 j = Inr (Some (username u)))
           \<and> (case dict_get kvs ''email'' of None \<Rightarrow> email u = email u0
               | Some j \<Rightarrow> column_value 120 j = Inr (Some (email u)))
           \<and> rows (database w1) = map (\<lambda>x. if uid x = i then u else x) (rows (database w))
           \<and> body r1 = JObj [(''message'', JStr ''User updated successfully''), (''user'', to_dict u)]
           \<and> get_user w1 i = (w1, ok 200 (to_dict u))"
proof -
  from upd s obtain u0 u d' where g: "get_row (database w) i = Inr (Some u0)"
    and ur: "update_row (database w) u0 (dict_get kvs ''username'') (dict_get kvs ''email'') = Inr (u, d')"
    and iv: "invalidate_then w d'
       (ok 200 (JObj [(''message'', JStr ''User updated successfully''), (''user'', to_dict u)])) = (w1, r1)"
    by (auto simp: update_user_def split: sum.splits option.splits prod.splits)
  from iv s have w1: "database w1 = d'"
    and r1: "body r1 = JObj [(''message'', JStr ''User updated successfully''), (''user'', to_dict u)]"
    by (auto dest!: invalidate_then_cases)
  from g have u0: "u0 \<in> set (rows (database w))" "uid u0 = i" by (auto dest: get_row_Some)
  have dist: "distinct (map uid (rows (database w)))" using wf by (simp add: wf_world_def db_inv_def)
  have same: "x \<in> set (rows (database w)) \<Longrightarrow> uid x = i \<Longrightarrow> x = u0" for x
    using dist u0 by (metis distinct_map inj_onD)
  have keeps: "uid u = i" "created_at u = created_at u0" "map uid (rows d') = map uid (rows (database w))"
    using update_row_keeps [OF ur] u0 by simp_all
  from update_row_Inr [OF ur] have fields:
    "(case dict_get kvs ''username'' of None \<Rightarrow> username u = username u0
       | Some j \<Rightarrow> column_value 80 j = Inr (Some (username u)))
     \<and> (case dict_get kvs ''email'' of None \<Rightarrow> email u = email u0
       | Some j \<Rightarrow> column_value 120 j = Inr (Some (email u)))
     \<and> d' = (database w)\<lparr>rows := map (\<lambda>x. if uid x = i then u else x) (rows (database w))\<rparr>"
  proof (elim disjE conjE exE)
    assume a: "dict_get kvs ''username'' = None" "dict_get kvs ''email'' = None" "u = u0" "d' = database w"
    have "map (\<lambda>x. if uid x = i then u else x) (rows (database w)) = rows (database w)"
      using same a(3) by (simp add: map_idI)
    then have "(database w)\<lparr>rows := map (\<lambda>x. if uid x = i then u else x) (rows (database w))\<rparr> = database w"
      by simp
    with a show ?thesis by simp
  next
    fix a b
    assume "assign_col (username u0) (dict_get kvs ''username'') = Inr a"
      "cast_col 80 (dict_get kvs ''username'') a = Inr (Some (username u))"
      "assign_col (email u0) (dict_get kvs ''email'') = Inr b"
      "cast_col 120 (dict_get kvs ''email'') b = Inr (Some (email u))"
      "d' = (database w)\<lparr>rows := map (\<lambda>x. if uid x = uid u0 then u else x) (rows (database w))\<rparr>"
    then show ?thesis using u0 by (auto dest: assign_cast_col)
  qed
  have "u \<in> set (rows d')" using fields u0 by auto
  moreover have "distinct (map uid (rows d'))" using keeps dist by simp
  ultimately have "find (\<lambda>r. uid r = i) (rows d') = Some u" using keeps find_uid by metis
  moreover have "db_up d'" using fields g by (auto dest: get_row_Some)
  ultimately have "get_user w1 i = (w1, ok 200 (to_dict u))" using w1 by (simp add: get_user_def get_row_def)
  moreover have "rows (database w1) = map (\<lambda>x. if uid x = i then u else x) (rows (database w))"
    using w1 fields by simp
  ultimately show ?thesis using u0 keeps fields r1 by blast
qed

theorem update_then_get_witness:
  "wf_world demo_world
   \<and> status (snd (update_user demo_world 1 (Inr (JObj [(''email'', JStr ''al@example.net'')])))) = 200
   \<and> get_user (fst (update_user demo_world 1 (Inr (JObj [(''email'', JStr ''al@example.net'')])))) 1
       = (fst (update_user demo_world 1 (Inr (JObj [(''email'', JStr ''al@example.net'')]))),
          ok 200 (to_dict (demo_user\<lparr>email := ''al@example.net''\<rparr>)))"
proof -
  have w: "wf_world demo_world" by (simp add: eval_defs demo_defs)
  have s: "status (snd (update_user demo_world 1 (Inr (JObj [(''email'', JStr ''al@example.net'')])))) = 200"
    by (simp add: eval_defs demo_defs Let_def dict_get_def del: to_dict_def)
  obtain u0 u where p: "u0 \<in> set (rows (database demo_world))" "uid u0 = 1" "uid u = 1"
    "created_at u = created_at u0" "username u = username u0"
    "column_value 120 (JStr ''al@example.net'') = Inr (Some (email u))"
    "get_user (fst (update_user demo_world 1 (Inr (JObj [(''email'', JStr ''al@example.net'')])))) 1
       = (fst (update_user demo_world 1 (Inr (JObj [(''email'', JStr ''al@example.net'')]))), ok 200 (to_dict u))"
    using update_then_get [OF w surjective_pairing s] by (auto simp: dict_get_def)
  have "u = demo_user\<lparr>email := ''al@example.net''\<rparr>"
    using p by (cases u) (simp add: demo_defs eval_defs)
  with w s p show ?thesis by simp
qed

text \<open>C37. \<open>GET /api/users/<id>\<close> reads the table and never the cache (lines 101-108):
  it changes nothing, its answer does not depend on the cache, it is 200 with the row of
  that id when the database answers and holds one, and 404 otherwise, a database outage
  included.\<close>

theorem get_user_reads_table:
  "fst (get_user w i) = w \<and> snd (get_user (w\<lparr>cache := c\<rparr>) i) = snd (get_user w i)
   \<and> (status (snd (get_user w i)) = 200 \<longleftrightarrow> db_up (database w) \<and> i \<in> uid ` set (rows (database w)))
   \<and> (status (snd (get_user w i)) = 200 \<longrightarrow>
        (\<exists>u \<in> set (rows (database w)). uid u = i \<and> body (snd (get_user w i)) = to_dict u))
   \<and> (status (snd (get_user w i)) \<noteq> 200 \<longrightarrow> status (snd (get_user w i)) = 404)"
proof -
  consider (E) e where "get_row (database w) i = Inl e" | (N) "get_row (database w) i = Inr None"
    | (S) u where "get_row (database w) i = Inr (Some u)"
    by (metis option.exhaust sum.exhaust)
  then show ?thesis
  proof cases
    case E
    then have "\<not> db_up (database w)" by (auto simp: get_row_def split: if_splits)
    with E show ?thesis by (simp add: get_user_def)
  next
    case N
    then have "db_up (database w)" "i \<notin> uid ` set (rows (database w))" by (simp_all add: get_row_None)
    with N show ?thesis by (simp add: get_user_def)
  next
    case (S u)
    then have "db_up (database w) \<and> u \<in> set (rows (database w)) \<and> uid u = i" by (rule get_row_Some)
    with S show ?thesis by (auto simp: get_user_def)
  qed
qed

theorem get_user_reads_table_witness:
  "status (snd (get_user demo_world 1)) = 200
   \<and> (\<exists>u \<in> set (rows (database demo_world)). uid u = 1 \<and> body (snd (get_user demo_world 1)) = to_dict u)
   \<and> snd (get_user (demo_world\<lparr>cache := init_redis\<lparr>redis_up := False\<rparr>\<rparr>) 1) = snd (get_user demo_world 1)"
proof -
  have s: "status (snd (get_user demo_world 1)) = 200" by (simp add: eval_defs demo_defs del: to_dict_def)
  show ?thesis using s get_user_reads_table [of demo_world 1 "init_redis\<lparr>redis_up := False\<rparr>"] by blast
qed

end
