(* ===== verification/Py_String.thy ===== *)
theory Py_String
  imports Prelude
begin

text \<open>
  Python's \<open>str\<close> methods that Werkzeug, urllib and redis-py apply to the strings of a
  request and of the configuration, on characters as Latin-1 code points (the
  development's characters are bytes): \<open>isspace\<close>, \<open>strip\<close>, \<open>lower\<close>, \<open>upper\<close> on
  ASCII letters, \<open>split\<close> and \<open>partition\<close> at one character, and \<open>int()\<close> of a
  decimal string.
\<close>

definition py_isspace :: "char \<Rightarrow> bool" where
  "py_isspace c \<longleftrightarrow> of_char c \<in> ({9, 10, 11, 12, 13, 28, 29, 30, 31, 32, 133, 160} :: nat set)"

definition py_strip :: "string \<Rightarrow> string" where
  "py_strip s = rev (dropWhile py_isspace (rev (dropWhile py_isspace s)))"

definition py_lower_char :: "char \<Rightarrow> char" where
  "py_lower_char c =
     (let n = (of_char c :: nat) in
      if 65 \<le> n \<and> n \<le> 90 \<or> 192 \<le> n \<and> n \<le> 222 \<and> n \<noteq> 215 then char_of (n + 32) else c)"

definition py_upper_ascii :: "char \<Rightarrow> char" where
  "py_upper_ascii c =
     (let n = (of_char c :: nat) in if 97 \<le> n \<and> n \<le> 122 then char_of (n - 32) else c)"

text \<open>\<open>str.upper()\<close> on a method name, an HTTP token of ASCII characters.\<close>

definition py_upper :: "string \<Rightarrow> string" where
  "py_upper s = map py_upper_ascii s"

text \<open>\<open>str.split(sep)\<close> with a one-character separator.\<close>

fun py_split_aux :: "char \<Rightarrow> string \<Rightarrow> string \<Rightarrow> string list" where
  "py_split_aux c cur [] = [rev cur]"
| "py_split_aux c cur (x # xs) =
     (if x = c then rev cur # py_split_aux c [] xs else py_split_aux c (x # cur) xs)"

definition py_split :: "char \<Rightarrow> string \<Rightarrow> string list" where
  "py_split c s = py_split_aux c [] s"

text \<open>\<open>s.partition(c)\<close> and \<open>s.rpartition(c)\<close>: the text before and after the first
  (last) \<open>c\<close>, and whether there was one.\<close>

definition py_partition :: "char \<Rightarrow> string \<Rightarrow> string \<times> bool \<times> string" where
  "py_partition c s =
     (if c \<in> set s then (takeWhile (\<lambda>x. x \<noteq> c) s, True, tl (dropWhile (\<lambda>x. x \<noteq> c) s))
      else (s, False, []))"

definition py_rpartition :: "char \<Rightarrow> string \<Rightarrow> string \<times> bool \<times> string" where
  "py_rpartition c s =
     (if c \<in> set s then (rev (tl (dropWhile (\<lambda>x. x \<noteq> c) (rev s))), True, rev (takeWhile (\<lambda>x. x \<noteq> c) (rev s)))
      else ([], False, s))"

text \<open>\<open>int(s)\<close> on a string: surrounding white space, an optional sign, and decimal
  digits with single underscores between them; anything else raises \<open>ValueError\<close>
  (\<open>None\<close>).\<close>

fun no_double_underscore :: "string \<Rightarrow> bool" where
  "no_double_underscore (a # b # r) =
     (\<not> (a = CHR ''_'' \<and> b = CHR ''_'') \<and> no_double_underscore (b # r))"
| "no_double_underscore _ = True"

definition py_digits_ok :: "string \<Rightarrow> bool" where
  "py_digits_ok ds \<longleftrightarrow> ds \<noteq> [] \<and> is_digit (hd ds) \<and> is_digit (last ds)
     \<and> list_all (\<lambda>c. is_digit c \<or> c = CHR ''_'') ds \<and> no_double_underscore ds"

definition py_int :: "string \<Rightarrow> int option" where
  "py_int s =
     (let t = py_strip s in
      case t of
        [] \<Rightarrow> None
      | c # ds \<Rightarrow>
          if c = CHR ''-'' then
            (if py_digits_ok ds then Some (- int (nat_of_digits (filter is_digit ds))) else None)
          else if c = CHR ''+'' then
            (if py_digits_ok ds then Some (int (nat_of_digits (filter is_digit ds))) else None)
          else if py_digits_ok t then Some (int (nat_of_digits (filter is_digit t))) else None)"

lemma py_split_aux_sep:
  "c \<notin> set s \<Longrightarrow> py_split_aux c cur (s @ c # t) = (rev cur @ s) # py_split_aux c [] t"
  by (induction s arbitrary: cur) auto

lemma py_split_aux_last: "c \<notin> set s \<Longrightarrow> py_split_aux c cur s = [rev cur @ s]"
  by (induction s arbitrary: cur) auto


lemma py_partition_append: "c \<notin> set a \<Longrightarrow> py_partition c (a @ c # b) = (a, True, b)"
  by (simp add: py_partition_def takeWhile_append dropWhile_append)

lemma py_partition_none: "c \<notin> set a \<Longrightarrow> py_partition c a = (a, False, [])"
  by (simp add: py_partition_def)

lemma py_rpartition_append: "c \<notin> set b \<Longrightarrow> py_rpartition c (a @ c # b) = (a, True, b)"
  by (simp add: py_rpartition_def takeWhile_append dropWhile_append)

lemma py_rpartition_none: "c \<notin> set a \<Longrightarrow> py_rpartition c a = ([], False, a)"
  by (simp add: py_rpartition_def)

lemma no_double_underscore_digits: "list_all is_digit s \<Longrightarrow> no_double_underscore s"
  by (induction s rule: no_double_underscore.induct) (auto simp: is_digit_def)

lemma py_int_show_nat: "py_int (show_nat n) = Some (int n)"
proof -
  have d: "list_all is_digit (show_nat n)" using show_nat_digits [of n] by (simp add: list_all_iff)
  have ne: "show_nat n \<noteq> []" by (rule show_nat_nonempty)
  have s: "py_strip (show_nat n) = show_nat n"
  proof -
    have "\<not> py_isspace c" if "is_digit c" for c using that by (auto simp: py_isspace_def is_digit_def)
    then have "dropWhile py_isspace xs = xs" if "list_all is_digit xs" for xs
      using that by (cases xs) auto
    with d show ?thesis by (simp add: py_strip_def)
  qed
  have ok: "py_digits_ok (show_nat n)"
    using d ne by (auto simp: py_digits_ok_def list_all_iff no_double_underscore_digits [OF d])
  have h: "hd (show_nat n) \<noteq> CHR ''-'' \<and> hd (show_nat n) \<noteq> CHR ''+''"
    using d ne by (cases "show_nat n") (auto simp: is_digit_def)
  have f: "filter is_digit (show_nat n) = show_nat n" using d by (simp add: list_all_iff)
  obtain c ds where cd: "show_nat n = c # ds" using ne by (cases "show_nat n") auto
  show ?thesis unfolding py_int_def Let_def s
    using h ok f nat_of_digits_show_nat [of n] by (simp add: cd del: filter.simps)
qed

end
