(* ===== verification/Http.thy ===== *)
theory Http
  imports Policy Py_String "HOL-Library.Sublist"
begin

text \<open>
  The HTTP layer in front of the views: Werkzeug's URL map as Flask builds it from the
  \<open>@app.route\<close> decorators of app.py (plus the \<open>static\<close> rule \<open>Flask(__name__)\<close> adds,
  line 10), the method and path matching of \<open>MapAdapter.match\<close> with its answers 308,
  405 and 404, Flask's automatic \<open>OPTIONS\<close> and \<open>HEAD\<close>, and \<open>request.get_json()\<close>
  (lines 114 and 144). \<open>serve\<close> composes them with \<open>handle\<close>: a request of the
  network becomes the request value of \<open>Handlers\<close>, or an answer of the framework
  that no view sees.
\<close>

subsection \<open>Requests and answers\<close>

text \<open>A request as WSGI hands it over: the method of the request line, the
  percent-decoded path, the \<open>Content-Type\<close> header (empty when absent) and the body.\<close>

record http_request =
  request_method :: string
  path :: string
  content_type :: string
  data :: string

text \<open>What goes back: the status, the \<open>Allow\<close> header, the path a redirect points to,
  and the body: JSON from \<open>jsonify\<close>, one of Werkzeug's HTML pages, or nothing.\<close>

datatype payload =
    JsonPayload json
  | HtmlPage string
  | RedirectPage string
  | Empty

record answer =
  code :: nat
  allow :: "string list"
  location :: "string option"
  payload :: payload

definition json_answer :: "response \<Rightarrow> answer" where
  "json_answer r = \<lparr>code = status r, allow = [], location = None, payload = JsonPayload (body r)\<rparr>"

subsection \<open>\<open>request.get_json()\<close> (lines 114 and 144)\<close>

text \<open>Werkzeug's \<open>Request.mimetype\<close>: the \<open>Content-Type\<close> up to the first \<open>;\<close>,
  stripped and lower-cased; \<open>is_json\<close> accepts \<open>application/json\<close> and
  \<open>application/*+json\<close>.\<close>

definition mimetype :: "http_request \<Rightarrow> string" where
  "mimetype rq = map py_lower_char (py_strip (takeWhile (\<lambda>c. c \<noteq> CHR '';'') (content_type rq)))"

definition is_json :: "http_request \<Rightarrow> bool" where
  "is_json rq \<longleftrightarrow> mimetype rq = ''application/json''
     \<or> (prefix ''application/'' (mimetype rq) \<and> suffix ''+json'' (mimetype rq))"

text \<open>Flask's \<open>get_json()\<close>: without a JSON content type it raises
  \<open>UnsupportedMediaType\<close> (415); a body \<open>json.loads\<close> rejects makes it raise a plain
  \<open>BadRequest\<close> (400, Flask replaces the decoder's message outside debug mode).
  Both are exceptions inside the view's \<open>try\<close>.\<close>

definition get_json :: "http_request \<Rightarrow> exc + json" where
  "get_json rq =
     (if \<not> is_json rq then Inl HttpUnsupportedMediaType
      else case json_loads (data rq) of None \<Rightarrow> Inl HttpBadRequest | Some j \<Rightarrow> Inr j)"

subsection \<open>The URL map (lines 10, 47, 75, 101, 110, 139, 164, 180)\<close>

text \<open>A rule's path is a list of segments: a literal, Werkzeug's \<open>IntegerConverter\<close>
  (\<open>\d+\<close>, then \<open>int\<close>) or its \<open>PathConverter\<close> (\<open>[^/].*?\<close>, the rest of the path).\<close>

datatype seg = Lit string | IntConv | PathConv

datatype endpoint =
    EStatic | EHealthCheck | EGetUsers | EGetUser | ECreateUser | EUpdateUser | EDeleteUser | EGetStats

datatype rule = Rule "seg list" "string list" endpoint

text \<open>\<open>Flask(__name__)\<close> registers \<open>/static/<path:filename>\<close>: the static folder is
  a path whether or not the directory exists.\<close>

definition rule_static :: rule where
  "rule_static = Rule [Lit ''static'', PathConv] [''GET''] EStatic"

definition rule_health_check :: rule where
  "rule_health_check = Rule [Lit ''health''] [''GET''] EHealthCheck"

definition rule_get_users :: rule where
  "rule_get_users = Rule [Lit ''api'', Lit ''users''] [''GET''] EGetUsers"

definition rule_get_user :: rule where
  "rule_get_user = Rule [Lit ''api'', Lit ''users'', IntConv] [''GET''] EGetUser"

definition rule_create_user :: rule where
  "rule_create_user = Rule [Lit ''api'', Lit ''users''] [''POST''] ECreateUser"

definition rule_update_user :: rule where
  "rule_update_user = Rule [Lit ''api'', Lit ''users'', IntConv] [''PUT''] EUpdateUser"

definition rule_delete_user :: rule where
  "rule_delete_user = Rule [Lit ''api'', Lit ''users'', IntConv] [''DELETE''] EDeleteUser"

definition rule_get_stats :: rule where
  "rule_get_stats = Rule [Lit ''api'', Lit ''stats''] [''GET''] EGetStats"

definition url_map :: "rule list" where
  "url_map = [rule_static, rule_health_check, rule_get_users, rule_get_user, rule_create_user,
              rule_update_user, rule_delete_user, rule_get_stats]"

text \<open>The methods a rule accepts: Werkzeug adds \<open>HEAD\<close> to a rule with \<open>GET\<close>, Flask
  adds \<open>OPTIONS\<close> to every rule (\<open>provide_automatic_options\<close>).\<close>

fun rule_methods :: "rule \<Rightarrow> string list" where
  "rule_methods (Rule _ ms _) = ms @ (if ''GET'' \<in> set ms then [''HEAD''] else []) @ [''OPTIONS'']"

fun match_segs :: "seg list \<Rightarrow> string list \<Rightarrow> nat list option" where
  "match_segs [] [] = Some []"
| "match_segs (Lit a # ps) (s # ss) = (if s = a then match_segs ps ss else None)"
| "match_segs (IntConv # ps) (s # ss) =
     (if s \<noteq> [] \<and> list_all is_digit s then map_option (Cons (nat_of_digits s)) (match_segs ps ss)
      else None)"
| "match_segs (PathConv # _) (s # ss) = (if s \<noteq> [] then Some [] else None)"
| "match_segs _ _ = None"

text \<open>\<open>MapAdapter.match\<close> works on \<open>"/" + path.lstrip("/")\<close>; the matcher splits it at
  \<open>/\<close>. Rules whose path matches, with the converted arguments:\<close>

definition path_part :: "string \<Rightarrow> string" where
  "path_part p = CHR ''/'' # dropWhile (\<lambda>c. c = CHR ''/'') p"

definition segments :: "string \<Rightarrow> string list" where
  "segments pp = tl (py_split (CHR ''/'') pp)"

fun rule_match :: "string list \<Rightarrow> rule \<Rightarrow> (rule \<times> nat list) option" where
  "rule_match ss (Rule ps ms e) = map_option (Pair (Rule ps ms e)) (match_segs ps ss)"

definition path_rules :: "string \<Rightarrow> (rule \<times> nat list) list" where
  "path_rules pp = List.map_filter (rule_match (segments pp)) url_map"

text \<open>When nothing matches, the matcher retries with \<open>re.sub("/{2,}?", "/", path)\<close>,
  which replaces each pair of slashes by one, and redirects (308) when that matches.\<close>

fun merge_slashes :: "string \<Rightarrow> string" where
  "merge_slashes (a # b # r) =
     (if a = CHR ''/'' \<and> b = CHR ''/'' then CHR ''/'' # merge_slashes r else a # merge_slashes (b # r))"
| "merge_slashes r = r"

text \<open>The methods of every rule the path matches, directly or after merging: the
  \<open>valid_methods\<close> of \<open>MethodNotAllowed\<close> and Flask's \<open>allowed_methods()\<close>.\<close>

definition allowed_methods :: "string \<Rightarrow> string list" where
  "allowed_methods pp =
     concat (map (rule_methods \<circ> fst) (path_rules pp @ path_rules (merge_slashes pp)))"

datatype match_result =
    Matched endpoint "nat list"
  | Redirect string
  | NotAllowed "string list"
  | NoMatch

definition map_match :: "string \<Rightarrow> string \<Rightarrow> match_result" where
  "map_match pp m =
     (case find (\<lambda>(r, _). m \<in> set (rule_methods r)) (path_rules pp) of
        Some (Rule _ _ e, args) \<Rightarrow> Matched e args
      | None \<Rightarrow>
          (if (\<exists>(r, _) \<in> set (path_rules (merge_slashes pp)). m \<in> set (rule_methods r))
           then Redirect (merge_slashes pp)
           else if allowed_methods pp \<noteq> [] then NotAllowed (allowed_methods pp)
           else NoMatch))"

subsection \<open>Dispatch\<close>

text \<open>The view each endpoint calls, with its URL arguments and, for the two views that
  read the body, the outcome of \<open>get_json\<close>. \<open>send_static_file\<close> raises \<open>NotFound\<close> (the
  repository has no static files), which Flask passes to the 404 handler. A view called
  with arguments it does not take raises \<open>TypeError\<close> (\<open>None\<close>), which goes to the 500
  handler; \<open>view_call_defined\<close> shows that the converters of every rule give its view
  the arguments it takes.\<close>

fun view_call :: "endpoint \<Rightarrow> nat list \<Rightarrow> http_request \<Rightarrow> request option" where
  "view_call EStatic [] rq = Some Unrouted"
| "view_call EHealthCheck [] rq = Some Health"
| "view_call EGetUsers [] rq = Some ListUsers"
| "view_call EGetUser [i] rq = Some (GetUser i)"
| "view_call ECreateUser [] rq = Some (CreateUser (get_json rq))"
| "view_call EUpdateUser [i] rq = Some (UpdateUser i (get_json rq))"
| "view_call EDeleteUser [i] rq = Some (DeleteUser i)"
| "view_call EGetStats [] rq = Some Stats"
| "view_call _ _ rq = None"

text \<open>Werkzeug's HTML error page, as \<open>HTTPException.get_body\<close> writes it.\<close>

definition error_page :: "nat \<Rightarrow> string \<Rightarrow> string \<Rightarrow> string" where
  "error_page c name descr =
     ''<!doctype html>'' @ [CHR 0x0A] @ ''<html lang=en>'' @ [CHR 0x0A]
     @ ''<title>'' @ show_nat c @ '' '' @ name @ ''</title>'' @ [CHR 0x0A]
     @ ''<h1>'' @ name @ ''</h1>'' @ [CHR 0x0A] @ ''<p>'' @ descr @ ''</p>'' @ [CHR 0x0A]"

definition method_not_allowed :: "string list \<Rightarrow> answer" where
  "method_not_allowed ms =
     \<lparr>code = 405, allow = ms, location = None,
      payload = HtmlPage (error_page 405 ''Method Not Allowed''
                           ''The method is not allowed for the requested URL.'')\<rparr>"

definition redirect_answer :: "string \<Rightarrow> answer" where
  "redirect_answer p = \<lparr>code = 308, allow = [], location = Some p, payload = RedirectPage p\<rparr>"

definition options_answer :: "string list \<Rightarrow> answer" where
  "options_answer ms = \<lparr>code = 200, allow = ms, location = None, payload = Empty\<rparr>"

text \<open>Flask's \<open>full_dispatch_request\<close> for the upper-cased method \<open>m\<close> and the path
  \<open>pp\<close>: \<open>OPTIONS\<close> answered by \<open>make_default_options_response\<close>; the view, or the
  404 handler when no rule matches; the 500 handler when the view raises; the routing
  exceptions 308 and 405 with Werkzeug's own response.\<close>

definition dispatch :: "world \<Rightarrow> http_request \<Rightarrow> string \<Rightarrow> string \<Rightarrow> world \<times> answer" where
  "dispatch w rq m pp =
     (case map_match pp m of
        Matched e args \<Rightarrow>
          if m = ''OPTIONS'' then (w, options_answer (allowed_methods pp))
          else (case view_call e args rq of
                  None \<Rightarrow> map_prod id json_answer (internal_error w)
                | Some r \<Rightarrow> map_prod id json_answer (handle w r))
      | Redirect p \<Rightarrow> (w, redirect_answer p)
      | NotAllowed ms \<Rightarrow> (w, method_not_allowed ms)
      | NoMatch \<Rightarrow> map_prod id json_answer (handle w Unrouted))"

text \<open>One request through the WSGI application. Werkzeug's \<open>Response\<close> sends no body
  when the request line says \<open>HEAD\<close>.\<close>

definition serve :: "world \<Rightarrow> http_request \<Rightarrow> world \<times> answer" where
  "serve w rq =
     (let (w', a) = dispatch w rq (py_upper (request_method rq)) (path_part (path rq))
      in (w', if request_method rq = ''HEAD'' then a\<lparr>payload := Empty\<rparr> else a))"

subsection \<open>Serving a request\<close>

lemma upper_methods [simp]:
  "py_upper ''GET'' = ''GET''" "py_upper ''HEAD'' = ''HEAD''" "py_upper ''POST'' = ''POST''"
  "py_upper ''PUT'' = ''PUT''" "py_upper ''DELETE'' = ''DELETE''" "py_upper ''OPTIONS'' = ''OPTIONS''"
  by (simp_all add: py_upper_def py_upper_ascii_def)

lemma serve_not_head:
  "request_method rq \<noteq> ''HEAD'' \<Longrightarrow> serve w rq = dispatch w rq (py_upper (request_method rq)) (path_part (path rq))"
  by (simp add: serve_def split: prod.split)

lemma serve_head:
  "request_method rq = ''HEAD'' \<Longrightarrow>
     serve w rq = (fst (dispatch w rq ''HEAD'' (path_part (path rq))),
                   (snd (dispatch w rq ''HEAD'' (path_part (path rq))))\<lparr>payload := Empty\<rparr>)"
  by (simp add: serve_def split: prod.split)

lemma dispatch_no_match:
  "map_match pp m = NoMatch \<Longrightarrow> dispatch w rq m pp = (w, json_answer (ok 404 (JObj [(''error'', JStr ''Not found'')])))"
  by (simp add: dispatch_def not_found_def)

lemma dispatch_not_allowed:
  "map_match pp m = NotAllowed ms \<Longrightarrow> dispatch w rq m pp = (w, method_not_allowed ms)"
  by (simp add: dispatch_def)

subsection \<open>Splitting and merging paths\<close>

lemma merge_slashes_id: "CHR ''/'' \<notin> set s \<Longrightarrow> merge_slashes s = s"
  by (induction s rule: merge_slashes.induct) auto

lemma merge_slashes_one: "CHR ''/'' \<notin> set s \<Longrightarrow> merge_slashes (CHR ''/'' # s) = CHR ''/'' # s"
  by (cases s) (auto simp: merge_slashes_id)

lemma show_nat_no_slash: "CHR ''/'' \<notin> set (show_nat n)"
  using show_nat_digits [of n] by (auto simp: is_digit_def)

lemma match_int_show_nat: "s = show_nat n \<Longrightarrow> s \<noteq> [] \<and> list_all is_digit s \<and> nat_of_digits s = n"
  using show_nat_digits [of n] by (simp add: show_nat_nonempty list_all_iff)

text \<open>The rules a path \<open>/api/users/<s>\<close> matches, for a segment \<open>s\<close> without \<open>/\<close>: the
  three rules of \<open><int:user_id>\<close> when \<open>s\<close> is a string of digits, none otherwise;
  merging slashes does not change the path.\<close>

lemma users_seg_path:
  assumes "CHR ''/'' \<notin> set s"
  shows "path_part (''/api/users/'' @ s) = ''/api/users/'' @ s"
    and "segments (''/api/users/'' @ s) = [''api'', ''users'', s]"
    and "merge_slashes (''/api/users/'' @ s) = ''/api/users/'' @ s"
  using assms by (simp_all add: path_part_def segments_def py_split_def py_split_aux_last merge_slashes_one)

lemma users_seg_rules:
  assumes "CHR ''/'' \<notin> set s"
  shows "path_rules (''/api/users/'' @ s) =
           (if s \<noteq> [] \<and> list_all is_digit s
            then [(rule_get_user, [nat_of_digits s]), (rule_update_user, [nat_of_digits s]),
                  (rule_delete_user, [nat_of_digits s])]
            else [])"
  unfolding path_rules_def users_seg_path(2) [OF assms]
  by (simp add: url_map_def rule_static_def
      rule_health_check_def rule_get_users_def rule_get_user_def rule_create_user_def
      rule_update_user_def rule_delete_user_def rule_get_stats_def map_filter_simps)


subsection \<open>Routing lemmas\<close>

lemma users_seg_match:
  assumes u: "u = ''/api/users/'' @ s" and s: "CHR ''/'' \<notin> set s"
  shows "map_match u m =
     (if s \<noteq> [] \<and> list_all is_digit s then
        (if m = ''GET'' \<or> m = ''HEAD'' \<or> m = ''OPTIONS'' then Matched EGetUser [nat_of_digits s]
         else if m = ''PUT'' then Matched EUpdateUser [nat_of_digits s]
         else if m = ''DELETE'' then Matched EDeleteUser [nat_of_digits s]
         else NotAllowed (allowed_methods u))
      else NoMatch)"
  unfolding map_match_def allowed_methods_def u users_seg_path(3) [OF s] users_seg_rules [OF s]
  by (auto simp: rule_get_user_def rule_update_user_def rule_delete_user_def)

lemma users_seg_allowed:
  assumes u: "u = ''/api/users/'' @ s" and s: "CHR ''/'' \<notin> set s" and d: "s \<noteq> [] \<and> list_all is_digit s"
  shows "set (allowed_methods u) = {''GET'', ''HEAD'', ''OPTIONS'', ''PUT'', ''DELETE''}"
  unfolding allowed_methods_def u users_seg_path(3) [OF s] users_seg_rules [OF s]
  using d by (auto simp: rule_get_user_def rule_update_user_def rule_delete_user_def)

lemma users_path:
  "path_part ''/api/users'' = ''/api/users''"
  "path_rules ''/api/users'' = [(rule_get_users, []), (rule_create_user, [])]"
  "merge_slashes ''/api/users'' = ''/api/users''"
  by (simp_all add: path_part_def path_rules_def segments_def py_split_def url_map_def
      rule_static_def rule_health_check_def rule_get_users_def rule_get_user_def
      rule_create_user_def rule_update_user_def rule_delete_user_def rule_get_stats_def map_filter_simps)

lemma users_match:
  "map_match ''/api/users'' m =
     (if m = ''GET'' \<or> m = ''HEAD'' \<or> m = ''OPTIONS'' then Matched EGetUsers []
      else if m = ''POST'' then Matched ECreateUser []
      else NotAllowed (allowed_methods ''/api/users''))"
  by (auto simp: map_match_def allowed_methods_def users_path rule_get_users_def rule_create_user_def)

lemma get_json_Inl:
  "get_json rq = Inl e \<Longrightarrow> e = (if is_json rq then HttpBadRequest else HttpUnsupportedMediaType)"
  by (auto simp: get_json_def split: option.splits if_splits)

lemma serve_world: "\<exists>r. fst (serve w rq) = fst (handle w r)"
proof -
  have u: "\<exists>r. w = fst (handle w r)" by (rule exI [of _ Unrouted]) (simp add: not_found_def)
  have "\<exists>r. fst (dispatch w rq m pp) = fst (handle w r)" for m pp
    by (auto simp: dispatch_def internal_error_def not_found_def u split: match_result.split option.split)
  then show ?thesis by (simp add: serve_def case_prod_beta)
qed


text \<open>The rules of \<open>url_map\<close> have one to three segments, so a path is decided by
  its first three segments and whether there are more.\<close>

lemma segs_cases:
  obtains "ss = []" | a where "ss = [a]" | a b where "ss = [a, b]" | a b c where "ss = [a, b, c]"
    | a b c d r where "ss = a # b # c # d # r"
  by (metis list.exhaust)

lemmas url_map_rules = url_map_def rule_static_def rule_health_check_def rule_get_users_def
  rule_get_user_def rule_create_user_def rule_update_user_def rule_delete_user_def
  rule_get_stats_def

lemma rules_unambiguous:
  assumes "m \<noteq> ''OPTIONS''"
  shows "length (filter (\<lambda>(r, _). m \<in> set (rule_methods r)) (List.map_filter (rule_match ss) url_map)) \<le> 1"
  using assms by (cases ss rule: segs_cases) (auto simp: url_map_rules split: option.split)

lemma rules_view_defined:
  "(Rule ps ms e, args) \<in> set (List.map_filter (rule_match ss) url_map) \<Longrightarrow> view_call e args rq \<noteq> None"
  by (cases ss rule: segs_cases) (auto simp: url_map_rules split: option.splits if_splits)

text \<open>No request reaches the 500 handler: the rule \<open>map_match\<close> picks always gives its view
  the arguments it takes.\<close>

lemma view_call_defined:
  assumes "map_match pp m = Matched e args"
  shows "view_call e args rq \<noteq> None"
proof -
  obtain ps ms where "find (\<lambda>(r, _). m \<in> set (rule_methods r)) (path_rules pp) = Some (Rule ps ms e, args)"
    using assms by (auto simp: map_match_def split: option.splits rule.splits if_splits)
  then have "(Rule ps ms e, args) \<in> set (path_rules pp)" by (metis find_Some_iff nth_mem)
  then show ?thesis unfolding path_rules_def by (rule rules_view_defined)
qed

subsection \<open>Properties of the HTTP layer\<close>

text \<open>C32. The URL of a user, \<open>/api/users/\<close> followed by the decimal digits of its id,
  routes back to that id: \<open>GET\<close>, \<open>PUT\<close> and \<open>DELETE\<close> on it run \<open>get_user\<close>,
  \<open>update_user\<close> (with the outcome of \<open>get_json\<close>) and \<open>delete_user\<close> for that id, and
  the answer is their JSON response (lines 101, 139, 164).\<close>

theorem user_url_roundtrip:
  assumes p: "path rq = ''/api/users/'' @ show_nat i"
  shows "(request_method rq = ''GET'' \<longrightarrow> serve w rq = map_prod id json_answer (get_user w i))
     \<and> (request_method rq = ''PUT'' \<longrightarrow> serve w rq = map_prod id json_answer (update_user w i (get_json rq)))
     \<and> (request_method rq = ''DELETE'' \<longrightarrow> serve w rq = map_prod id json_answer (delete_user w i))"
proof -
  define u where "u = ''/api/users/'' @ show_nat i"
  have s: "CHR ''/'' \<notin> set (show_nat i)" by (rule show_nat_no_slash)
  have pp: "path_part (path rq) = u" using users_seg_path(1) [OF s] p by (simp add: u_def)
  have m: "map_match u m =
     (if m = ''GET'' \<or> m = ''HEAD'' \<or> m = ''OPTIONS'' then Matched EGetUser [i]
      else if m = ''PUT'' then Matched EUpdateUser [i]
      else if m = ''DELETE'' then Matched EDeleteUser [i]
      else NotAllowed (allowed_methods u))" for m
    using users_seg_match [OF u_def s, of m] match_int_show_nat [of "show_nat i" i] by simp
  show ?thesis by (simp add: serve_not_head pp m dispatch_def)
qed

theorem user_url_roundtrip_witness:
  "serve demo_world \<lparr>request_method = ''GET'', path = ''/api/users/'' @ show_nat 1, content_type = [], data = []\<rparr>
     = map_prod id json_answer (get_user demo_world 1)"
  using user_url_roundtrip [of "\<lparr>request_method = ''GET'', path = ''/api/users/'' @ show_nat 1, content_type = [], data = []\<rparr>"
      1 demo_world]
  by simp

text \<open>C33. A last segment that is not a string of decimal digits (\<open>-1\<close>, \<open>abc\<close>, or
  empty, as in \<open>/api/users/\<close>) matches no rule, whatever the method: the 404 handler
  answers \<open>{"error": "Not found"}\<close> and nothing changes (lines 101, 210-212).\<close>

theorem non_integer_id_404:
  assumes p: "path rq = ''/api/users/'' @ s" and sl: "CHR ''/'' \<notin> set s"
    and nd: "\<not> (s \<noteq> [] \<and> list_all is_digit s)" and h: "request_method rq \<noteq> ''HEAD''"
  shows "serve w rq = (w, json_answer (ok 404 (JObj [(''error'', JStr ''Not found'')])))"
proof -
  define u where "u = ''/api/users/'' @ s"
  have pp: "path_part (path rq) = u" using users_seg_path(1) [OF sl] p by (simp add: u_def)
  have "map_match u m = NoMatch" for m using users_seg_match [OF u_def sl, of m] nd by simp
  then show ?thesis by (simp add: serve_not_head [OF h] pp dispatch_no_match)
qed

theorem non_integer_id_404_witness:
  "serve demo_world \<lparr>request_method = ''GET'', path = ''/api/users/-1'', content_type = [], data = []\<rparr>
     = (demo_world, json_answer (ok 404 (JObj [(''error'', JStr ''Not found'')])))"
  using non_integer_id_404 [of "\<lparr>request_method = ''GET'', path = ''/api/users/-1'', content_type = [], data = []\<rparr>"
      "''-1''" demo_world]
  by (simp add: is_digit_def)

text \<open>C34. A method no rule of \<open>/api/users/<id>\<close> accepts (\<open>POST\<close>, \<open>PATCH\<close>, ...) is
  answered by Werkzeug: 405 with the \<open>Allow\<close> header \<open>GET, HEAD, OPTIONS, PUT,
  DELETE\<close> and its HTML page, not a JSON body; the app has no 405 handler.\<close>

theorem wrong_method_405:
  assumes p: "path rq = ''/api/users/'' @ show_nat i"
    and m: "py_upper (request_method rq) \<notin> {''GET'', ''HEAD'', ''OPTIONS'', ''PUT'', ''DELETE''}"
  shows "fst (serve w rq) = w \<and> code (snd (serve w rq)) = 405
     \<and> set (allow (snd (serve w rq))) = {''GET'', ''HEAD'', ''OPTIONS'', ''PUT'', ''DELETE''}
     \<and> payload (snd (serve w rq))
         = HtmlPage (error_page 405 ''Method Not Allowed'' ''The method is not allowed for the requested URL.'')"
proof -
  define u where "u = ''/api/users/'' @ show_nat i"
  have s: "CHR ''/'' \<notin> set (show_nat i)" by (rule show_nat_no_slash)
  have d: "show_nat i \<noteq> [] \<and> list_all is_digit (show_nat i)"
    using match_int_show_nat [of "show_nat i" i] by simp
  have pp: "path_part (path rq) = u" using users_seg_path(1) [OF s] p by (simp add: u_def)
  have h: "request_method rq \<noteq> ''HEAD''" using m by auto
  have "map_match u (py_upper (request_method rq)) = NotAllowed (allowed_methods u)"
    using users_seg_match [OF u_def s, of "py_upper (request_method rq)"] m d by auto
  then show ?thesis
    using users_seg_allowed [OF u_def s d]
    by (simp add: serve_not_head [OF h] pp dispatch_not_allowed method_not_allowed_def)
qed

theorem wrong_method_405_witness:
  "code (snd (serve demo_world \<lparr>request_method = ''PATCH'', path = ''/api/users/'' @ show_nat 1,
                                 content_type = [], data = []\<rparr>)) = 405"
  using wrong_method_405 [of "\<lparr>request_method = ''PATCH'', path = ''/api/users/'' @ show_nat 1,
                              content_type = [], data = []\<rparr>" 1 demo_world]
  by (simp add: py_upper_def py_upper_ascii_def)

text \<open>C35. A \<open>POST /api/users\<close> whose body \<open>request.get_json()\<close> rejects answers 500,
  not 400, and changes nothing: 415 text when the content type is not JSON, the 400
  text when the body does not parse (lines 114, 134-136).\<close>

theorem rejected_body_is_500:
  assumes "request_method rq = ''POST''" and "path rq = ''/api/users''" and g: "get_json rq = Inl e"
  shows "serve w rq = (w, json_answer (err 500 e))
     \<and> e = (if is_json rq then HttpBadRequest else HttpUnsupportedMediaType)"
  using assms get_json_Inl [OF g]
  by (simp add: serve_not_head users_path users_match dispatch_def create_user_def)

theorem rejected_body_is_500_witness:
  "serve demo_world \<lparr>request_method = ''POST'', path = ''/api/users'', content_type = ''text/plain'', data = ''{}''\<rparr>
     = (demo_world, json_answer (err 500 HttpUnsupportedMediaType))
   \<and> serve demo_world \<lparr>request_method = ''POST'', path = ''/api/users'', content_type = ''application/json'',
                           data = ''{bad''\<rparr>
     = (demo_world, json_answer (err 500 HttpBadRequest))"
proof -
  let ?a = "\<lparr>request_method = ''POST'', path = ''/api/users'', content_type = ''text/plain'', data = ''{}''\<rparr>"
  let ?b = "\<lparr>request_method = ''POST'', path = ''/api/users'', content_type = ''application/json'', data = ''{bad''\<rparr>"
  have a: "get_json ?a = Inl HttpUnsupportedMediaType" by code_simp
  have b: "get_json ?b = Inl HttpBadRequest" by code_simp
  show ?thesis using rejected_body_is_500 [OF _ _ a, of demo_world] rejected_body_is_500 [OF _ _ b, of demo_world]
    by simp
qed



text \<open>Every HTTP request, answered by a view or by the framework, is a step of the
  service's transition system: the properties proved of \<open>reach\<close> hold for runs of
  HTTP requests.\<close>

lemma serve_preserves_reach: "reach f w \<Longrightarrow> reach f (fst (serve w rq))"
  using serve_world [of w rq] by (metis reach.step sys_step.request)

text \<open>C39. The URL map of app.py is unambiguous: for any path and any method but
  \<open>OPTIONS\<close>, at most one rule accepts the request, so the order of the rules does
  not matter.\<close>

theorem url_map_unambiguous:
  "m \<noteq> ''OPTIONS'' \<Longrightarrow> length (filter (\<lambda>(r, _). m \<in> set (rule_methods r)) (path_rules pp)) \<le> 1"
  unfolding path_rules_def by (rule rules_unambiguous)

theorem url_map_unambiguous_witness:
  "''GET'' \<noteq> ''OPTIONS''
   \<and> length (filter (\<lambda>(r, _). ''GET'' \<in> set (rule_methods r)) (path_rules ''/api/users'')) \<le> 1"
  using url_map_unambiguous [of "''GET''" "''/api/users''"] by (simp add: users_path)

end
