(* ===== verification/Spec2Isabelle.thy ===== *)
theory Spec2Isabelle
  imports Race Stats_Race Handler_Properties Http Config
begin

text \<open>
  \<^bold>\<open>Verification of the backend service of gcp-k8s-microservices\<close>
  (src/apps/backend/app.py).

  \<^bold>\<open>The program.\<close> A Flask application with one table (\<open>users\<close>, the SQLAlchemy model
  \<open>User\<close>, lines 26-40) in PostgreSQL and a Redis cache in front of the two
  collection reads. \<open>GET /api/users\<close> and \<open>GET /api/stats\<close> follow the cache-aside
  pattern: \<open>cache.get\<close>, on a miss a query and \<open>cache.setex\<close> with a time-to-live of 300
  and 60 seconds. \<open>POST\<close>, \<open>PUT\<close> and \<open>DELETE\<close> commit to the table and then delete
  \<open>users:all\<close>. \<open>GET /health\<close> probes both servers. Every route catches \<open>Exception\<close>
  and answers with a JSON error body. Flask and Werkzeug sit in front of the views: they
  match the method and path against the rules the \<open>@app.route\<close> decorators register, run
  the view or answer themselves (404 through the app's handler, 405, 308, \<open>OPTIONS\<close>), and
  \<open>request.get_json()\<close> decodes the body of the two writes that read one.

  \<^bold>\<open>Theories and what they model.\<close>
  \<^item> \<open>Prelude\<close>: the collections \<open>store_simps\<close>, \<open>cache_simps\<close> and \<open>eval_defs\<close>
    (the unfoldings that evaluate the model on concrete inputs), decimal printing of
    integers, and list and map lemmas.
  \<^item> \<open>Json\<close>: the JSON values the service exchanges and Python's \<open>json.dumps\<close>
    (\<open>ensure_ascii\<close>, separators \<open>', '\<close> and \<open>': '\<close>) and \<open>json.loads\<close> (the scanner of
    the C accelerator, with fuel). \<open>json_roundtrip\<close>: loads after dumps gives the value
    back for every value whose objects have distinct keys.
  \<^item> \<open>Json_Decode\<close>: every value \<open>json_loads\<close> returns has distinct keys, and its fuel
    \<open>length s + 1\<close> is enough: any larger fuel gives the same answer
    (\<open>json_loads_fuel_enough\<close>), since a
    parse succeeds with any fuel at least the number of characters it consumes.
  \<^item> \<open>Store\<close>: the table as a record of rows, the sequence \<open>next_id\<close> and an
    availability flag. One function per query or commit of app.py (\<open>insert_row\<close>,
    \<open>get_row\<close>, \<open>update_row\<close>, \<open>delete_row\<close>, \<open>all_rows\<close>, \<open>count_rows\<close>,
    \<open>count_since\<close>, \<open>select_one\<close>). Each applies PostgreSQL's checks in order:
    psycopg2's adaptation of the values (\<open>adapt_varchar\<close>) on the client; the casts to
    \<open>varchar(80)\<close> and \<open>varchar(120)\<close> (\<open>varchar_cast\<close>: an error past the length,
    except that trailing spaces are cut) while the statement is planned; then, while it
    runs, \<open>nextval\<close> of the \<open>serial\<close> sequence, which ends at \<open>2^31 - 1\<close> (\<open>seq_max\<close>),
    NOT NULL and UNIQUE. So an INSERT that fails while it runs consumes an id, and one
    whose value is too long does not. An UPDATE casts only the columns it assigns
    (\<open>cast_col\<close>). \<open>db_inv\<close> is kept by every commit.
  \<^item> \<open>Cache\<close>: Redis as a map from keys to a value and an absolute expiry time in
    milliseconds, with lazy expiry (a key is alive while \<open>now \<le> expire\<close>). \<open>r_get\<close>,
    \<open>r_setex\<close>, \<open>r_delete\<close> and \<open>r_ping\<close> raise \<open>ConnectionError\<close> when the server does
    not answer.
  \<^item> \<open>Datetime\<close>: the microsecond clock behind \<open>datetime.utcnow()\<close>, \<open>isoformat\<close>
    (proleptic Gregorian calendar), and the seven-day window.
  \<^item> \<open>Handlers\<close>: the state \<open>world\<close> (database, cache, clock) and one function per
    route: \<open>health_check\<close>, \<open>get_users\<close>, \<open>get_user\<close>, \<open>create_user\<close>,
    \<open>update_user\<close>, \<open>delete_user\<close>, \<open>get_stats\<close>, \<open>not_found\<close>. Each returns the new
    world and the response (status and JSON body). Every \<open>try\<close>/\<open>except\<close> branch
    is a case of the function. The body argument of the two writes is the outcome of
    \<open>request.get_json()\<close>: the value, or the exception it raised. \<open>handle\<close> maps a
    view call (\<open>request\<close>) to its function.
    \<open>invalidate_then\<close> is the common tail of the writes. Also here: the effect lemmas
    of each handler and the sample state \<open>demo_world\<close> of the witnesses.
  \<^item> \<open>Handler_Properties\<close>: the properties of single requests, each with its witness.
  \<^item> \<open>Policy\<close>: runs of the service with requests served atomically. \<open>sys_step f\<close>
    is one step:
    \<^item> a request served by \<open>handle\<close>;
    \<^item> the clock advancing;
    \<^item> PostgreSQL going down or up;
    \<^item> Redis going down (only when \<open>f\<close>) or up.

    \<open>reach f\<close> is the set of states reachable from an empty table and cache. Also
    defined here: \<open>users_spec\<close>, the abstract value of the list read, and the
    invariants \<open>users_coherent\<close>, \<open>stats_origin\<close>, \<open>ids_grow\<close>, \<open>ttl_bounded\<close>
    and \<open>hits_inert\<close> (nothing writes \<open>cache:hits\<close>).
  \<^item> \<open>Race\<close>: the interleaving the specification accepts. \<open>get_users\<close> is split at its
    table read into \<open>get_users_query\<close> (lines 80-89) and \<open>get_users_fill\<close>
    (lines 92-97). A state (\<open>node\<close>) adds the multiset of rows read by list requests
    that have not stored them yet. \<open>rstep f\<close> interleaves the two halves with whole
    requests, clock moves and outages; \<open>rreach f\<close> is the set of its states.
    \<open>get_users_split\<close> recomposes the halves into \<open>get_users\<close>.
  \<^item> \<open>Stats_Race\<close>: \<open>get_stats\<close> split at its two counts into \<open>get_stats_total\<close>
    (lines 183-190), \<open>get_stats_recent\<close> (lines 191-193) and \<open>get_stats_fill\<close>
    (lines 195-205), interleaved by \<open>sstep f\<close> with whole requests, clock moves and
    outages; \<open>get_stats_split\<close> recomposes them. The invariant \<open>stats_origin_i\<close> (rule
    induction over \<open>sreach\<close>) says a \<open>stats\<close> entry holds the total of one state and the
    recent count of a later one, stored at most 60 s ago (C23).
    \<open>stats_race_state\<close> is reached by a run where the cached reply has
    \<open>recent_users = 1 > total_users = 0\<close> (C26).
  \<^item> \<open>Http\<close>: the framework in front of the views (Flask 3 and Werkzeug 3 behaviour).
    \<open>http_request\<close> is what WSGI hands over: method, path, \<open>Content-Type\<close> and body.
    \<open>url_map\<close> lists one rule per decorator (lines 47, 75, 101, 110, 139, 164, 180) plus
    the \<open>static\<close> rule of \<open>Flask(__name__)\<close>. \<open>map_match\<close> is \<open>MapAdapter.match\<close>:
    the \<open>int\<close> converter (\<open>match_segs\<close>), methods with the added \<open>HEAD\<close> and
    \<open>OPTIONS\<close> (\<open>rule_methods\<close>), the merged-slash retry with its 308, then 405 or 404.
    \<open>get_json\<close> is \<open>request.get_json()\<close> with \<open>mimetype\<close> and \<open>is_json\<close>.
    \<open>dispatch\<close> is \<open>full_dispatch_request\<close>; \<open>serve\<close> adds the empty body of \<open>HEAD\<close>.
    Every view call goes through \<open>handle\<close>, so \<open>serve\<close> is a step of \<open>sys_step\<close>
    (\<open>serve_preserves_reach\<close>), and \<open>HEAD\<close> runs the \<open>GET\<close> view (\<open>serve_head\<close>).
    A view called with arguments it does not take would raise and reach the 500 handler
    \<open>internal_error\<close> (lines 214-217); \<open>view_call_defined\<close> shows no rule does that.
  \<^item> \<open>Py_String\<close>: the \<open>str\<close> methods Werkzeug, urllib and redis-py apply (\<open>strip\<close>,
    \<open>lower\<close>, \<open>upper\<close>, \<open>split\<close>, \<open>partition\<close>, \<open>rpartition\<close>, \<open>int()\<close>).
  \<^item> \<open>Config\<close>: the start-up configuration. \<open>getenv\<close> with the defaults of lines 14-16
    and 22 (\<open>load_config\<close>, \<open>redis_url\<close>); \<open>parse_redis_url\<close>, redis-py's \<open>parse_url\<close>
    behind \<open>redis.from_url\<close> (line 23), with its \<open>ValueError\<close> cases; \<open>app_run_options\<close>
    (line 220). \<open>redis_url_roundtrip\<close>: a URL printed from a connection of the deployed
    form parses back to it; without \<open>REDIS_URL\<close> the client talks to \<open>redis:6379\<close>,
    database 0, password \<open>redis123\<close> (C36).

  \<^bold>\<open>What is proved\<close> (claims C1-C39, each right after a text block naming it).
  \<^item> Consistency policy:
    \<^item> With Redis reachable and requests atomic, the cached list is always the current
      table (C1). The list read refines its abstract value (C2).
    \<^item> Successful writes invalidate the list (C3). Failed writes touch neither the
      cache nor the rows (C4).
    \<^item> The TTL behaviour of the list (C5, C6) and of the statistics (C7, C15).
    \<^item> Staleness bound for the statistics in every run (C8). Nothing writes
      \<open>cache:hits\<close>, so every statistics reply reports \<open>cache_hits\<close> 0 (C30).
    \<^item> Writes never touch the statistics entry (C22).
    \<^item> Every cached entry is gone 300.001 s later (C28). From every reachable state
      the service can recover the current list (C29).
  \<^item> Interleaved reads:
    \<^item> A cached list is the table of an earlier state, stored at most 300 s ago (C24).
    \<^item> Its age relative to the table is unbounded: a list read that stores its rows
      after a write serves a list missing a row created any time \<open>D\<close> before (C25).
    \<^item> A cached statistics reply was stored at most 60 s ago, from counts of two
      possibly different earlier states (C23); they can report more recent users than
      users (C26).
  \<^item> Store and handlers:
    \<^item> Well-formedness is an invariant of every run (C9). Ids are never reused (C19).
    \<^item> Create then get (C10), duplicate rejection (C11), delete then get (C13),
      update then get (C31).
    \<^item> A username too long for its column is rejected with 500 before any id is
      taken (C27).
    \<^item> Update keeps ids and creation times (C20).
    \<^item> \<open>GET /api/users/<id>\<close> reads the table, never the cache, and answers 404 on
      every failure (C37).
    \<^item> The health report (C14).
  \<^item> Where the code departs from the specification's error design:
    \<^item> reads fail when Redis is down (C17);
    \<^item> a committed write answers 500 when the DEL fails (C18);
    \<^item> that leaves a stale list served from the cache after the outage (C16);
    \<^item> a missing id on update or delete gives 500 and not 404 (C12);
    \<^item> an empty update succeeds (C21);
    \<^item> a body that is not JSON, or does not parse, gives 500 and not 400 (C35);
    \<^item> a method a URL does not accept gets Werkzeug's 405 HTML page (C34).
  \<^item> The HTTP layer:
    \<^item> the URL of an id routes back to it for \<open>GET\<close>, \<open>PUT\<close> and \<open>DELETE\<close> (C32);
    \<^item> any other last segment is the JSON 404 (C33);
    \<^item> \<open>OPTIONS\<close> never runs a view (C38);
    \<^item> the URL map is unambiguous (C39).
  \<^item> Configuration: the default Redis connection (C36).

  \<^bold>\<open>Choices.\<close>
  \<^item> In \<open>Policy\<close> a request is one atomic step. In \<open>Race\<close> only \<open>get_users\<close> is split.
    It is the read whose cache entry the writes invalidate, so it is where the
    interleaving breaks the policy. A write commits before its \<open>DEL\<close>, and splitting
    it only shifts the moment the table changes. \<open>get_stats\<close> also reads the table
    twice and later stores what it read; \<open>Stats_Race\<close> splits it separately. The bound
    of C8 is proved for atomic requests; with interleaving only the 60 s of the entry
    stay bounded, and the two counts may disagree.
  \<^item> Time is an integer number of microseconds. Redis reads it in milliseconds
    (\<open>now_ms\<close>).
  \<^item> No fuel bounds a request: every handler is a total function. The HTTP layer models
    Flask 3 and Werkzeug 3, the versions the unpinned imports of app.py resolve to. A method
    is upper-cased on ASCII letters; a method is an HTTP token, so nothing else occurs.
  \<^item> Debug mode is off (line 220 turns it on only for \<open>FLASK_ENV=development\<close>). In debug
    mode the 400 of a body that does not parse carries the decoder's message, which
    \<open>json_loads\<close> does not produce.
  \<^item> The JSON parser takes fuel \<open>length s + 1\<close>, and \<open>json_loads_fuel_enough\<close> shows
    that no larger fuel changes its answer.
  \<^item> The sample run \<open>stats_race_state\<close> and the sample state \<open>demo_world\<close> are data
    for witnesses, not models of code.

  \<^bold>\<open>Not modelled.\<close>
  \<^item> CORS (line 11): it only adds headers, and the model keeps no header but \<open>Allow\<close>
    and \<open>Location\<close>. SQLAlchemy's parse of the database URI (line 19). In the Redis URL:
    percent-escapes, query arguments, IPv6 hosts and \<open>unix://\<close> sockets.
  \<^item> The scheme and host of a redirect's \<open>Location\<close> and the text of its page.
    \<open>RedirectPage p\<close> stands for Werkzeug's page to the path \<open>p\<close>.
  \<^item> Static files: the repository has none, so \<open>send_static_file\<close> raises \<open>NotFound\<close>.
  \<^item> JSON floats, \<open>\u\<close> escapes above code point 255 (characters are bytes in the model),
    and Python's recursion limit on deeply nested JSON. app.py only decodes what it
    encoded itself, at most three levels deep.
  \<^item> Connection pools and network timeouts.
\<close>

end
